(* ===== verification/Prelude.thy ===== *)
theory Prelude
  imports Main "HOL-Library.Word"
begin

unbundle bit_operations_syntax

text \<open>
  Shared ground of the development: the machine integers of the Rust sources as words, byte
  strings, the \<open>Result\<close> combinators, little-endian integer encoding (the layout that the
  \<open>repr(C)\<close> structs have on the targets the program is built for: x86-64, aarch64 and
  \<open>bpfel\<close>), and the generic facts on lists, maps and words that several components use.

  A Rust \<open>usize\<close> is 64 bits wide on these targets. Lengths and indices are naturals; where
  the code checks for overflow (\<open>checked_add\<close>) the bound is written out.
\<close>

section \<open>Names for the machine types\<close>

type_synonym u8 = "8 word"
type_synonym u16 = "16 word"
type_synonym u32 = "32 word"
type_synonym u64 = "64 word"
type_synonym i32 = "32 word" \<comment> \<open>read with \<open>sint\<close>\<close>
type_synonym i64 = "64 word" \<comment> \<open>read with \<open>sint\<close>\<close>

text \<open>A Rust \<open>Result\<close>: \<open>Inl\<close> is \<open>Err\<close>, \<open>Inr\<close> is \<open>Ok\<close>.\<close>

type_synonym ('a, 'e) result = "'e + 'a"

definition ok_or :: "'e \<Rightarrow> 'a option \<Rightarrow> 'e + 'a" where
  "ok_or e x = (case x of None \<Rightarrow> Inl e | Some v \<Rightarrow> Inr v)"

definition bind_result :: "'e + 'a \<Rightarrow> ('a \<Rightarrow> 'e + 'b) \<Rightarrow> 'e + 'b" where
  "bind_result r f = (case r of Inl e \<Rightarrow> Inl e | Inr v \<Rightarrow> f v)"

definition is_ok :: "'e + 'a \<Rightarrow> bool" where
  "is_ok r = (case r of Inl _ \<Rightarrow> False | Inr _ \<Rightarrow> True)"

definition unwrap_or :: "'a \<Rightarrow> 'a option \<Rightarrow> 'a" where
  "unwrap_or d x = (case x of None \<Rightarrow> d | Some v \<Rightarrow> v)"

lemma ok_or_simps [simp]: "ok_or e None = Inl e" "ok_or e (Some v) = Inr v"
  by (simp_all add: ok_or_def)

lemma bind_result_simps [simp]:
  "bind_result (Inl e) f = Inl e" "bind_result (Inr v) f = f v"
  by (simp_all add: bind_result_def)

lemma bind_result_Inr_iff: "bind_result r f = Inr y \<longleftrightarrow> (\<exists>v. r = Inr v \<and> f v = Inr y)"
  by (cases r) simp_all

lemma is_ok_simps [simp]: "\<not> is_ok (Inl e)" "is_ok (Inr v)"
  by (simp_all add: is_ok_def)

lemma unwrap_or_simps [simp]: "unwrap_or d None = d" "unwrap_or d (Some v) = v"
  by (simp_all add: unwrap_or_def)

section \<open>Collections of facts\<close>

text \<open>
  \<open>layout\<close> holds the sizes and offsets of the wire structs, \<open>wf\<close> the well-formedness
  facts that the operations establish.
\<close>

named_theorems layout
named_theorems wf

section \<open>Fixed-width slices\<close>

text \<open>\<open>field off n bs\<close> is the slice \<open>bs[off..off + n]\<close> of a buffer.\<close>

definition field :: "nat \<Rightarrow> nat \<Rightarrow> 'a list \<Rightarrow> 'a list" where
  "field off n bs = take n (drop off bs)"

lemma length_field [simp]: "length (field off n bs) = min n (length bs - off)"
  by (simp add: field_def)

lemma field_all: "length bs = n \<Longrightarrow> field 0 n bs = bs"
  by (simp add: field_def)

text \<open>
  Reading a field of a concatenation: skip the pieces before it, read inside the piece that
  holds it.
\<close>

lemma field_append_skip:
  "length xs \<le> off \<Longrightarrow> field off n (xs @ ys) = field (off - length xs) n ys"
  by (simp add: field_def)

lemma field_append_in:
  "off + n \<le> length xs \<Longrightarrow> field off n (xs @ ys) = field off n xs"
  by (simp add: field_def)

lemma field_field: "o2 + n2 \<le> n1 \<Longrightarrow> field o2 n2 (field o1 n1 bs) = field (o1 + o2) n2 bs"
  by (simp add: field_def drop_take add.commute min_def)

lemma field_take: "off + n \<le> m \<Longrightarrow> field off n (take m bs) = field off n bs"
  by (simp add: field_def drop_take min_def)

section \<open>Little-endian integers\<close>

primrec le_bytes :: "nat \<Rightarrow> nat \<Rightarrow> u8 list" where
  "le_bytes 0 v = []"
| "le_bytes (Suc n) v = of_nat v # le_bytes n (v div 256)"

fun le_val :: "u8 list \<Rightarrow> nat" where
  "le_val [] = 0"
| "le_val (b # bs) = unat b + 256 * le_val bs"

lemma length_le_bytes [simp]: "length (le_bytes n v) = n"
  by (induction n arbitrary: v) simp_all

lemma unat_of_nat_byte [simp]: "unat (of_nat v :: u8) = v mod 256"
  by (simp add: unat_of_nat)

lemma le_val_le_bytes: "le_val (le_bytes n v) = v mod 256 ^ n"
proof (induction n arbitrary: v)
  case 0
  show ?case by simp
next
  case (Suc n)
  have "v mod 256 + 256 * (v div 256 mod 256 ^ n) = v mod (256 * 256 ^ n)"
    by (simp add: mod_mult2_eq)
  with Suc show ?case by simp
qed

lemma unat_bound: "unat (w :: 'a::len word) < 2 ^ LENGTH('a)"
  by (rule unsigned_less)

definition u32_bytes :: "u32 \<Rightarrow> u8 list" where
  "u32_bytes w = le_bytes 4 (unat w)"

definition u64_bytes :: "u64 \<Rightarrow> u8 list" where
  "u64_bytes w = le_bytes 8 (unat w)"

definition u32_of_bytes :: "u8 list \<Rightarrow> u32" where
  "u32_of_bytes bs = of_nat (le_val bs)"

definition u64_of_bytes :: "u8 list \<Rightarrow> u64" where
  "u64_of_bytes bs = of_nat (le_val bs)"

lemma length_u32_bytes [simp]: "length (u32_bytes w) = 4"
  by (simp add: u32_bytes_def)

lemma length_u64_bytes [simp]: "length (u64_bytes w) = 8"
  by (simp add: u64_bytes_def)

lemma u32_roundtrip [simp]: "u32_of_bytes (u32_bytes w) = w"
proof -
  have "unat w < 256 ^ 4" using unat_bound [of w] by simp
  then have "le_val (u32_bytes w) = unat w"
    by (simp add: u32_bytes_def le_val_le_bytes)
  then show ?thesis by (simp add: u32_of_bytes_def)
qed

lemma u64_roundtrip [simp]: "u64_of_bytes (u64_bytes w) = w"
proof -
  have "unat w < 256 ^ 8" using unat_bound [of w] by simp
  then have "le_val (u64_bytes w) = unat w"
    by (simp add: u64_bytes_def le_val_le_bytes)
  then show ?thesis by (simp add: u64_of_bytes_def)
qed

section \<open>Characters and bytes\<close>

text \<open>
  A Rust string is its UTF-8 bytes; a HOL \<open>char\<close> is one byte. The two functions convert
  between a byte as the wire has it and a byte of a string.
\<close>

definition char_of_u8 :: "u8 \<Rightarrow> char" where
  "char_of_u8 b = char_of (unat b)"

definition u8_of_char :: "char \<Rightarrow> u8" where
  "u8_of_char c = of_nat (of_char c)"

lemma u8_of_char_of_u8 [simp]: "u8_of_char (char_of_u8 b) = b"
proof -
  have "unat b < 256" using unat_bound [of b] by simp
  then show ?thesis by (simp add: u8_of_char_def char_of_u8_def)
qed

lemma char_of_u8_of_char [simp]: "char_of_u8 (u8_of_char c) = c"
  by (simp add: u8_of_char_def char_of_u8_def)

lemma map_char_roundtrip [simp]:
  "map char_of_u8 (map u8_of_char s) = s" "map u8_of_char (map char_of_u8 bs) = bs"
  by (simp_all add: comp_def)

abbreviation bytes_of :: "string \<Rightarrow> u8 list" where
  "bytes_of s \<equiv> map u8_of_char s"

section \<open>Generic list facts\<close>

lemma takeWhile_append_stop: "list_all P xs \<Longrightarrow> \<not> P y \<Longrightarrow> takeWhile P (xs @ y # ys) = xs"
  by (induction xs) auto

lemma list_all_takeWhile: "list_all P (takeWhile P xs)"
  by (induction xs) auto

lemma foldl_invariant:
  "I s \<Longrightarrow> (\<And>s x. I s \<Longrightarrow> x \<in> set xs \<Longrightarrow> I (f s x)) \<Longrightarrow> I (foldl f s xs)"
  by (induction xs arbitrary: s) auto

lemma foldl_max: "foldl max (i :: int) is = Max (insert i (set is))"
proof (induction "is" arbitrary: i)
  case Nil
  show ?case by simp
next
  case (Cons a "is")
  have "Max (insert (max i a) (set is)) = Max (insert i (insert a (set is)))"
    by (cases "set is = {}") (simp_all add: max.assoc)
  with Cons show ?case by simp
qed


end
