(* ===== verification/Utf8.thy ===== *)
theory Utf8
  imports Prelude
begin

text \<open>
  UTF-8 as Rust's standard library decodes it: \<open>String::from_utf8_lossy\<close> (used by the event
  parser and the sinks), \<open>str::from_utf8\<close> (used by the BTF parser) and the view of a string as
  its characters (\<open>str::chars\<close>), used by the search language and the web views.

  A character is kept as the bytes of its encoding, so two characters are equal exactly when
  their encodings are, and no code point arithmetic is needed.
\<close>

section \<open>One encoded character\<close>

text \<open>\<open>safe_get\<close> of the lossy decoder: a read past the end is 0, which continues nothing.\<close>

definition safe_get :: "u8 list \<Rightarrow> nat \<Rightarrow> u8" where
  "safe_get bs i = (if i < length bs then bs ! i else 0)"

definition utf8_cont :: "u8 \<Rightarrow> bool" where
  "utf8_cont b \<longleftrightarrow> 128 \<le> b \<and> b \<le> 191"

definition utf8_second3 :: "u8 \<Rightarrow> u8 \<Rightarrow> bool" where
  "utf8_second3 b0 b1 \<longleftrightarrow>
     (if b0 = 0xE0 then 0xA0 \<le> b1 \<and> b1 \<le> 0xBF
      else if b0 = 0xED then 0x80 \<le> b1 \<and> b1 \<le> 0x9F
      else utf8_cont b1)"

definition utf8_second4 :: "u8 \<Rightarrow> u8 \<Rightarrow> bool" where
  "utf8_second4 b0 b1 \<longleftrightarrow>
     (if b0 = 0xF0 then 0x90 \<le> b1 \<and> b1 \<le> 0xBF
      else if b0 = 0xF4 then 0x80 \<le> b1 \<and> b1 \<le> 0x8F
      else utf8_cont b1)"

text \<open>
  \<open>utf8_head b0 bs\<close> looks at the sequence that starts with \<open>b0\<close> and goes on with \<open>bs\<close>: how
  many bytes it takes, and whether they are a well-formed character. An ill-formed sequence
  takes the bytes that could still have begun a character, at least one.
\<close>

definition utf8_head :: "u8 \<Rightarrow> u8 list \<Rightarrow> nat \<times> bool" where
  "utf8_head b0 bs =
     (if b0 < 128 then (1, True)
      else if 0xC2 \<le> b0 \<and> b0 \<le> 0xDF then
        (if utf8_cont (safe_get bs 0) then (2, True) else (1, False))
      else if 0xE0 \<le> b0 \<and> b0 \<le> 0xEF then
        (if \<not> utf8_second3 b0 (safe_get bs 0) then (1, False)
         else if \<not> utf8_cont (safe_get bs 1) then (2, False)
         else (3, True))
      else if 0xF0 \<le> b0 \<and> b0 \<le> 0xF4 then
        (if \<not> utf8_second4 b0 (safe_get bs 0) then (1, False)
         else if \<not> utf8_cont (safe_get bs 1) then (2, False)
         else if \<not> utf8_cont (safe_get bs 2) then (3, False)
         else (4, True))
      else (1, False))"

text \<open>U+FFFD, the replacement character.\<close>

definition utf8_replacement :: "u8 list" where
  "utf8_replacement = [0xEF, 0xBF, 0xBD]"

function utf8_lossy :: "u8 list \<Rightarrow> u8 list" where
  "utf8_lossy [] = []"
| "utf8_lossy (b # bs) =
     (let (n, ok) = utf8_head b bs
      in (if ok then take n (b # bs) else utf8_replacement) @ utf8_lossy (drop (n - 1) bs))"
  by pat_completeness auto
termination
  by (relation "measure length") auto

function valid_utf8 :: "u8 list \<Rightarrow> bool" where
  "valid_utf8 [] \<longleftrightarrow> True"
| "valid_utf8 (b # bs) \<longleftrightarrow>
     (let (n, ok) = utf8_head b bs in ok \<and> valid_utf8 (drop (n - 1) bs))"
  by pat_completeness auto
termination
  by (relation "measure length") auto

text \<open>The characters of a string, each as its bytes.\<close>

function str_chars :: "string \<Rightarrow> string list" where
  "str_chars [] = []"
| "str_chars (c # cs) =
     (let n = fst (utf8_head (u8_of_char c) (bytes_of cs))
      in take n (c # cs) # str_chars (drop (n - 1) cs))"
  by pat_completeness auto
termination
  by (relation "measure length") auto

declare utf8_lossy.simps(2) [simp del] valid_utf8.simps(2) [simp del] str_chars.simps(2) [simp del]

definition lossy_string :: "u8 list \<Rightarrow> string" where
  "lossy_string bs = map char_of_u8 (utf8_lossy bs)"

definition valid_string :: "string \<Rightarrow> bool" where
  "valid_string s \<longleftrightarrow> valid_utf8 (bytes_of s)"

section \<open>Facts about one character\<close>

lemma utf8_cont_0 [simp]: "\<not> utf8_cont 0"
  by (simp add: utf8_cont_def)

lemma utf8_second_0 [simp]: "\<not> utf8_second3 b0 0" "\<not> utf8_second4 b0 0"
  by (simp_all add: utf8_second3_def utf8_second4_def)

lemma safe_get_Cons [simp]: "safe_get (b # bs) 0 = b" "safe_get (b # bs) (Suc i) = safe_get bs i"
  by (simp_all add: safe_get_def)

lemma safe_get_Nil [simp]: "safe_get [] i = 0"
  by (simp add: safe_get_def)

lemma utf8_head_pos: "utf8_head b bs = (n, ok) \<Longrightarrow> 1 \<le> n \<and> n \<le> 4"
  by (auto simp: utf8_head_def split: if_splits)

lemma safe_get_pos_length: "utf8_cont (safe_get bs i) \<Longrightarrow> i < length bs"
  by (cases "i < length bs") (auto simp: safe_get_def)

lemma utf8_second_pos_length:
  "utf8_second3 b0 (safe_get bs i) \<Longrightarrow> i < length bs"
  "utf8_second4 b0 (safe_get bs i) \<Longrightarrow> i < length bs"
  by (cases "i < length bs"; auto simp: safe_get_def)+

lemma safe_get_append: "i < length xs \<Longrightarrow> safe_get (xs @ ys) i = safe_get xs i"
  by (simp add: safe_get_def nth_append)

lemma safe_get_take: "i < n \<Longrightarrow> i < length xs \<Longrightarrow> safe_get (take n xs) i = safe_get xs i"
  by (simp add: safe_get_def)

text \<open>
  A well-formed character fits in the input, and is still one when the bytes after it change.
\<close>

lemma utf8_head_length: "utf8_head b bs = (n, ok) \<Longrightarrow> n - 1 \<le> length bs"
  by (auto simp: utf8_head_def Suc_le_eq split: if_splits
      dest!: safe_get_pos_length utf8_second_pos_length)

lemma utf8_head_ok_length: "utf8_head b bs = (n, True) \<Longrightarrow> n - 1 \<le> length bs"
  by (rule utf8_head_length)

lemma utf8_head_ok_cong:
  assumes "utf8_head b bs = (n, True)"
  shows "utf8_head b (take (n - 1) bs @ ys) = (n, True)"
proof -
  have len: "n - 1 \<le> length bs" using assms by (rule utf8_head_ok_length)
  have get: "safe_get (take (n - 1) bs @ ys) i = safe_get bs i" if "i < n - 1" for i
    using that len by (simp add: safe_get_append safe_get_take)
  have get': "2 \<le> n \<Longrightarrow> safe_get (take (n - 1) bs @ ys) 0 = safe_get bs 0"
    "3 \<le> n \<Longrightarrow> safe_get (take (n - 1) bs @ ys) 1 = safe_get bs 1"
    "4 \<le> n \<Longrightarrow> safe_get (take (n - 1) bs @ ys) 2 = safe_get bs 2"
    using get by (auto simp del: One_nat_def)
  from assms show ?thesis
    unfolding utf8_head_def using get' by (auto split: if_splits)
qed

lemma utf8_head_ascii: "b < 128 \<Longrightarrow> utf8_head b bs = (1, True)"
  by (simp add: utf8_head_def)

lemma utf8_head_replacement: "utf8_head 0xEF (0xBF # 0xBD # bs) = (3, True)"
  by (simp add: utf8_head_def utf8_second3_def utf8_cont_def)

section \<open>Valid text\<close>

lemma valid_utf8_char:
  assumes "utf8_head b bs = (n, True)"
  shows "valid_utf8 (take n (b # bs) @ ys) \<longleftrightarrow> valid_utf8 ys"
proof -
  have n: "1 \<le> n" using utf8_head_pos [OF assms] by simp
  have len: "n - 1 \<le> length bs" using assms by (rule utf8_head_ok_length)
  from n have "take n (b # bs) @ ys = b # take (n - 1) bs @ ys"
    by (cases n) simp_all
  then show ?thesis
    using utf8_head_ok_cong [OF assms, of ys] len by (simp add: valid_utf8.simps(2))
qed

lemma valid_utf8_replacement: "valid_utf8 (utf8_replacement @ ys) \<longleftrightarrow> valid_utf8 ys"
  by (simp add: utf8_replacement_def valid_utf8.simps(2) utf8_head_replacement numeral_2_eq_2)

lemma valid_utf8_lossy: "valid_utf8 (utf8_lossy bs)"
proof (induction bs rule: utf8_lossy.induct)
  case 1
  show ?case by simp
next
  case (2 b bs)
  obtain n ok where h: "utf8_head b bs = (n, ok)" by fastforce
  from "2.IH" [OF h [symmetric] refl] have "valid_utf8 (utf8_lossy (drop (n - 1) bs))" .
  then show ?case
    using h valid_utf8_char [of b bs n]
    by (cases ok) (simp_all add: utf8_lossy.simps(2) valid_utf8_replacement)
qed

lemma utf8_lossy_valid: "valid_utf8 bs \<Longrightarrow> utf8_lossy bs = bs"
proof (induction bs rule: utf8_lossy.induct)
  case 1
  show ?case by simp
next
  case (2 b bs)
  obtain n ok where h: "utf8_head b bs = (n, ok)" by fastforce
  with "2.prems" have ok: "ok" and rest: "valid_utf8 (drop (n - 1) bs)"
    by (simp_all add: valid_utf8.simps(2))
  have n: "1 \<le> n" using utf8_head_pos [OF h] by simp
  from "2.IH" [OF h [symmetric] refl rest] h ok n
  show ?case by (cases n) (simp_all add: utf8_lossy.simps(2))
qed

lemma valid_utf8_append: "valid_utf8 xs \<Longrightarrow> valid_utf8 (xs @ ys) \<longleftrightarrow> valid_utf8 ys"
proof (induction xs rule: valid_utf8.induct)
  case 1
  show ?case by simp
next
  case (2 b bs)
  obtain n ok where h: "utf8_head b bs = (n, ok)" by fastforce
  with "2.prems" have ok: "ok" and rest: "valid_utf8 (drop (n - 1) bs)"
    by (simp_all add: valid_utf8.simps(2))
  have n: "1 \<le> n" using utf8_head_pos [OF h] by simp
  have split: "(b # bs) @ ys = take n (b # bs) @ (drop (n - 1) bs @ ys)"
    using n by (cases n) simp_all
  have "valid_utf8 ((b # bs) @ ys) \<longleftrightarrow> valid_utf8 (drop (n - 1) bs @ ys)"
    unfolding split using h ok by (simp only: valid_utf8_char)
  with "2.IH" [OF h [symmetric] refl rest] show ?case by simp
qed

lemma valid_utf8_ascii: "list_all (\<lambda>b. b < 128) bs \<Longrightarrow> valid_utf8 bs"
  by (induction bs) (simp_all add: valid_utf8.simps(2) utf8_head_ascii)

lemma length_utf8_lossy: "length (utf8_lossy bs) \<le> 3 * length bs"
proof (induction bs rule: utf8_lossy.induct)
  case 1
  show ?case by simp
next
  case (2 b bs)
  obtain n ok where h: "utf8_head b bs = (n, ok)" by fastforce
  have IH: "length (utf8_lossy (drop (n - 1) bs)) \<le> 3 * (length bs - (n - 1))"
    using "2.IH" [OF h [symmetric] refl] by simp
  have "n - 1 \<le> length bs" using h by (rule utf8_head_length)
  moreover have "1 \<le> n" using utf8_head_pos [OF h] by simp
  ultimately show ?case
    using h IH by (auto simp: utf8_lossy.simps(2) utf8_replacement_def min_def)
qed

section \<open>Strings\<close>

lemma valid_lossy_string [wf]: "valid_string (lossy_string bs)"
  using valid_utf8_lossy [of bs] by (simp add: valid_string_def lossy_string_def comp_def)

lemma lossy_string_valid: "valid_string s \<Longrightarrow> lossy_string (bytes_of s) = s"
  by (simp add: valid_string_def lossy_string_def utf8_lossy_valid comp_def)

definition ascii :: "string \<Rightarrow> bool" where
  "ascii s \<longleftrightarrow> list_all (\<lambda>c. u8_of_char c < 128) s"

lemma ascii_Nil [simp]: "ascii []"
  by (simp add: ascii_def)

lemma ascii_Cons [simp]: "ascii (c # cs) \<longleftrightarrow> u8_of_char c < 128 \<and> ascii cs"
  by (simp add: ascii_def)

lemma ascii_append [simp]: "ascii (s @ t) \<longleftrightarrow> ascii s \<and> ascii t"
  by (simp add: ascii_def)

lemma valid_ascii: "ascii s \<Longrightarrow> valid_string s"
  unfolding valid_string_def ascii_def by (rule valid_utf8_ascii) (simp add: list.pred_map comp_def)

lemma valid_string_append: "valid_string s \<Longrightarrow> valid_string (s @ t) \<longleftrightarrow> valid_string t"
  by (simp add: valid_string_def valid_utf8_append)

lemma valid_string_concat: "(\<And>s. s \<in> set ss \<Longrightarrow> valid_string s) \<Longrightarrow> valid_string (concat ss)"
  by (induction ss) (auto simp: valid_string_append simp del: map_append, simp add: valid_string_def)

lemma concat_str_chars: "concat (str_chars s) = s"
proof (induction s rule: str_chars.induct)
  case 1
  show ?case by simp
next
  case (2 c cs)
  define n where "n = fst (utf8_head (u8_of_char c) (bytes_of cs))"
  have "1 \<le> n" using utf8_head_pos [of _ _ n "snd (utf8_head (u8_of_char c) (bytes_of cs))"]
    by (simp add: n_def)
  moreover have "concat (str_chars (drop (n - 1) cs)) = drop (n - 1) cs"
    using "2.IH" by (simp add: n_def)
  ultimately show ?case
    by (cases n) (simp_all add: str_chars.simps(2) n_def [symmetric])
qed

lemma str_chars_ascii: "ascii s \<Longrightarrow> str_chars s = map (\<lambda>c. [c]) s"
  by (induction s) (simp_all add: str_chars.simps(2) utf8_head_ascii)

lemma str_chars_nonempty: "c \<in> set (str_chars s) \<Longrightarrow> c \<noteq> []"
proof (induction s rule: str_chars.induct)
  case 1
  then show ?case by simp
next
  case (2 d cs)
  define n where "n = fst (utf8_head (u8_of_char d) (bytes_of cs))"
  have "1 \<le> n" using utf8_head_pos [of _ _ n "snd (utf8_head (u8_of_char d) (bytes_of cs))"]
    by (simp add: n_def)
  then have "take n (d # cs) \<noteq> []" by (cases n) simp_all
  with 2 show ?case by (auto simp: str_chars.simps(2) n_def [symmetric])
qed

end
