(* ===== verification/Wire.thy ===== *)
theory Wire
  imports Utf8
begin

text \<open>
  The wire contract of \<open>shspectr-common\<close>: event types (\<open>event_type.rs\<close>), the \<open>repr(C)\<close>
  structs that cross the ring buffer and the validation of their header (\<open>event.rs\<close>).

  A struct is a record with its fields in order. \<open>*_bytes\<close> is the memory image of a struct
  (what the kernel side submits), \<open>read_*\<close> is \<open>ptr::read_unaligned\<close> of a buffer as that struct.
  The offsets are those of the layout tests in \<open>event.rs\<close>; the theorems say that reading the
  image gives the struct back, that the images have the asserted sizes, and what the header
  validation accepts and rejects.
\<close>

section \<open>Event types\<close>

datatype event_type = Exec | Read | Write | Exit

definition event_type_from_wire :: "u32 \<Rightarrow> event_type option" where
  "event_type_from_wire v =
     (if v = 0 then Some Exec
      else if v = 2 then Some Read
      else if v = 3 then Some Write
      else if v = 4 then Some Exit
      else None)"

fun event_type_as_wire :: "event_type \<Rightarrow> u32" where
  "event_type_as_wire Exec = 0"
| "event_type_as_wire Read = 2"
| "event_type_as_wire Write = 3"
| "event_type_as_wire Exit = 4"

fun event_type_as_str :: "event_type \<Rightarrow> string" where
  "event_type_as_str Exec = ''exec''"
| "event_type_as_str Read = ''read''"
| "event_type_as_str Write = ''write''"
| "event_type_as_str Exit = ''exit''"

datatype parse_event_type_error = ParseEventTypeError

definition event_type_from_str :: "string \<Rightarrow> parse_event_type_error + event_type" where
  "event_type_from_str s =
     (if s = ''exec'' then Inr Exec
      else if s = ''read'' then Inr Read
      else if s = ''write'' then Inr Write
      else if s = ''exit'' then Inr Exit
      else Inl ParseEventTypeError)"

lemma from_wire_as_wire [simp]: "event_type_from_wire (event_type_as_wire t) = Some t"
  by (cases t) (simp_all add: event_type_from_wire_def)

lemma from_wire_Some_iff: "event_type_from_wire v = Some t \<longleftrightarrow> v = event_type_as_wire t"
  by (cases t) (auto simp: event_type_from_wire_def)

lemma from_str_as_str: "event_type_from_str (event_type_as_str t) = Inr t"
  by (cases t) (simp_all add: event_type_from_str_def)

lemma from_str_Inr_iff: "event_type_from_str s = Inr t \<longleftrightarrow> s = event_type_as_str t"
  by (cases t) (auto simp: event_type_from_str_def)

section \<open>Limits\<close>

definition MAX_ARGV_COUNT :: nat where [layout]: "MAX_ARGV_COUNT = 20"
definition MAX_ARG_LEN :: nat where [layout]: "MAX_ARG_LEN = 256"
definition MAX_DATA_LEN :: nat where [layout]: "MAX_DATA_LEN = 4096"
definition MAX_FILENAME_LEN :: nat where [layout]: "MAX_FILENAME_LEN = 256"
definition COMM_LEN :: nat where [layout]: "COMM_LEN = 16"
definition WIRE_VERSION :: u32 where "WIRE_VERSION = 1"

section \<open>Parse errors\<close>

datatype parse_error =
    BufferTooShort (need: nat) (got: nat)
  | InvalidWireVersion u32
  | InvalidEventType u32
  | UnexpectedEventType (expected: string) (got_type: u32)

section \<open>The structs\<close>

record event_header =
  h_event_type :: u32
  h_wire_version :: u32
  h_timestamp_ns :: u64
  h_pid :: u32
  h_ppid :: u32
  h_tgid :: u32
  h_tid :: u32
  h_uid :: u32
  h_gid :: u32
  h_euid :: u32
  h_comm :: "u8 list"
  h_tty_nr :: u32
  h_execution_id :: u64
  h_cgroup_id :: u64

definition decoded_event_type :: "event_header \<Rightarrow> event_type option" where
  "decoded_event_type h =
     (if h_wire_version h \<noteq> WIRE_VERSION then None
      else event_type_from_wire (h_event_type h))"

definition event_header_new ::
  "event_type \<Rightarrow> u64 \<Rightarrow> u32 \<Rightarrow> u32 \<Rightarrow> u32 \<Rightarrow> u32 \<Rightarrow> u32 \<Rightarrow> u32 \<Rightarrow> u32 \<Rightarrow> u8 list \<Rightarrow> u32 \<Rightarrow> u64 \<Rightarrow> u64
   \<Rightarrow> event_header" where
  "event_header_new ty timestamp_ns pid ppid tgid tid uid gid euid comm tty_nr execution_id cgroup_id =
     \<lparr>h_event_type = event_type_as_wire ty, h_wire_version = WIRE_VERSION,
      h_timestamp_ns = timestamp_ns, h_pid = pid, h_ppid = ppid, h_tgid = tgid, h_tid = tid,
      h_uid = uid, h_gid = gid, h_euid = euid, h_comm = comm, h_tty_nr = tty_nr,
      h_execution_id = execution_id, h_cgroup_id = cgroup_id\<rparr>"

record exec_event =
  x_header :: event_header
  x_filename :: "u8 list"
  x_argv :: "u8 list list"
  x_argc :: u32
  x_pad :: u32
  x_retval :: i64

definition exec_event_zeroed :: "event_header \<Rightarrow> exec_event" where
  "exec_event_zeroed h =
     \<lparr>x_header = h, x_filename = replicate MAX_FILENAME_LEN 0,
      x_argv = replicate MAX_ARGV_COUNT (replicate MAX_ARG_LEN 0),
      x_argc = 0, x_pad = 0, x_retval = 0\<rparr>"

record io_event =
  io_header :: event_header
  io_fd :: u32
  io_data_len :: u32
  io_count :: u64
  io_data :: "u8 list"

definition io_event_zeroed :: "event_header \<Rightarrow> io_event" where
  "io_event_zeroed h =
     \<lparr>io_header = h, io_fd = 0, io_data_len = 0, io_count = 0,
      io_data = replicate MAX_DATA_LEN 0\<rparr>"

record exit_event =
  e_header :: event_header
  e_exit_code :: i32
  e_pad :: u32

definition exit_event_new :: "event_header \<Rightarrow> i32 \<Rightarrow> exit_event" where
  "exit_event_new h exit_code = \<lparr>e_header = h, e_exit_code = exit_code, e_pad = 0\<rparr>"

text \<open>Array fields have their declared length.\<close>

definition wf_header :: "event_header \<Rightarrow> bool" where
  "wf_header h \<longleftrightarrow> length (h_comm h) = COMM_LEN"

definition wf_exec_event :: "exec_event \<Rightarrow> bool" where
  "wf_exec_event e \<longleftrightarrow> wf_header (x_header e) \<and> length (x_filename e) = MAX_FILENAME_LEN
     \<and> length (x_argv e) = MAX_ARGV_COUNT \<and> (\<forall>a \<in> set (x_argv e). length a = MAX_ARG_LEN)"

definition wf_io_event :: "io_event \<Rightarrow> bool" where
  "wf_io_event e \<longleftrightarrow> wf_header (io_header e) \<and> length (io_data e) = MAX_DATA_LEN"

definition wf_exit_event :: "exit_event \<Rightarrow> bool" where
  "wf_exit_event e \<longleftrightarrow> wf_header (e_header e)"

section \<open>Memory images\<close>

definition header_bytes :: "event_header \<Rightarrow> u8 list" where
  "header_bytes h =
     u32_bytes (h_event_type h) @ u32_bytes (h_wire_version h) @ u64_bytes (h_timestamp_ns h) @
     u32_bytes (h_pid h) @ u32_bytes (h_ppid h) @ u32_bytes (h_tgid h) @ u32_bytes (h_tid h) @
     u32_bytes (h_uid h) @ u32_bytes (h_gid h) @ u32_bytes (h_euid h) @ h_comm h @
     u32_bytes (h_tty_nr h) @ u64_bytes (h_execution_id h) @ u64_bytes (h_cgroup_id h)"

definition exec_event_bytes :: "exec_event \<Rightarrow> u8 list" where
  "exec_event_bytes e =
     header_bytes (x_header e) @ x_filename e @ concat (x_argv e) @
     u32_bytes (x_argc e) @ u32_bytes (x_pad e) @ u64_bytes (x_retval e)"

definition io_event_bytes :: "io_event \<Rightarrow> u8 list" where
  "io_event_bytes e =
     header_bytes (io_header e) @ u32_bytes (io_fd e) @ u32_bytes (io_data_len e) @
     u64_bytes (io_count e) @ io_data e"

definition exit_event_bytes :: "exit_event \<Rightarrow> u8 list" where
  "exit_event_bytes e =
     header_bytes (e_header e) @ u32_bytes (e_exit_code e) @ u32_bytes (e_pad e)"

text \<open>The sizes that the source asserts at compile time.\<close>

definition header_size :: nat where [layout]: "header_size = 80"
definition exec_event_size :: nat where
  [layout]: "exec_event_size = 80 + MAX_FILENAME_LEN + MAX_ARGV_COUNT * MAX_ARG_LEN + 16"
definition io_event_size :: nat where [layout]: "io_event_size = 80 + 16 + MAX_DATA_LEN"
definition exit_event_size :: nat where [layout]: "exit_event_size = 88"

section \<open>Reading a buffer as a struct\<close>

definition u32_at :: "nat \<Rightarrow> u8 list \<Rightarrow> u32" where
  "u32_at off bs = u32_of_bytes (field off 4 bs)"

definition u64_at :: "nat \<Rightarrow> u8 list \<Rightarrow> u64" where
  "u64_at off bs = u64_of_bytes (field off 8 bs)"

definition read_header :: "u8 list \<Rightarrow> event_header" where
  "read_header bs =
     \<lparr>h_event_type = u32_at 0 bs, h_wire_version = u32_at 4 bs, h_timestamp_ns = u64_at 8 bs,
      h_pid = u32_at 16 bs, h_ppid = u32_at 20 bs, h_tgid = u32_at 24 bs, h_tid = u32_at 28 bs,
      h_uid = u32_at 32 bs, h_gid = u32_at 36 bs, h_euid = u32_at 40 bs,
      h_comm = field 44 COMM_LEN bs, h_tty_nr = u32_at 60 bs,
      h_execution_id = u64_at 64 bs, h_cgroup_id = u64_at 72 bs\<rparr>"

definition read_exec_event :: "u8 list \<Rightarrow> exec_event" where
  "read_exec_event bs =
     \<lparr>x_header = read_header bs,
      x_filename = field 80 MAX_FILENAME_LEN bs,
      x_argv = map (\<lambda>i. field (80 + MAX_FILENAME_LEN + i * MAX_ARG_LEN) MAX_ARG_LEN bs)
                 [0..<MAX_ARGV_COUNT],
      x_argc = u32_at (80 + MAX_FILENAME_LEN + MAX_ARGV_COUNT * MAX_ARG_LEN) bs,
      x_pad = u32_at (80 + MAX_FILENAME_LEN + MAX_ARGV_COUNT * MAX_ARG_LEN + 4) bs,
      x_retval = u64_at (80 + MAX_FILENAME_LEN + MAX_ARGV_COUNT * MAX_ARG_LEN + 8) bs\<rparr>"

definition read_io_event :: "u8 list \<Rightarrow> io_event" where
  "read_io_event bs =
     \<lparr>io_header = read_header bs, io_fd = u32_at 80 bs, io_data_len = u32_at 84 bs,
      io_count = u64_at 88 bs, io_data = field 96 MAX_DATA_LEN bs\<rparr>"

definition read_exit_event :: "u8 list \<Rightarrow> exit_event" where
  "read_exit_event bs =
     \<lparr>e_header = read_header bs, e_exit_code = u32_at 80 bs, e_pad = u32_at 84 bs\<rparr>"

section \<open>Header validation\<close>

definition event_header_try_from :: "u8 list \<Rightarrow> parse_error + event_header" where
  "event_header_try_from data =
     (let need = header_size
      in if length data < need then Inl (BufferTooShort need (length data))
         else let header = read_header data
              in if h_wire_version header \<noteq> WIRE_VERSION
                 then Inl (InvalidWireVersion (h_wire_version header))
                 else if event_type_from_wire (h_event_type header) = None
                 then Inl (InvalidEventType (h_event_type header))
                 else Inr header)"

section \<open>Layout\<close>

lemma length_header_bytes [simp]: "wf_header h \<Longrightarrow> length (header_bytes h) = 80"
  by (simp add: header_bytes_def wf_header_def layout)

lemma length_io_event_bytes: "wf_io_event e \<Longrightarrow> length (io_event_bytes e) = io_event_size"
  by (simp add: io_event_bytes_def wf_io_event_def layout)

lemma length_exit_event_bytes: "wf_exit_event e \<Longrightarrow> length (exit_event_bytes e) = exit_event_size"
  by (simp add: exit_event_bytes_def wf_exit_event_def layout)

lemma length_concat_uniform:
  "(\<forall>a \<in> set xss. length a = n) \<Longrightarrow> length (concat xss) = length xss * n"
  by (induction xss) auto

lemma length_concat_argv: "wf_exec_event e \<Longrightarrow> length (concat (x_argv e)) = 5120"
  by (simp add: wf_exec_event_def length_concat_uniform [of _ 256] layout)

lemma length_exec_event_bytes: "wf_exec_event e \<Longrightarrow> length (exec_event_bytes e) = exec_event_size"
  by (simp only: exec_event_bytes_def length_append length_concat_argv)
    (simp add: wf_exec_event_def layout)

lemma field_concat_uniform:
  "(\<forall>a \<in> set xss. length a = n) \<Longrightarrow> i < length xss \<Longrightarrow> field (i * n) n (concat xss) = xss ! i"
proof (induction xss arbitrary: i)
  case Nil
  then show ?case by simp
next
  case (Cons x xss)
  show ?case
  proof (cases i)
    case 0
    with Cons.prems show ?thesis by (simp add: field_def)
  next
    case (Suc j)
    with Cons show ?thesis by (simp add: field_append_skip)
  qed
qed

lemma u32_at_append:
  "length xs \<le> off \<Longrightarrow> u32_at off (xs @ ys) = u32_at (off - length xs) ys"
  "u32_at 0 (u32_bytes w @ ys) = w" "u32_at 0 (u32_bytes w) = w"
  by (simp_all add: u32_at_def field_append_skip field_append_in field_all)

lemma u64_at_append:
  "length xs \<le> off \<Longrightarrow> u64_at off (xs @ ys) = u64_at (off - length xs) ys"
  "u64_at 0 (u64_bytes w @ ys) = w" "u64_at 0 (u64_bytes w) = w"
  by (simp_all add: u64_at_def field_append_skip field_append_in field_all)

lemma read_header_bytes [simp]: "wf_header h \<Longrightarrow> read_header (header_bytes h @ rest) = h"
  by (simp add: read_header_def header_bytes_def u32_at_append u64_at_append wf_header_def
      field_append_skip field_append_in field_all layout)

lemma read_io_event_bytes: "wf_io_event e \<Longrightarrow> read_io_event (io_event_bytes e @ rest) = e"
  by (simp add: read_io_event_def io_event_bytes_def wf_io_event_def u32_at_append u64_at_append
      field_append_skip field_append_in field_all layout)

lemma read_exit_event_bytes: "wf_exit_event e \<Longrightarrow> read_exit_event (exit_event_bytes e @ rest) = e"
  by (simp add: read_exit_event_def exit_event_bytes_def wf_exit_event_def u32_at_append)

lemma read_argv_bytes:
  assumes "wf_exec_event e"
  shows "map (\<lambda>i. field (i * MAX_ARG_LEN) MAX_ARG_LEN (concat (x_argv e) @ rest)) [0..<MAX_ARGV_COUNT]
    = x_argv e"
proof (rule nth_equalityI)
  show "length (map (\<lambda>i. field (i * MAX_ARG_LEN) MAX_ARG_LEN (concat (x_argv e) @ rest))
      [0..<MAX_ARGV_COUNT]) = length (x_argv e)"
    using assms by (simp add: wf_exec_event_def)
next
  fix i
  assume "i < length (map (\<lambda>i. field (i * MAX_ARG_LEN) MAX_ARG_LEN (concat (x_argv e) @ rest))
      [0..<MAX_ARGV_COUNT])"
  then have i: "i < length (x_argv e)" and len: "\<forall>a \<in> set (x_argv e). length a = MAX_ARG_LEN"
    using assms by (simp_all add: wf_exec_event_def)
  have "i * MAX_ARG_LEN + MAX_ARG_LEN \<le> length (concat (x_argv e))"
    using i mult_le_mono1 [of "Suc i" "length (x_argv e)" MAX_ARG_LEN]
    by (simp add: length_concat_uniform [OF len])
  then show "map (\<lambda>i. field (i * MAX_ARG_LEN) MAX_ARG_LEN (concat (x_argv e) @ rest))
      [0..<MAX_ARGV_COUNT] ! i = x_argv e ! i"
    using assms i len by (simp add: wf_exec_event_def field_append_in field_concat_uniform)
qed

lemma read_exec_event_bytes:
  assumes wf: "wf_exec_event e"
  shows "read_exec_event (exec_event_bytes e @ rest) = e"
proof -
  have h: "wf_header (x_header e)" and f: "length (x_filename e) = 256"
    and c: "length (concat (x_argv e)) = 5120"
    using wf length_concat_argv [OF wf] by (simp_all add: wf_exec_event_def layout)
  show ?thesis
    using h f c read_argv_bytes [OF wf, of "u32_bytes (x_argc e) @ u32_bytes (x_pad e) @
        u64_bytes (x_retval e) @ rest"]
    by (simp add: read_exec_event_def exec_event_bytes_def u32_at_append u64_at_append
        field_append_skip field_append_in field_all layout)
qed

lemma wf_header_new [wf]: "length comm = COMM_LEN \<Longrightarrow>
  wf_header (event_header_new ty ts pid ppid tgid tid uid gid euid comm tty eid cg)"
  by (simp add: wf_header_def event_header_new_def)

lemma decoded_event_type_new [simp]:
  "decoded_event_type (event_header_new ty ts pid ppid tgid tid uid gid euid comm tty eid cg) = Some ty"
  by (simp add: decoded_event_type_def event_header_new_def)

lemma wf_zeroed [wf]:
  "wf_header h \<Longrightarrow> wf_exec_event (exec_event_zeroed h)"
  "wf_header h \<Longrightarrow> wf_io_event (io_event_zeroed h)"
  "wf_header h \<Longrightarrow> wf_exit_event (exit_event_new h c)"
  by (simp_all add: wf_exec_event_def exec_event_zeroed_def wf_io_event_def io_event_zeroed_def
      wf_exit_event_def exit_event_new_def)

text \<open>Reading any buffer that is long enough gives arrays of the declared lengths.\<close>

lemma wf_read_header [wf]: "header_size \<le> length bs \<Longrightarrow> wf_header (read_header bs)"
  by (simp add: wf_header_def read_header_def layout)

section \<open>What the header validation accepts\<close>

lemma event_header_try_from_Inr_iff:
  "event_header_try_from data = Inr h \<longleftrightarrow>
     header_size \<le> length data \<and> h = read_header data \<and> decoded_event_type h \<noteq> None"
  by (auto simp: event_header_try_from_def decoded_event_type_def Let_def)

lemma event_header_try_from_bytes:
  "wf_header h \<Longrightarrow> decoded_event_type h \<noteq> None \<Longrightarrow>
    event_header_try_from (header_bytes h @ rest) = Inr h"
  by (simp add: event_header_try_from_Inr_iff layout)

end
