(* ===== verification/EventParse.thy ===== *)
theory EventParse
  imports Wire
begin

text \<open>
  The userspace event parser, \<open>shspectr/src/event.rs\<close>: the three \<open>TryFrom<&[u8]>\<close>
  implementations and \<open>cstr_from_bytes\<close>. The theorems give the parser's result on the image of
  every well-formed struct (the round trip from the kernel side), on every short or mismatched
  buffer (the error it reports), and the bounds of what it returns.
\<close>

section \<open>C strings\<close>

definition cstr_from_bytes :: "u8 list \<Rightarrow> string" where
  "cstr_from_bytes bytes = lossy_string (takeWhile (\<lambda>b. b \<noteq> 0) bytes)"

section \<open>Parsed events\<close>

record parsed_exec_event =
  px_pid :: u32
  px_ppid :: u32
  px_uid :: u32
  px_gid :: u32
  px_euid :: u32
  px_comm :: string
  px_tty_nr :: u32
  px_cgroup_id :: u64
  px_execution_id :: u64
  px_filename :: string
  px_argv :: "string list"
  px_retval :: i64

record parsed_exit_event =
  pe_pid :: u32
  pe_ppid :: u32
  pe_uid :: u32
  pe_gid :: u32
  pe_euid :: u32
  pe_comm :: string
  pe_tty_nr :: u32
  pe_cgroup_id :: u64
  pe_execution_id :: u64
  pe_exit_code :: i32

record parsed_io_event =
  pio_pid :: u32
  pio_ppid :: u32
  pio_uid :: u32
  pio_gid :: u32
  pio_euid :: u32
  pio_comm :: string
  pio_tty_nr :: u32
  pio_cgroup_id :: u64
  pio_execution_id :: u64
  pio_fd :: u32
  pio_data :: "u8 list"
  pio_count :: u64

text \<open>
  What each implementation builds from the struct it has read, after the length check.
\<close>

definition exec_of_struct :: "exec_event \<Rightarrow> parsed_exec_event" where
  "exec_of_struct event =
     (let header = x_header event; arg_count = unat (x_argc event)
      in \<lparr>px_pid = h_pid header, px_ppid = h_ppid header, px_uid = h_uid header,
          px_gid = h_gid header, px_euid = h_euid header, px_comm = cstr_from_bytes (h_comm header),
          px_tty_nr = h_tty_nr header, px_cgroup_id = h_cgroup_id header,
          px_execution_id = h_execution_id header,
          px_filename = cstr_from_bytes (x_filename event),
          px_argv = map (\<lambda>i. cstr_from_bytes (x_argv event ! i)) [0..<min arg_count MAX_ARGV_COUNT],
          px_retval = x_retval event\<rparr>)"

definition exit_of_struct :: "exit_event \<Rightarrow> parsed_exit_event" where
  "exit_of_struct event =
     (let header = e_header event
      in \<lparr>pe_pid = h_pid header, pe_ppid = h_ppid header, pe_uid = h_uid header,
          pe_gid = h_gid header, pe_euid = h_euid header, pe_comm = cstr_from_bytes (h_comm header),
          pe_tty_nr = h_tty_nr header, pe_cgroup_id = h_cgroup_id header,
          pe_execution_id = h_execution_id header, pe_exit_code = e_exit_code event\<rparr>)"

definition io_of_struct :: "io_event \<Rightarrow> parsed_io_event" where
  "io_of_struct event =
     (let header = io_header event; data_len = min (unat (io_data_len event)) MAX_DATA_LEN
      in \<lparr>pio_pid = h_pid header, pio_ppid = h_ppid header, pio_uid = h_uid header,
          pio_gid = h_gid header, pio_euid = h_euid header,
          pio_comm = cstr_from_bytes (h_comm header),
          pio_tty_nr = h_tty_nr header, pio_cgroup_id = h_cgroup_id header,
          pio_execution_id = h_execution_id header, pio_fd = io_fd event,
          pio_data = take data_len (io_data event), pio_count = io_count event\<rparr>)"

section \<open>The parsers\<close>

text \<open>
  The second check, on \<open>decoded_event_type\<close>, repeats what \<open>EventHeader::try_from\<close> has
  checked; it is kept as the code has it.
\<close>

definition parsed_exec_try_from :: "u8 list \<Rightarrow> parse_error + parsed_exec_event" where
  "parsed_exec_try_from data =
     bind_result (event_header_try_from data) (\<lambda>header.
     bind_result (ok_or (InvalidEventType (h_event_type header)) (decoded_event_type header))
       (\<lambda>event_type.
       if event_type \<noteq> Exec then Inl (UnexpectedEventType ''Exec'' (h_event_type header))
       else let need = exec_event_size
            in if length data < need then Inl (BufferTooShort need (length data))
               else Inr (exec_of_struct (read_exec_event data))))"

definition parsed_exit_try_from :: "u8 list \<Rightarrow> parse_error + parsed_exit_event" where
  "parsed_exit_try_from data =
     bind_result (event_header_try_from data) (\<lambda>header.
     bind_result (ok_or (InvalidEventType (h_event_type header)) (decoded_event_type header))
       (\<lambda>event_type.
       if event_type \<noteq> Exit then Inl (UnexpectedEventType ''Exit'' (h_event_type header))
       else let need = exit_event_size
            in if length data < need then Inl (BufferTooShort need (length data))
               else Inr (exit_of_struct (read_exit_event data))))"

definition parsed_io_try_from :: "u8 list \<Rightarrow> parse_error + parsed_io_event" where
  "parsed_io_try_from data =
     bind_result (event_header_try_from data) (\<lambda>header.
     bind_result (ok_or (InvalidEventType (h_event_type header)) (decoded_event_type header))
       (\<lambda>event_type.
       case event_type of
         Exec \<Rightarrow> Inl (UnexpectedEventType ''Read or Write'' (h_event_type header))
       | Exit \<Rightarrow> Inl (UnexpectedEventType ''Read or Write'' (h_event_type header))
       | _ \<Rightarrow>
         (let need = io_event_size
          in if length data < need then Inl (BufferTooShort need (length data))
             else Inr (io_of_struct (read_io_event data)))))"

section \<open>C strings: facts\<close>

lemma cstr_from_bytes_stop:
  "list_all (\<lambda>b. b \<noteq> 0) s \<Longrightarrow> cstr_from_bytes (s @ 0 # rest) = lossy_string s"
  by (simp add: cstr_from_bytes_def takeWhile_append_stop)

lemma cstr_from_bytes_no_null: "list_all (\<lambda>b. b \<noteq> 0) s \<Longrightarrow> cstr_from_bytes s = lossy_string s"
  by (simp add: cstr_from_bytes_def list_all_iff takeWhile_eq_all_conv [THEN iffD2])

lemma valid_cstr [wf]: "valid_string (cstr_from_bytes bs)"
  by (simp add: cstr_from_bytes_def wf)

text \<open>
  A valid string without null bytes that fits in a fixed buffer comes back from the
  zero-padded buffer unchanged; a buffer it fills is not required to end in a null.
\<close>

definition null_padded :: "nat \<Rightarrow> string \<Rightarrow> u8 list" where
  "null_padded n s = bytes_of s @ replicate (n - length s) 0"

lemma length_null_padded [simp]: "length s \<le> n \<Longrightarrow> length (null_padded n s) = n"
  by (simp add: null_padded_def)

definition null_free :: "string \<Rightarrow> bool" where
  "null_free s \<longleftrightarrow> list_all (\<lambda>c. u8_of_char c \<noteq> 0) s"

lemma cstr_null_padded:
  assumes "valid_string s" "null_free s" "length s \<le> n"
  shows "cstr_from_bytes (null_padded n s) = s"
proof -
  have nz: "list_all (\<lambda>b. b \<noteq> 0) (bytes_of s)"
    using assms(2) by (simp add: null_free_def list.pred_map comp_def)
  show ?thesis
  proof (cases "n - length s")
    case 0
    then show ?thesis
      using nz assms(1) by (simp add: null_padded_def cstr_from_bytes_no_null lossy_string_valid)
  next
    case (Suc k)
    then show ?thesis
      using nz assms(1) by (simp add: null_padded_def cstr_from_bytes_stop lossy_string_valid)
  qed
qed

section \<open>Round trips\<close>

lemma header_of_image:
  "wf_header h \<Longrightarrow> decoded_event_type h = Some ty \<Longrightarrow>
    event_header_try_from (header_bytes h @ rest) = Inr h"
  by (rule event_header_try_from_bytes) simp_all

lemma exec_image_header:
  "wf_exec_event e \<Longrightarrow> decoded_event_type (x_header e) = Some ty \<Longrightarrow>
    event_header_try_from (exec_event_bytes e) = Inr (x_header e)"
  by (simp add: exec_event_bytes_def header_of_image wf_exec_event_def)

lemma exit_image_header:
  "wf_exit_event e \<Longrightarrow> decoded_event_type (e_header e) = Some ty \<Longrightarrow>
    event_header_try_from (exit_event_bytes e) = Inr (e_header e)"
  by (simp add: exit_event_bytes_def header_of_image wf_exit_event_def)

lemma io_image_header:
  "wf_io_event e \<Longrightarrow> decoded_event_type (io_header e) = Some ty \<Longrightarrow>
    event_header_try_from (io_event_bytes e) = Inr (io_header e)"
  by (simp add: io_event_bytes_def header_of_image wf_io_event_def)

lemma parse_exec_image:
  "wf_exec_event e \<Longrightarrow> decoded_event_type (x_header e) = Some Exec \<Longrightarrow>
    parsed_exec_try_from (exec_event_bytes e) = Inr (exec_of_struct e)"
  using read_exec_event_bytes [of e "[]"]
  by (simp add: parsed_exec_try_from_def exec_image_header length_exec_event_bytes)

lemma parse_exit_image:
  "wf_exit_event e \<Longrightarrow> decoded_event_type (e_header e) = Some Exit \<Longrightarrow>
    parsed_exit_try_from (exit_event_bytes e) = Inr (exit_of_struct e)"
  using read_exit_event_bytes [of e "[]"]
  by (simp add: parsed_exit_try_from_def exit_image_header length_exit_event_bytes)

lemma parse_io_image:
  "wf_io_event e \<Longrightarrow> decoded_event_type (io_header e) = Some ty \<Longrightarrow> ty = Read \<or> ty = Write \<Longrightarrow>
    parsed_io_try_from (io_event_bytes e) = Inr (io_of_struct e)"
  using read_io_event_bytes [of e "[]"]
  by (auto simp: parsed_io_try_from_def io_image_header length_io_event_bytes)

section \<open>What the parsers accept\<close>

lemma parsed_exec_Inr_iff:
  "parsed_exec_try_from data = Inr p \<longleftrightarrow>
     exec_event_size \<le> length data \<and> decoded_event_type (read_header data) = Some Exec
     \<and> p = exec_of_struct (read_exec_event data)"
  by (auto simp: parsed_exec_try_from_def bind_result_Inr_iff event_header_try_from_Inr_iff
      ok_or_def Let_def layout split: option.splits if_splits)

lemma parsed_exit_Inr_iff:
  "parsed_exit_try_from data = Inr p \<longleftrightarrow>
     exit_event_size \<le> length data \<and> decoded_event_type (read_header data) = Some Exit
     \<and> p = exit_of_struct (read_exit_event data)"
  by (auto simp: parsed_exit_try_from_def bind_result_Inr_iff event_header_try_from_Inr_iff
      ok_or_def Let_def layout split: option.splits if_splits)

lemma parsed_io_Inr_iff:
  "parsed_io_try_from data = Inr p \<longleftrightarrow>
     io_event_size \<le> length data
     \<and> (decoded_event_type (read_header data) = Some Read
        \<or> decoded_event_type (read_header data) = Some Write)
     \<and> p = io_of_struct (read_io_event data)"
  by (auto simp: parsed_io_try_from_def bind_result_Inr_iff event_header_try_from_Inr_iff
      ok_or_def Let_def layout split: option.splits if_splits event_type.splits)

lemma parsed_io_data_bound:
  "parsed_io_try_from data = Inr p \<Longrightarrow> length (pio_data p) \<le> MAX_DATA_LEN"
  by (auto simp: parsed_io_Inr_iff io_of_struct_def Let_def)

lemma parsed_exec_argv_bound:
  "parsed_exec_try_from data = Inr p \<Longrightarrow> length (px_argv p) \<le> MAX_ARGV_COUNT"
  by (auto simp: parsed_exec_Inr_iff exec_of_struct_def Let_def)

section \<open>Properties\<close>

text \<open>
  The fields a test or a kernel writes into an exec event: the file name and the arguments are
  null-padded into their slots, and unused slots are zero.
\<close>

definition argv_slots :: "string list \<Rightarrow> u8 list list" where
  "argv_slots args = map (null_padded MAX_ARG_LEN) args @
     replicate (MAX_ARGV_COUNT - length args) (replicate MAX_ARG_LEN 0)"

definition fits :: "nat \<Rightarrow> string \<Rightarrow> bool" where
  "fits n s \<longleftrightarrow> valid_string s \<and> null_free s \<and> length s \<le> n"

lemma cstr_fits: "fits n s \<Longrightarrow> cstr_from_bytes (null_padded n s) = s"
  by (simp add: fits_def cstr_null_padded)

lemma argv_of_slots:
  assumes "length args \<le> MAX_ARGV_COUNT" "\<forall>a \<in> set args. fits MAX_ARG_LEN a"
  shows "map (\<lambda>i. cstr_from_bytes (argv_slots args ! i)) [0..<length args] = args"
  using assms by (intro nth_equalityI) (simp_all add: argv_slots_def nth_append cstr_fits)

definition exec_image :: "event_header \<Rightarrow> string \<Rightarrow> string list \<Rightarrow> i64 \<Rightarrow> exec_event" where
  "exec_image h filename args retval =
     (exec_event_zeroed h)\<lparr>x_filename := null_padded MAX_FILENAME_LEN filename,
        x_argv := argv_slots args, x_argc := of_nat (length args), x_retval := retval\<rparr>"

lemma wf_exec_image [wf]:
  assumes "wf_header h" "fits MAX_FILENAME_LEN filename" "length args \<le> MAX_ARGV_COUNT"
    "\<forall>a \<in> set args. fits MAX_ARG_LEN a"
  shows "wf_exec_event (exec_image h filename args retval)"
  using assms
  by (auto simp: wf_exec_event_def exec_image_def exec_event_zeroed_def argv_slots_def fits_def)

lemma parse_exec_fields:
  assumes "wf_header h" "decoded_event_type h = Some Exec"
    and "fits MAX_FILENAME_LEN filename" "length args \<le> MAX_ARGV_COUNT"
    and "\<forall>a \<in> set args. fits MAX_ARG_LEN a"
  shows "parsed_exec_try_from (exec_event_bytes (exec_image h filename args retval)) = Inr
    \<lparr>px_pid = h_pid h, px_ppid = h_ppid h, px_uid = h_uid h, px_gid = h_gid h, px_euid = h_euid h,
     px_comm = cstr_from_bytes (h_comm h), px_tty_nr = h_tty_nr h, px_cgroup_id = h_cgroup_id h,
     px_execution_id = h_execution_id h, px_filename = filename, px_argv = args,
     px_retval = retval\<rparr>"
proof -
  have argc: "unat (of_nat (length args) :: u32) = length args"
    using assms(4) by (simp add: unat_of_nat take_bit_nat_def layout)
  have header: "x_header (exec_image h filename args retval) = h"
    by (simp add: exec_image_def exec_event_zeroed_def)
  have "parsed_exec_try_from (exec_event_bytes (exec_image h filename args retval)) =
      Inr (exec_of_struct (exec_image h filename args retval))"
    using assms by (intro parse_exec_image) (simp_all add: wf header)
  then show ?thesis
    using assms argc argv_of_slots [OF assms(4,5)]
    by (simp add: exec_of_struct_def header Let_def)
      (simp add: exec_image_def exec_event_zeroed_def cstr_fits min_def)
qed

text \<open>
  C21: For every header whose version and type are those of an exec event, every file name and
  every list of at most 20 arguments that are valid UTF-8 without null bytes and fit their slots,
  the exec parser reads back from the struct's memory image exactly the file name, the arguments,
  the return value and the header's identifiers.
\<close>

theorem exec_wire_roundtrip:
  assumes "wf_header h" "decoded_event_type h = Some Exec"
    and "fits MAX_FILENAME_LEN filename" "length args \<le> MAX_ARGV_COUNT"
    and "\<forall>a \<in> set args. fits MAX_ARG_LEN a"
  shows "parsed_exec_try_from (exec_event_bytes (exec_image h filename args retval)) = Inr
    \<lparr>px_pid = h_pid h, px_ppid = h_ppid h, px_uid = h_uid h, px_gid = h_gid h, px_euid = h_euid h,
     px_comm = cstr_from_bytes (h_comm h), px_tty_nr = h_tty_nr h, px_cgroup_id = h_cgroup_id h,
     px_execution_id = h_execution_id h, px_filename = filename, px_argv = args,
     px_retval = retval\<rparr>"
  using assms by (rule parse_exec_fields)

theorem exec_wire_roundtrip_witness:
  "let h = event_header_new Exec 12345 100 1 100 100 1000 1000 1000
             (null_padded COMM_LEN ''test'') 7 777 42
   in \<exists>p. parsed_exec_try_from (exec_event_bytes (exec_image h ''/bin/ls'' [''ls'', ''-l''] 0)) = Inr p
        \<and> px_filename p = ''/bin/ls'' \<and> px_argv p = [''ls'', ''-l''] \<and> px_pid p = 100"
proof -
  define h where "h = event_header_new Exec 12345 100 1 100 100 1000 1000 1000
             (null_padded COMM_LEN ''test'') 7 777 42"
  have ascii: "ascii ''/bin/ls''" "ascii ''ls''" "ascii ''-l''"
    by (simp_all add: u8_of_char_def)
  have fits: "fits MAX_FILENAME_LEN ''/bin/ls''" "\<forall>a \<in> set [''ls'', ''-l'']. fits MAX_ARG_LEN a"
    using ascii by (simp_all add: fits_def valid_ascii null_free_def u8_of_char_def layout)
  have "wf_header h" "decoded_event_type h = Some Exec" "h_pid h = 100"
    by (simp_all add: h_def wf layout) (simp add: event_header_new_def)
  then show ?thesis
    unfolding Let_def h_def [symmetric]
    using exec_wire_roundtrip [of h "''/bin/ls''" "[''ls'', ''-l'']" 0] fits
    by (simp add: layout)
qed

text \<open>
  C34: A buffer is accepted by at most one of the three parsers, and a buffer that is as long as
  the largest struct is accepted by exactly the parser of its header's event type: exec, exit, or
  I/O for reads and writes. A buffer whose header does not validate is rejected by all three with
  the header's own error.
\<close>

theorem parsers_dispatch_on_type:
  "(case event_header_try_from data of
      Inl err \<Rightarrow> parsed_exec_try_from data = Inl err \<and> parsed_exit_try_from data = Inl err
              \<and> parsed_io_try_from data = Inl err
    | Inr h \<Rightarrow> (\<exists>ty. decoded_event_type h = Some ty
        \<and> (is_ok (parsed_exec_try_from data) = (ty = Exec \<and> exec_event_size \<le> length data))
        \<and> (is_ok (parsed_exit_try_from data) = (ty = Exit \<and> exit_event_size \<le> length data))
        \<and> (is_ok (parsed_io_try_from data) = (ty \<in> {Read, Write} \<and> io_event_size \<le> length data))))"
proof (cases "event_header_try_from data")
  case (Inl err)
  then show ?thesis
    by (simp add: parsed_exec_try_from_def parsed_exit_try_from_def parsed_io_try_from_def)
next
  case (Inr h)
  then obtain ty where "decoded_event_type h = Some ty"
    by (auto simp: event_header_try_from_Inr_iff)
  with Inr show ?thesis
    by (cases ty)
      (auto simp: parsed_exec_try_from_def parsed_exit_try_from_def parsed_io_try_from_def Let_def)
qed

end
