(* ===== verification/Ebpf.thy ===== *)
theory Ebpf
  imports Wire
begin

text \<open>
  The kernel side, \<open>shspectr-ebpf/src/main.rs\<close>: the seven tracepoint programs over the state
  the BPF maps hold.

  \<open>ebpf_state\<close> has one field per BPF map. A hash map is a partial function; the ring buffer is
  the list of the entries submitted so far, oldest first. What the kernel answers to one run of a
  program (the current task, the tracepoint arguments, the contents of memory, whether a ring
  buffer reservation or a map insertion succeeds) is a record \<open>kenv\<close>, an argument of every
  program: the helpers are not code of the repository. Each program reads the clock once at most,
  so one \<open>k_ktime\<close> is enough. \<open>wf_kenv\<close> states what the code relies on: a memory read returns as
  many bytes as were asked for, and a string read stays inside its buffer.

  A program returns the new state and its \<open>Result<(), i64>\<close>.
\<close>

section \<open>State and environment\<close>

datatype ring_event = RExec exec_event | RIo io_event | RExit exit_event

fun ring_bytes :: "ring_event \<Rightarrow> u8 list" where
  "ring_bytes (RExec e) = exec_event_bytes e"
| "ring_bytes (RIo e) = io_event_bytes e"
| "ring_bytes (RExit e) = exit_event_bytes e"

record pending_read =
  pr_fd :: u32
  pr_buf_ptr :: u64
  pr_count :: u64

record pending_write =
  pw_fd :: u32
  pw_buf_ptr :: u64
  pw_count :: u64

record ebpf_state =
  s_events :: "ring_event list"
  s_pending_exec :: "u64 \<rightharpoonup> exec_event"
  s_exec_scratch :: "nat \<Rightarrow> exec_event"
  s_offsets :: "u64 list"
  s_pending_read :: "u64 \<rightharpoonup> pending_read"
  s_pending_write :: "u64 \<rightharpoonup> pending_write"
  s_exec_pids :: "u32 \<rightharpoonup> u64"
  s_self_tgid :: "u32 option"

record kenv =
  k_cpu :: nat
  k_pid_tgid :: u64
  k_uid_gid :: u64
  k_task :: u64
  k_ktime :: u64
  k_cgroup_id :: u64
  k_comm :: "u8 list option"
  k_arg :: "nat \<Rightarrow> u64 option"
  k_read_u64 :: "u64 \<Rightarrow> u64 option"
  k_read_u32 :: "u64 \<Rightarrow> u32 option"
  k_user_ptr :: "u64 \<Rightarrow> u64 option"
  k_user_str :: "u64 \<Rightarrow> u8 list \<Rightarrow> u8 list"
  k_user_buf :: "u64 \<Rightarrow> nat \<Rightarrow> u8 list option"
  k_scratch_ok :: bool
  k_reserve_ok :: bool
  k_insert_ok :: bool

definition wf_kenv :: "kenv \<Rightarrow> bool" where
  "wf_kenv k \<longleftrightarrow>
     (\<forall>c. k_comm k = Some c \<longrightarrow> length c = COMM_LEN)
     \<and> (\<forall>p buf. length (k_user_str k p buf) = length buf)
     \<and> (\<forall>p n bs. k_user_buf k p n = Some bs \<longrightarrow> length bs = n)"

type_synonym ebpf_result = "ebpf_state \<times> (i64 + unit)"

definition map_insert :: "kenv \<Rightarrow> 'k \<Rightarrow> 'v \<Rightarrow> ('k \<rightharpoonup> 'v) \<Rightarrow> ('k \<rightharpoonup> 'v)" where
  "map_insert k key v m = (if k_insert_ok k then m(key \<mapsto> v) else m)"

definition map_remove :: "'k \<Rightarrow> ('k \<rightharpoonup> 'v) \<Rightarrow> ('k \<rightharpoonup> 'v)" where
  "map_remove key m = m(key := None)"

definition tgid_of :: "u64 \<Rightarrow> u32" where
  "tgid_of pid_tgid = ucast (drop_bit 32 pid_tgid)"

section \<open>Reading the current task\<close>

definition check_not_self :: "kenv \<Rightarrow> ebpf_state \<Rightarrow> u64 option" where
  "check_not_self k s =
     (let pid_tgid = k_pid_tgid k
      in if s_self_tgid s = Some (tgid_of pid_tgid) then None else Some pid_tgid)"

definition get_offset :: "ebpf_state \<Rightarrow> nat \<Rightarrow> u64" where
  "get_offset s idx = (if idx < length (s_offsets s) then s_offsets s ! idx else 0)"

definition TASK_REAL_PARENT :: nat where "TASK_REAL_PARENT = 0"
definition TASK_TGID :: nat where "TASK_TGID = 1"
definition TASK_CRED :: nat where "TASK_CRED = 2"
definition CRED_EUID :: nat where "CRED_EUID = 3"
definition TASK_SIGNAL :: nat where "TASK_SIGNAL = 4"
definition SIGNAL_TTY :: nat where "SIGNAL_TTY = 5"
definition TTY_INDEX :: nat where "TTY_INDEX = 6"
definition TASK_FILES :: nat where "TASK_FILES = 7"
definition FILES_FDT :: nat where "FILES_FDT = 8"
definition FDT_FD :: nat where "FDT_FD = 9"
definition FILE_INODE :: nat where "FILE_INODE = 10"
definition INODE_RDEV :: nat where "INODE_RDEV = 11"
definition OFFSET_COUNT :: nat where "OFFSET_COUNT = 12"

definition read_ptr :: "kenv \<Rightarrow> u64 \<Rightarrow> u64 \<Rightarrow> u64 option" where
  "read_ptr k base off = k_read_u64 k (base + off)"

definition read_u32 :: "kenv \<Rightarrow> u64 \<Rightarrow> u64 \<Rightarrow> u32 option" where
  "read_u32 k base off = k_read_u32 k (base + off)"

definition read_ppid :: "kenv \<Rightarrow> ebpf_state \<Rightarrow> u64 \<Rightarrow> u32" where
  "read_ppid k s task =
     (case read_ptr k task (get_offset s TASK_REAL_PARENT) of
        None \<Rightarrow> 0
      | Some parent \<Rightarrow> unwrap_or 0 (read_u32 k parent (get_offset s TASK_TGID)))"

definition read_euid :: "kenv \<Rightarrow> ebpf_state \<Rightarrow> u64 \<Rightarrow> u32" where
  "read_euid k s task =
     (case read_ptr k task (get_offset s TASK_CRED) of
        None \<Rightarrow> 0
      | Some cred \<Rightarrow> unwrap_or 0 (read_u32 k cred (get_offset s CRED_EUID)))"

definition read_tty_nr :: "kenv \<Rightarrow> ebpf_state \<Rightarrow> u64 \<Rightarrow> u32" where
  "read_tty_nr k s task =
     (case read_ptr k task (get_offset s TASK_SIGNAL) of
        None \<Rightarrow> 0
      | Some signal \<Rightarrow>
          (case read_ptr k signal (get_offset s SIGNAL_TTY) of
             None \<Rightarrow> 0
           | Some tty \<Rightarrow>
               if tty = 0 then 0
               else unwrap_or 0 (read_u32 k tty (get_offset s TTY_INDEX))))"

definition fill_header :: "kenv \<Rightarrow> ebpf_state \<Rightarrow> event_type \<Rightarrow> u64 \<Rightarrow> u64 \<Rightarrow> event_header" where
  "fill_header k s ty pid_tgid execution_id =
     (let uid_gid = k_uid_gid k;
          tgid = tgid_of pid_tgid;
          tid = ucast pid_tgid;
          task = k_task k
      in event_header_new ty (k_ktime k) tgid (read_ppid k s task) tgid tid
           (ucast uid_gid) (ucast (drop_bit 32 uid_gid)) (read_euid k s task)
           (unwrap_or (replicate 16 0) (k_comm k)) (read_tty_nr k s task)
           execution_id (k_cgroup_id k))"

section \<open>PTY file descriptors\<close>

definition PTY_SLAVE_MAJOR :: u32 where "PTY_SLAVE_MAJOR = 136"
definition PTY_MASTER_MAJOR :: u32 where "PTY_MASTER_MAJOR = 128"
definition MAX_PTY_CHECK_FD :: u32 where "MAX_PTY_CHECK_FD = 255"

text \<open>One link of the pointer chain: unreadable and null both end the walk.\<close>

definition read_nonnull :: "kenv \<Rightarrow> u64 \<Rightarrow> u64 \<Rightarrow> u64 option" where
  "read_nonnull k base off =
     (case read_ptr k base off of
        None \<Rightarrow> None
      | Some p \<Rightarrow> if p = 0 then None else Some p)"

definition is_pty_fd :: "kenv \<Rightarrow> ebpf_state \<Rightarrow> u32 \<Rightarrow> bool" where
  "is_pty_fd k s fd_num =
     (if fd_num > MAX_PTY_CHECK_FD then False
      else case read_nonnull k (k_task k) (get_offset s TASK_FILES) of None \<Rightarrow> False | Some files \<Rightarrow>
      (case read_nonnull k files (get_offset s FILES_FDT) of None \<Rightarrow> False | Some fdt \<Rightarrow>
      (case read_nonnull k fdt (get_offset s FDT_FD) of None \<Rightarrow> False | Some fd_array \<Rightarrow>
      (case read_nonnull k fd_array (ucast fd_num * 8) of None \<Rightarrow> False | Some file_ptr \<Rightarrow>
      (case read_nonnull k file_ptr (get_offset s FILE_INODE) of None \<Rightarrow> False | Some inode \<Rightarrow>
      (case read_u32 k inode (get_offset s INODE_RDEV) of None \<Rightarrow> False | Some rdev \<Rightarrow>
        (let major = drop_bit 8 rdev AND 0xFFF
         in major = PTY_SLAVE_MAJOR \<or> major = PTY_MASTER_MAJOR)))))))"

section \<open>I/O data\<close>

definition fill_io_data :: "kenv \<Rightarrow> io_event \<Rightarrow> u64 \<Rightarrow> u64 \<Rightarrow> i64 + io_event" where
  "fill_io_data k event buf_ptr byte_count =
     (let to_read = (if byte_count < of_nat MAX_DATA_LEN then unat byte_count else MAX_DATA_LEN)
      in case k_user_buf k buf_ptr to_read of
           None \<Rightarrow> Inl 1
         | Some bs \<Rightarrow> Inr (event\<lparr>io_data := bs @ drop to_read (io_data event),
                              io_data_len := of_nat to_read\<rparr>))"

text \<open>\<open>write_bytes(event, 0, 1)\<close>: the reserved entry is all zero bytes.\<close>

definition zero_header :: event_header where
  "zero_header = \<lparr>h_event_type = 0, h_wire_version = 0, h_timestamp_ns = 0, h_pid = 0, h_ppid = 0,
     h_tgid = 0, h_tid = 0, h_uid = 0, h_gid = 0, h_euid = 0, h_comm = replicate COMM_LEN 0,
     h_tty_nr = 0, h_execution_id = 0, h_cgroup_id = 0\<rparr>"

section \<open>execve\<close>

text \<open>The argument loop: stop at an unreadable or null pointer, else copy and count.\<close>

fun argv_loop :: "kenv \<Rightarrow> u64 \<Rightarrow> nat list \<Rightarrow> u8 list list \<Rightarrow> u32 \<Rightarrow> u8 list list \<times> u32" where
  "argv_loop k argv_base [] argv count = (argv, count)"
| "argv_loop k argv_base (i # is) argv count =
     (case k_user_ptr k (argv_base + of_nat (8 * i)) of
        None \<Rightarrow> (argv, count)
      | Some arg_ptr \<Rightarrow>
          if arg_ptr = 0 then (argv, count)
          else argv_loop k argv_base is (argv[i := k_user_str k arg_ptr (argv ! i)]) (count + 1))"

definition set_scratch :: "kenv \<Rightarrow> exec_event \<Rightarrow> ebpf_state \<Rightarrow> ebpf_state" where
  "set_scratch k e s = s\<lparr>s_exec_scratch := (s_exec_scratch s)(k_cpu k := e)\<rparr>"

definition try_sys_enter_execve :: "kenv \<Rightarrow> ebpf_state \<Rightarrow> ebpf_result" where
  "try_sys_enter_execve k s =
     (case check_not_self k s of
        None \<Rightarrow> (s, Inr ())
      | Some pid_tgid \<Rightarrow>
          if \<not> k_scratch_ok k then (s, Inl 1)
          else
            (let hdr = fill_header k s Exec pid_tgid 0;
                 scratch = (s_exec_scratch s (k_cpu k))\<lparr>x_header := hdr, x_retval := 0\<rparr>
             in case k_arg k 16 of
                  None \<Rightarrow> (set_scratch k scratch s, Inl 1)
                | Some filename_ptr \<Rightarrow>
                    (let scratch = scratch\<lparr>x_filename :=
                           k_user_str k filename_ptr (replicate MAX_FILENAME_LEN 0)\<rparr>
                     in case k_arg k 24 of
                          None \<Rightarrow> (set_scratch k scratch s, Inl 1)
                        | Some argv_base \<Rightarrow>
                            (let (argv, count) = argv_loop k argv_base [0..<MAX_ARGV_COUNT]
                                   (replicate MAX_ARGV_COUNT (replicate MAX_ARG_LEN 0)) 0;
                                 scratch = scratch\<lparr>x_argv := argv, x_argc := count\<rparr>;
                                 s = set_scratch k scratch s
                             in (s\<lparr>s_pending_exec :=
                                     map_insert k pid_tgid scratch (s_pending_exec s)\<rparr>, Inr ())))))"

definition try_sys_exit_execve :: "kenv \<Rightarrow> ebpf_state \<Rightarrow> ebpf_result" where
  "try_sys_exit_execve k s =
     (let pid_tgid = k_pid_tgid k; tgid = tgid_of pid_tgid
      in case k_arg k 16 of
           None \<Rightarrow> (s, Inl 1)
         | Some retval \<Rightarrow>
             (case s_pending_exec s pid_tgid of
                None \<Rightarrow> (s, Inl 1)
              | Some pending \<Rightarrow>
                  if \<not> k_reserve_ok k
                  then (s\<lparr>s_pending_exec := map_remove pid_tgid (s_pending_exec s)\<rparr>, Inl 1)
                  else
                    (let execution_id = k_ktime k;
                         event = pending\<lparr>x_header :=
                             (x_header pending)\<lparr>h_execution_id := execution_id\<rparr>,
                           x_retval := retval\<rparr>;
                         s = s\<lparr>s_events := s_events s @ [RExec event]\<rparr>;
                         s = (if 0 \<le> sint retval
                              then s\<lparr>s_exec_pids := map_insert k tgid execution_id (s_exec_pids s)\<rparr>
                              else s)
                     in (s\<lparr>s_pending_exec := map_remove pid_tgid (s_pending_exec s)\<rparr>, Inr ()))))"

section \<open>exit_group\<close>

definition try_sys_enter_exit_group :: "kenv \<Rightarrow> ebpf_state \<Rightarrow> ebpf_result" where
  "try_sys_enter_exit_group k s =
     (case check_not_self k s of
        None \<Rightarrow> (s, Inr ())
      | Some pid_tgid \<Rightarrow>
          (case k_arg k 16 of
             None \<Rightarrow> (s, Inl 1)
           | Some error_code \<Rightarrow>
               (let tgid = tgid_of pid_tgid;
                    execution_id = unwrap_or 0 (s_exec_pids s tgid);
                    header = fill_header k s Exit pid_tgid execution_id
                in if \<not> k_reserve_ok k then (s, Inl 1)
                   else
                     (let event = \<lparr>e_header = header, e_exit_code = ucast error_code, e_pad = 0\<rparr>
                      in (s\<lparr>s_events := s_events s @ [RExit event],
                            s_exec_pids := map_remove tgid (s_exec_pids s),
                            s_pending_write := map_remove pid_tgid (s_pending_write s),
                            s_pending_read := map_remove pid_tgid (s_pending_read s)\<rparr>, Inr ())))))"

section \<open>write\<close>

definition try_sys_enter_write :: "kenv \<Rightarrow> ebpf_state \<Rightarrow> ebpf_result" where
  "try_sys_enter_write k s =
     (case check_not_self k s of
        None \<Rightarrow> (s, Inr ())
      | Some pid_tgid \<Rightarrow>
          (case k_arg k 16 of
             None \<Rightarrow> (s, Inl 1)
           | Some fd64 \<Rightarrow>
               (let fd = ucast fd64
                in if fd \<noteq> 1 \<and> fd \<noteq> 2 \<and> \<not> is_pty_fd k s fd then (s, Inr ())
                   else if s_exec_pids s (tgid_of pid_tgid) = None then (s, Inr ())
                   else
                     (case k_arg k 24 of
                        None \<Rightarrow> (s, Inl 1)
                      | Some buf_ptr \<Rightarrow>
                          (case k_arg k 32 of
                             None \<Rightarrow> (s, Inl 1)
                           | Some count \<Rightarrow>
                               (let pending = \<lparr>pw_fd = fd, pw_buf_ptr = buf_ptr, pw_count = count\<rparr>
                                in (s\<lparr>s_pending_write :=
                                        map_insert k pid_tgid pending (s_pending_write s)\<rparr>,
                                    Inr ())))))))"

definition try_sys_exit_write :: "kenv \<Rightarrow> ebpf_state \<Rightarrow> ebpf_result" where
  "try_sys_exit_write k s =
     (let pid_tgid = k_pid_tgid k;
          done = s\<lparr>s_pending_write := map_remove pid_tgid (s_pending_write s)\<rparr>
      in case s_pending_write s pid_tgid of
           None \<Rightarrow> (s, Inr ())
         | Some pending \<Rightarrow>
             (case k_arg k 16 of
                None \<Rightarrow> (s, Inl 1)
              | Some ret \<Rightarrow>
                  if sint ret \<le> 0 then (done, Inr ())
                  else
                    (case s_exec_pids s (tgid_of pid_tgid) of
                       None \<Rightarrow> (done, Inr ())
                     | Some execution_id \<Rightarrow>
                         if \<not> k_reserve_ok k then (done, Inl 1)
                         else
                           (let event = (io_event_zeroed zero_header)
                                  \<lparr>io_header := fill_header k s Write pid_tgid execution_id,
                                   io_fd := pw_fd pending, io_count := ret\<rparr>
                            in case fill_io_data k event (pw_buf_ptr pending) ret of
                                 Inl _ \<Rightarrow> (done, Inl 1)
                               | Inr event \<Rightarrow>
                                   (done\<lparr>s_events := s_events s @ [RIo event]\<rparr>, Inr ())))))"

section \<open>read\<close>

definition try_sys_enter_read :: "kenv \<Rightarrow> ebpf_state \<Rightarrow> ebpf_result" where
  "try_sys_enter_read k s =
     (case check_not_self k s of
        None \<Rightarrow> (s, Inr ())
      | Some pid_tgid \<Rightarrow>
          (case k_arg k 16 of
             None \<Rightarrow> (s, Inl 1)
           | Some fd64 \<Rightarrow>
               (let fd = ucast fd64
                in if fd \<noteq> 0 \<and> \<not> is_pty_fd k s fd then (s, Inr ())
                   else if s_exec_pids s (tgid_of pid_tgid) = None then (s, Inr ())
                   else
                     (case k_arg k 24 of
                        None \<Rightarrow> (s, Inl 1)
                      | Some buf_ptr \<Rightarrow>
                          (case k_arg k 32 of
                             None \<Rightarrow> (s, Inl 1)
                           | Some count \<Rightarrow>
                               (let pending = \<lparr>pr_fd = fd, pr_buf_ptr = buf_ptr, pr_count = count\<rparr>
                                in (s\<lparr>s_pending_read :=
                                        map_insert k pid_tgid pending (s_pending_read s)\<rparr>,
                                    Inr ())))))))"

definition try_sys_exit_read :: "kenv \<Rightarrow> ebpf_state \<Rightarrow> ebpf_result" where
  "try_sys_exit_read k s =
     (let pid_tgid = k_pid_tgid k;
          done = s\<lparr>s_pending_read := map_remove pid_tgid (s_pending_read s)\<rparr>
      in case s_pending_read s pid_tgid of
           None \<Rightarrow> (s, Inr ())
         | Some pending \<Rightarrow>
             (case k_arg k 16 of
                None \<Rightarrow> (s, Inl 1)
              | Some ret \<Rightarrow>
                  if sint ret \<le> 0 then (done, Inr ())
                  else
                    (case s_exec_pids s (tgid_of pid_tgid) of
                       None \<Rightarrow> (done, Inr ())
                     | Some execution_id \<Rightarrow>
                         if \<not> k_reserve_ok k then (done, Inl 1)
                         else
                           (let event = (io_event_zeroed zero_header)
                                  \<lparr>io_header := fill_header k s Read pid_tgid execution_id,
                                   io_fd := pr_fd pending, io_count := ret\<rparr>
                            in case fill_io_data k event (pr_buf_ptr pending) ret of
                                 Inl _ \<Rightarrow> (done, Inl 1)
                               | Inr event \<Rightarrow>
                                   (done\<lparr>s_events := s_events s @ [RIo event]\<rparr>, Inr ())))))"

section \<open>The programs as one machine\<close>

datatype tracepoint =
    EnterExecve | ExitExecve | EnterExitGroup | EnterWrite | ExitWrite | EnterRead | ExitRead

fun ebpf_fire :: "tracepoint \<Rightarrow> kenv \<Rightarrow> ebpf_state \<Rightarrow> ebpf_result" where
  "ebpf_fire EnterExecve k s = try_sys_enter_execve k s"
| "ebpf_fire ExitExecve k s = try_sys_exit_execve k s"
| "ebpf_fire EnterExitGroup k s = try_sys_enter_exit_group k s"
| "ebpf_fire EnterWrite k s = try_sys_enter_write k s"
| "ebpf_fire ExitWrite k s = try_sys_exit_write k s"
| "ebpf_fire EnterRead k s = try_sys_enter_read k s"
| "ebpf_fire ExitRead k s = try_sys_exit_read k s"

text \<open>The exported programs turn the result into the tracepoint's return code.\<close>

definition tracepoint_code :: "i64 + unit \<Rightarrow> u32" where
  "tracepoint_code r = (case r of Inr _ \<Rightarrow> 0 | Inl _ \<Rightarrow> 1)"

definition exported :: "ebpf_result \<Rightarrow> ebpf_state \<times> u32" where
  "exported r = (fst r, tracepoint_code (snd r))"

definition sys_enter_execve :: "kenv \<Rightarrow> ebpf_state \<Rightarrow> ebpf_state \<times> u32" where
  "sys_enter_execve k s = exported (try_sys_enter_execve k s)"

definition sys_exit_execve :: "kenv \<Rightarrow> ebpf_state \<Rightarrow> ebpf_state \<times> u32" where
  "sys_exit_execve k s = exported (try_sys_exit_execve k s)"

definition sys_enter_exit_group :: "kenv \<Rightarrow> ebpf_state \<Rightarrow> ebpf_state \<times> u32" where
  "sys_enter_exit_group k s = exported (try_sys_enter_exit_group k s)"

definition sys_enter_write :: "kenv \<Rightarrow> ebpf_state \<Rightarrow> ebpf_state \<times> u32" where
  "sys_enter_write k s = exported (try_sys_enter_write k s)"

definition sys_exit_write :: "kenv \<Rightarrow> ebpf_state \<Rightarrow> ebpf_state \<times> u32" where
  "sys_exit_write k s = exported (try_sys_exit_write k s)"

definition sys_enter_read :: "kenv \<Rightarrow> ebpf_state \<Rightarrow> ebpf_state \<times> u32" where
  "sys_enter_read k s = exported (try_sys_enter_read k s)"

definition sys_exit_read :: "kenv \<Rightarrow> ebpf_state \<Rightarrow> ebpf_state \<times> u32" where
  "sys_exit_read k s = exported (try_sys_exit_read k s)"

text \<open>The machine below fires exactly these programs; it leaves out the codes, which the kernel ignores.\<close>

lemma exported_programs:
  "sys_enter_execve k s = exported (ebpf_fire EnterExecve k s)"
  "sys_exit_execve k s = exported (ebpf_fire ExitExecve k s)"
  "sys_enter_exit_group k s = exported (ebpf_fire EnterExitGroup k s)"
  "sys_enter_write k s = exported (ebpf_fire EnterWrite k s)"
  "sys_exit_write k s = exported (ebpf_fire ExitWrite k s)"
  "sys_enter_read k s = exported (ebpf_fire EnterRead k s)"
  "sys_exit_read k s = exported (ebpf_fire ExitRead k s)"
  by (simp_all add: sys_enter_execve_def sys_exit_execve_def sys_enter_exit_group_def sys_enter_write_def sys_exit_write_def sys_enter_read_def sys_exit_read_def)

lemma exported_code: "snd (exported r) = 0 \<longleftrightarrow> is_ok (snd r)"
  by (cases "snd r") (simp_all add: exported_def tracepoint_code_def)

text \<open>
  The maps as the loader leaves them: \<open>run\<close> in \<open>shspectr/src/ebpf.rs\<close> stores the collector's own
  tgid and the resolved offsets before it attaches the programs; array map values start zeroed.
\<close>

definition ebpf_init :: "u32 \<Rightarrow> u64 list \<Rightarrow> ebpf_state" where
  "ebpf_init self_tgid offsets =
     \<lparr>s_events = [], s_pending_exec = Map.empty, s_exec_scratch = (\<lambda>_. exec_event_zeroed zero_header),
      s_offsets = offsets, s_pending_read = Map.empty, s_pending_write = Map.empty,
      s_exec_pids = Map.empty, s_self_tgid = Some self_tgid\<rparr>"

inductive ebpf_step :: "ebpf_state \<Rightarrow> ebpf_state \<Rightarrow> bool" where
  fire: "wf_kenv k \<Longrightarrow> ebpf_step s (fst (ebpf_fire tp k s))"

inductive ebpf_reachable :: "u32 \<Rightarrow> u64 list \<Rightarrow> ebpf_state \<Rightarrow> bool" for self offsets where
  start: "ebpf_reachable self offsets (ebpf_init self offsets)"
| step: "ebpf_reachable self offsets s \<Longrightarrow> ebpf_step s t \<Longrightarrow> ebpf_reachable self offsets t"

inductive_cases ebpf_stepE: "ebpf_step s t"

end
