(* ===== verification/EbpfInv.thy ===== *)
theory EbpfInv
  imports Ebpf
begin

text \<open>
  What the kernel side guarantees to the consumer of its ring buffer, as an invariant of every
  state that any sequence of tracepoint firings can reach, whatever the kernel answers.

  The read and the write programs follow one protocol: the enter program stashes a request for a
  traced process, the exit program turns it into one event. The locale \<open>io_capture\<close> states that
  protocol once, the invariant is proved for it once, and both pairs of programs are
  interpretations.
\<close>

section \<open>What a ring buffer holds\<close>

text \<open>
  A successful exec of process \<open>t\<close> with this execution id has been reported before, and no exit of
  the process since then.
\<close>

definition exits :: "u32 \<Rightarrow> ring_event list \<Rightarrow> bool" where
  "exits t evs \<longleftrightarrow> (\<exists>e. RExit e \<in> set evs \<and> h_tgid (e_header e) = t)"

definition exec_live :: "u32 \<Rightarrow> u64 \<Rightarrow> ring_event list \<Rightarrow> bool" where
  "exec_live t eid evs \<longleftrightarrow>
     (\<exists>pre x post. evs = pre @ RExec x # post \<and> h_tgid (x_header x) = t
        \<and> h_execution_id (x_header x) = eid \<and> 0 \<le> sint (x_retval x) \<and> \<not> exits t post)"

text \<open>An event that may follow the events \<open>pre\<close>.\<close>

fun ring_event_ok :: "u32 \<Rightarrow> ring_event list \<Rightarrow> ring_event \<Rightarrow> bool" where
  "ring_event_ok self pre (RExec e) \<longleftrightarrow>
     wf_exec_event e \<and> decoded_event_type (x_header e) = Some Exec
     \<and> h_pid (x_header e) = h_tgid (x_header e) \<and> h_tgid (x_header e) \<noteq> self \<and> unat (x_argc e) \<le> MAX_ARGV_COUNT"
| "ring_event_ok self pre (RIo e) \<longleftrightarrow>
     wf_io_event e
     \<and> (decoded_event_type (io_header e) = Some Read \<or> decoded_event_type (io_header e) = Some Write)
     \<and> h_pid (io_header e) = h_tgid (io_header e) \<and> h_tgid (io_header e) \<noteq> self
     \<and> 0 < sint (io_count e) \<and> unat (io_data_len e) = min (unat (io_count e)) MAX_DATA_LEN
     \<and> exec_live (h_tgid (io_header e)) (h_execution_id (io_header e)) pre"
| "ring_event_ok self pre (RExit e) \<longleftrightarrow>
     wf_exit_event e \<and> decoded_event_type (e_header e) = Some Exit
     \<and> h_pid (e_header e) = h_tgid (e_header e) \<and> h_tgid (e_header e) \<noteq> self
     \<and> (h_execution_id (e_header e) = 0
        \<or> exec_live (h_tgid (e_header e)) (h_execution_id (e_header e)) pre)"

definition ring_ok :: "u32 \<Rightarrow> ring_event list \<Rightarrow> bool" where
  "ring_ok self evs \<longleftrightarrow> (\<forall>i < length evs. ring_event_ok self (take i evs) (evs ! i))"

lemma ring_ok_Nil [simp]: "ring_ok self []"
  by (simp add: ring_ok_def)

lemma ring_ok_snoc [simp]:
  "ring_ok self (evs @ [e]) \<longleftrightarrow> ring_ok self evs \<and> ring_event_ok self evs e"
  by (auto simp: ring_ok_def nth_append less_Suc_eq)

lemma ring_ok_split: "ring_ok self (pre @ e # post) \<Longrightarrow> ring_event_ok self pre e"
  by (auto simp: ring_ok_def dest: spec [of _ "length pre"])

lemma exits_simps [simp]:
  "\<not> exits t []" "\<not> exits t (RExec x # evs) \<longleftrightarrow> \<not> exits t evs" "\<not> exits t (RIo i # evs) \<longleftrightarrow> \<not> exits t evs"
  "exits t (RExit e # evs) \<longleftrightarrow> h_tgid (e_header e) = t \<or> exits t evs"
  "exits t (evs @ evs') \<longleftrightarrow> exits t evs \<or> exits t evs'"
  by (auto simp: exits_def)

lemma exec_live_append: "exec_live t eid evs \<Longrightarrow> \<not> exits t rest \<Longrightarrow> exec_live t eid (evs @ rest)"
  unfolding exec_live_def by (metis append.assoc append_Cons exits_simps(5))

lemma exec_live_snoc:
  "h_tgid (x_header x) = t \<Longrightarrow> h_execution_id (x_header x) = eid \<Longrightarrow> 0 \<le> sint (x_retval x) \<Longrightarrow>
    exec_live t eid (evs @ [RExec x])"
  unfolding exec_live_def using exits_simps(1) by blast

section \<open>The invariant\<close>

definition wf_scratch :: "exec_event \<Rightarrow> bool" where
  "wf_scratch e \<longleftrightarrow> length (x_filename e) = MAX_FILENAME_LEN \<and> length (x_argv e) = MAX_ARGV_COUNT
     \<and> (\<forall>a \<in> set (x_argv e). length a = MAX_ARG_LEN)"

definition pending_exec_ok :: "u64 \<Rightarrow> exec_event \<Rightarrow> bool" where
  "pending_exec_ok key e \<longleftrightarrow> wf_exec_event e \<and> decoded_event_type (x_header e) = Some Exec
     \<and> h_pid (x_header e) = tgid_of key \<and> h_tgid (x_header e) = tgid_of key \<and> unat (x_argc e) \<le> MAX_ARGV_COUNT"

definition ebpf_inv :: "u32 \<Rightarrow> ebpf_state \<Rightarrow> bool" where
  "ebpf_inv self s \<longleftrightarrow>
     s_self_tgid s = Some self
     \<and> (\<forall>key \<in> dom (s_pending_exec s) \<union> (dom (s_pending_read s) \<union> dom (s_pending_write s)).
          tgid_of key \<noteq> self)
     \<and> (\<forall>key e. s_pending_exec s key = Some e \<longrightarrow> pending_exec_ok key e)
     \<and> (\<forall>c. wf_scratch (s_exec_scratch s c))
     \<and> ring_ok self (s_events s)
     \<and> (\<forall>t eid. s_exec_pids s t = Some eid \<longrightarrow> exec_live t eid (s_events s))"

lemma ebpf_inv_init: "ebpf_inv self (ebpf_init self offsets)"
  by (simp add: ebpf_inv_def ebpf_init_def wf_scratch_def exec_event_zeroed_def)

section \<open>Headers\<close>

lemma wf_fill_header [wf]: "wf_kenv k \<Longrightarrow> wf_header (fill_header k s ty pt eid)"
  by (auto simp: fill_header_def Let_def wf_kenv_def unwrap_or_def COMM_LEN_def
      intro!: wf_header_new split: option.splits)

lemma fill_header_simps [simp]:
  "decoded_event_type (fill_header k s ty pt eid) = Some ty"
  "h_tgid (fill_header k s ty pt eid) = tgid_of pt"
  "h_pid (fill_header k s ty pt eid) = tgid_of pt"
  "h_execution_id (fill_header k s ty pt eid) = eid"
  by (simp_all add: fill_header_def Let_def) (simp_all add: event_header_new_def)

lemma wf_zero_header [wf]: "wf_header zero_header"
  by (simp add: zero_header_def wf_header_def)

lemma check_not_self_Some:
  "check_not_self k s = Some pt \<longleftrightarrow> pt = k_pid_tgid k \<and> s_self_tgid s \<noteq> Some (tgid_of pt)"
  by (auto simp: check_not_self_def Let_def)

section \<open>The capture protocol\<close>

locale io_capture =
  fixes enter :: "kenv \<Rightarrow> ebpf_state \<Rightarrow> ebpf_result"
    and leave :: "kenv \<Rightarrow> ebpf_state \<Rightarrow> ebpf_result"
    and pend :: "ebpf_state \<Rightarrow> (u64 \<rightharpoonup> 'p)"
    and other :: "ebpf_state \<Rightarrow> (u64 \<rightharpoonup> 'q)"
    and ty :: event_type
  assumes ty_io: "ty = Read \<or> ty = Write"
    and tables: "dom (s_pending_read s) \<union> dom (s_pending_write s) = dom (pend s) \<union> dom (other s)"
    and enter_frame:
      "s_events (fst (enter k s)) = s_events s" "s_exec_pids (fst (enter k s)) = s_exec_pids s"
      "s_self_tgid (fst (enter k s)) = s_self_tgid s"
      "s_pending_exec (fst (enter k s)) = s_pending_exec s"
      "s_exec_scratch (fst (enter k s)) = s_exec_scratch s" "other (fst (enter k s)) = other s"
    and enter_pend:
      "pend (fst (enter k s)) = pend s
       \<or> (\<exists>p. check_not_self k s = Some (k_pid_tgid k)
             \<and> s_exec_pids s (tgid_of (k_pid_tgid k)) \<noteq> None
             \<and> pend (fst (enter k s)) = (pend s)(k_pid_tgid k \<mapsto> p))"
    and leave_frame:
      "s_exec_pids (fst (leave k s)) = s_exec_pids s"
      "s_self_tgid (fst (leave k s)) = s_self_tgid s"
      "s_pending_exec (fst (leave k s)) = s_pending_exec s"
      "s_exec_scratch (fst (leave k s)) = s_exec_scratch s" "other (fst (leave k s)) = other s"
    and leave_pend:
      "pend (fst (leave k s)) = pend s \<or> pend (fst (leave k s)) = (pend s)(k_pid_tgid k := None)"
    and leave_consumes: "k_arg k 16 \<noteq> None \<Longrightarrow> pend (fst (leave k s)) (k_pid_tgid k) = None"
    and leave_events:
      "s_events (fst (leave k s)) = s_events s
       \<or> (\<exists>p eid e. pend s (k_pid_tgid k) = Some p
             \<and> s_exec_pids s (tgid_of (k_pid_tgid k)) = Some eid
             \<and> io_header e = fill_header k s ty (k_pid_tgid k) eid
             \<and> (wf_kenv k \<longrightarrow> length (io_data e) = MAX_DATA_LEN)
             \<and> 0 < sint (io_count e) \<and> unat (io_data_len e) = min (unat (io_count e)) MAX_DATA_LEN
             \<and> s_events (fst (leave k s)) = s_events s @ [RIo e])"
begin

lemma enter_keeps_inv:
  assumes "ebpf_inv self s"
  shows "ebpf_inv self (fst (enter k s))"
  using assms enter_pend [of k s]
  unfolding ebpf_inv_def tables enter_frame
  by (auto simp: check_not_self_Some split: if_splits)

lemma leave_keeps_inv:
  assumes inv: "ebpf_inv self s" and k: "wf_kenv k"
  shows "ebpf_inv self (fst (leave k s))"
proof -
  have keys: "dom (pend (fst (leave k s))) \<subseteq> dom (pend s)"
    using leave_pend [of k s] by (auto split: if_splits)
  have ring: "ring_ok self (s_events (fst (leave k s)))
      \<and> (\<forall>t eid. s_exec_pids s t = Some eid \<longrightarrow> exec_live t eid (s_events (fst (leave k s))))"
    using leave_events [of k s]
  proof (elim disjE exE conjE)
    assume "s_events (fst (leave k s)) = s_events s"
    with inv show ?thesis by (simp add: ebpf_inv_def)
  next
    fix p eid e
    assume *: "pend s (k_pid_tgid k) = Some p" "s_exec_pids s (tgid_of (k_pid_tgid k)) = Some eid"
      "io_header e = fill_header k s ty (k_pid_tgid k) eid"
      "wf_kenv k \<longrightarrow> length (io_data e) = MAX_DATA_LEN" "0 < sint (io_count e)"
      "unat (io_data_len e) = min (unat (io_count e)) MAX_DATA_LEN"
      "s_events (fst (leave k s)) = s_events s @ [RIo e]"
    have "k_pid_tgid k \<in> dom (s_pending_read s) \<union> dom (s_pending_write s)"
      unfolding tables using *(1) by auto
    then have "tgid_of (k_pid_tgid k) \<noteq> self"
      using inv unfolding ebpf_inv_def by blast
    moreover have "exec_live (tgid_of (k_pid_tgid k)) eid (s_events s)"
      using inv *(2) by (simp add: ebpf_inv_def)
    ultimately have "ring_event_ok self (s_events s) (RIo e)"
      using * k ty_io by (auto simp: wf_io_event_def wf)
    with inv *(7) show ?thesis
      by (simp add: ebpf_inv_def exec_live_append)
  qed
  have "\<forall>key \<in> dom (s_pending_exec s) \<union> (dom (pend (fst (leave k s))) \<union> dom (other s)). tgid_of key \<noteq> self"
    using inv keys unfolding ebpf_inv_def tables by blast
  with inv ring show ?thesis
    unfolding ebpf_inv_def tables leave_frame by simp
qed

end

section \<open>The two instances\<close>

lemma fill_io_data_Inr:
  assumes "fill_io_data k event buf n = Inr e"
  shows "io_header e = io_header event \<and> io_count e = io_count event \<and> io_fd e = io_fd event
    \<and> unat (io_data_len e) = min (unat n) MAX_DATA_LEN
    \<and> (wf_kenv k \<longrightarrow> length (io_data event) = MAX_DATA_LEN \<longrightarrow> length (io_data e) = MAX_DATA_LEN)"
proof -
  define m where "m = (if n < of_nat MAX_DATA_LEN then unat n else MAX_DATA_LEN)"
  have m: "m = min (unat n) MAX_DATA_LEN"
    by (auto simp: m_def word_less_nat_alt MAX_DATA_LEN_def)
  have small: "unat (of_nat m :: u32) = m"
    by (simp add: m unat_of_nat take_bit_nat_def MAX_DATA_LEN_def min_def)
  from assms obtain bs where bs: "k_user_buf k buf m = Some bs"
    and e: "e = event\<lparr>io_data := bs @ drop m (io_data event), io_data_len := of_nat m\<rparr>"
    by (auto simp: fill_io_data_def Let_def m_def [symmetric] split: option.splits)
  have "length (io_data e) = MAX_DATA_LEN" if "wf_kenv k" "length (io_data event) = MAX_DATA_LEN"
  proof -
    from that bs have "length bs = m" by (simp add: wf_kenv_def)
    with that show ?thesis by (simp add: e m)
  qed
  moreover have "unat (io_data_len e) = min (unat n) MAX_DATA_LEN"
    by (simp add: e small) (simp add: m)
  ultimately show ?thesis by (simp add: e)
qed

lemma read_events:
  "s_events (fst (try_sys_exit_read k s)) = s_events s
   \<or> (\<exists>p eid e. s_pending_read s (k_pid_tgid k) = Some p
         \<and> s_exec_pids s (tgid_of (k_pid_tgid k)) = Some eid
         \<and> io_header e = fill_header k s Read (k_pid_tgid k) eid
         \<and> (wf_kenv k \<longrightarrow> length (io_data e) = MAX_DATA_LEN)
         \<and> 0 < sint (io_count e) \<and> unat (io_data_len e) = min (unat (io_count e)) MAX_DATA_LEN
         \<and> s_events (fst (try_sys_exit_read k s)) = s_events s @ [RIo e])"
  by (auto simp: try_sys_exit_read_def Let_def io_event_zeroed_def split: option.splits sum.splits
      dest!: fill_io_data_Inr)

lemma write_events:
  "s_events (fst (try_sys_exit_write k s)) = s_events s
   \<or> (\<exists>p eid e. s_pending_write s (k_pid_tgid k) = Some p
         \<and> s_exec_pids s (tgid_of (k_pid_tgid k)) = Some eid
         \<and> io_header e = fill_header k s Write (k_pid_tgid k) eid
         \<and> (wf_kenv k \<longrightarrow> length (io_data e) = MAX_DATA_LEN)
         \<and> 0 < sint (io_count e) \<and> unat (io_data_len e) = min (unat (io_count e)) MAX_DATA_LEN
         \<and> s_events (fst (try_sys_exit_write k s)) = s_events s @ [RIo e])"
  by (auto simp: try_sys_exit_write_def Let_def io_event_zeroed_def split: option.splits sum.splits
      dest!: fill_io_data_Inr)

interpretation reads: io_capture try_sys_enter_read try_sys_exit_read s_pending_read s_pending_write Read
proof (unfold_locales, goal_cases)
  case (17 k s)
  show ?case using read_events by blast
qed (auto simp: try_sys_enter_read_def try_sys_exit_read_def Let_def map_insert_def map_remove_def
    check_not_self_def split: option.splits sum.splits)

interpretation writes: io_capture try_sys_enter_write try_sys_exit_write s_pending_write s_pending_read Write
proof (unfold_locales, goal_cases)
  case (17 k s)
  show ?case using write_events by blast
qed (auto simp: try_sys_enter_write_def try_sys_exit_write_def Let_def map_insert_def map_remove_def
    check_not_self_def split: option.splits sum.splits)


section \<open>execve and exit_group\<close>

lemma argv_loop_inv:
  assumes "wf_kenv k" "argv_loop k base is argv n = (argv', m)"
    "length argv = MAX_ARGV_COUNT" "\<forall>a \<in> set argv. length a = MAX_ARG_LEN"
    "\<forall>i \<in> set is. i < MAX_ARGV_COUNT" "unat n + length is \<le> MAX_ARGV_COUNT"
  shows "length argv' = MAX_ARGV_COUNT" "\<forall>a \<in> set argv'. length a = MAX_ARG_LEN"
    "unat m \<le> MAX_ARGV_COUNT"
proof -
  have "length argv' = MAX_ARGV_COUNT \<and> (\<forall>a \<in> set argv'. length a = MAX_ARG_LEN)
      \<and> unat m \<le> MAX_ARGV_COUNT"
    using assms
  proof (induction "is" arbitrary: argv n)
    case Nil
    then show ?case by simp
  next
    case (Cons i "is")
    show ?case
    proof (cases "\<exists>p. k_user_ptr k (base + of_nat (8 * i)) = Some p \<and> p \<noteq> 0")
      case False
      with Cons.prems show ?thesis by (auto split: option.splits if_splits)
    next
      case True
      then obtain p where p: "k_user_ptr k (base + of_nat (8 * i)) = Some p" "p \<noteq> 0" by blast
      have "unat (n + 1) = unat n + 1"
        using Cons.prems(6) by (intro unat_add_lem [THEN iffD1] | simp add: unat_word_ariths MAX_ARGV_COUNT_def)+
      moreover have "length (k_user_str k p (argv ! i)) = MAX_ARG_LEN"
        using Cons.prems by (simp add: wf_kenv_def)
      ultimately show ?thesis
        using p Cons.prems
        by (intro Cons.IH [of "argv[i := k_user_str k p (argv ! i)]" "n + 1"])
          (auto dest: set_update_subset_insert [THEN subsetD])
    qed
  qed
  then show "length argv' = MAX_ARGV_COUNT" "\<forall>a \<in> set argv'. length a = MAX_ARG_LEN"
    "unat m \<le> MAX_ARGV_COUNT" by blast+
qed

lemma wf_exec_event_alt: "wf_exec_event e \<longleftrightarrow> wf_header (x_header e) \<and> wf_scratch e"
  by (auto simp: wf_exec_event_def wf_scratch_def)

lemma set_scratch_inv:
  "ebpf_inv self s \<Longrightarrow> wf_scratch e \<Longrightarrow> ebpf_inv self (set_scratch k e s)"
  by (simp add: ebpf_inv_def set_scratch_def)

lemma stash_exec_inv:
  assumes "ebpf_inv self s" "tgid_of key \<noteq> self" "pending_exec_ok key e"
  shows "ebpf_inv self (s\<lparr>s_pending_exec := map_insert k key e (s_pending_exec s)\<rparr>)"
  using assms by (auto simp: ebpf_inv_def map_insert_def)

lemma enter_execve_keeps_inv:
  assumes inv: "ebpf_inv self s" and k: "wf_kenv k"
  shows "ebpf_inv self (fst (try_sys_enter_execve k s))"
proof (cases "check_not_self k s")
  case None
  with inv show ?thesis by (simp add: try_sys_enter_execve_def)
next
  case (Some pt)
  then have pt: "pt = k_pid_tgid k" "tgid_of pt \<noteq> self"
    using inv by (auto simp: check_not_self_Some ebpf_inv_def)
  define hdr where "hdr = fill_header k s Exec pt 0"
  define e0 where "e0 = (s_exec_scratch s (k_cpu k))\<lparr>x_header := hdr, x_retval := 0\<rparr>"
  have e0: "wf_scratch e0" using inv by (simp add: ebpf_inv_def wf_scratch_def e0_def)
  have hdr: "wf_header hdr" "decoded_event_type hdr = Some Exec" "h_pid hdr = tgid_of pt"
      "h_tgid hdr = tgid_of pt"
    using k by (simp_all add: hdr_def wf)
  define e1 where "e1 p = e0\<lparr>x_filename := k_user_str k p (replicate MAX_FILENAME_LEN 0)\<rparr>" for p
  have e1: "wf_scratch (e1 p)" for p
    using e0 k by (simp add: e1_def wf_scratch_def wf_kenv_def)
  have e2: "wf_scratch (e1 p\<lparr>x_argv := argv, x_argc := n\<rparr>)
      \<and> pending_exec_ok pt (e1 p\<lparr>x_argv := argv, x_argc := n\<rparr>)"
    if "argv_loop k base [0..<MAX_ARGV_COUNT]
          (replicate MAX_ARGV_COUNT (replicate MAX_ARG_LEN 0)) 0 = (argv, n)" for p base argv n
    using argv_loop_inv [OF k that] e1 [of p] hdr
    by (simp add: pending_exec_ok_def wf_exec_event_alt wf_scratch_def e1_def e0_def)
  show ?thesis
    using inv Some pt(2) e0 [unfolded e0_def hdr_def] e1 [unfolded e1_def e0_def hdr_def]
      e2 [unfolded e1_def e0_def hdr_def]
    by (auto simp: try_sys_enter_execve_def Let_def split: option.splits prod.splits
        intro!: set_scratch_inv stash_exec_inv)
qed

lemma drop_pending_exec_inv:
  "ebpf_inv self s \<Longrightarrow> ebpf_inv self (s\<lparr>s_pending_exec := map_remove key (s_pending_exec s)\<rparr>)"
  by (auto simp: ebpf_inv_def map_remove_def)

lemma exit_execve_keeps_inv:
  assumes inv: "ebpf_inv self s"
  shows "ebpf_inv self (fst (try_sys_exit_execve k s))"
proof (cases "k_arg k 16 = None \<or> s_pending_exec s (k_pid_tgid k) = None \<or> \<not> k_reserve_ok k")
  case True
  with inv show ?thesis
    by (auto simp: try_sys_exit_execve_def Let_def drop_pending_exec_inv split: option.splits)
next
  case False
  then obtain ret pending where r: "k_arg k 16 = Some ret" "k_reserve_ok k"
    and p: "s_pending_exec s (k_pid_tgid k) = Some pending" by auto
  define e where "e = pending\<lparr>x_header := (x_header pending)\<lparr>h_execution_id := k_ktime k\<rparr>,
      x_retval := ret\<rparr>"
  have "pending_exec_ok (k_pid_tgid k) pending" "tgid_of (k_pid_tgid k) \<noteq> self"
    using inv p by (auto simp: ebpf_inv_def)
  then have e: "ring_event_ok self (s_events s) (RExec e)" "h_tgid (x_header e) = tgid_of (k_pid_tgid k)"
      "h_execution_id (x_header e) = k_ktime k" "x_retval e = ret"
    by (auto simp: e_def pending_exec_ok_def wf_exec_event_def wf_header_def decoded_event_type_def
        split: if_splits)
  have "ebpf_inv self (s\<lparr>s_events := s_events s @ [RExec e]\<rparr>)"
    using inv e(1) by (simp add: ebpf_inv_def exec_live_append)
  moreover have "ebpf_inv self (s\<lparr>s_events := s_events s @ [RExec e],
      s_exec_pids := map_insert k (tgid_of (k_pid_tgid k)) (k_ktime k) (s_exec_pids s)\<rparr>)"
    if "0 \<le> sint ret"
  proof -
    have "exec_live (tgid_of (k_pid_tgid k)) (k_ktime k) (s_events s @ [RExec e])"
      by (rule exec_live_snoc) (use e that in simp_all)
    with inv e(1) show ?thesis by (simp add: ebpf_inv_def exec_live_append map_insert_def)
  qed
  ultimately show ?thesis
    using r p drop_pending_exec_inv
    by (fastforce simp: try_sys_exit_execve_def Let_def e_def [symmetric])
qed

lemma enter_exit_group_keeps_inv:
  assumes inv: "ebpf_inv self s" and k: "wf_kenv k"
  shows "ebpf_inv self (fst (try_sys_enter_exit_group k s))"
proof (cases "check_not_self k s = None \<or> k_arg k 16 = None \<or> \<not> k_reserve_ok k")
  case True
  with inv show ?thesis
    by (auto simp: try_sys_enter_exit_group_def Let_def split: option.splits)
next
  case False
  then obtain pt code where *: "check_not_self k s = Some pt" "k_arg k 16 = Some code" "k_reserve_ok k"
    by auto
  then have pt: "tgid_of pt \<noteq> self" using inv by (auto simp: check_not_self_Some ebpf_inv_def)
  define e where "e = \<lparr>e_header = fill_header k s Exit pt (unwrap_or 0 (s_exec_pids s (tgid_of pt))),
      e_exit_code = ucast code, e_pad = 0\<rparr>"
  have "ring_event_ok self (s_events s) (RExit e)"
    using inv k pt by (auto simp: e_def wf_exit_event_def wf ebpf_inv_def unwrap_or_def split: option.splits)
  moreover have "h_tgid (e_header e) = tgid_of pt" by (simp add: e_def)
  ultimately show ?thesis
    using inv *
    by (auto simp: try_sys_enter_exit_group_def Let_def e_def [symmetric] ebpf_inv_def map_remove_def
        exec_live_append split: if_splits)
qed

section \<open>Every reachable state\<close>

lemma ebpf_step_keeps_inv:
  assumes "ebpf_step s t" "ebpf_inv self s"
  shows "ebpf_inv self t"
  using assms
proof (cases rule: ebpf_step.cases)
  case (fire k tp)
  then show ?thesis
    using assms(2)
    by (cases tp) (auto intro: enter_execve_keeps_inv exit_execve_keeps_inv
        enter_exit_group_keeps_inv reads.enter_keeps_inv reads.leave_keeps_inv
        writes.enter_keeps_inv writes.leave_keeps_inv)
qed

lemma ebpf_reachable_inv: "ebpf_reachable self offsets s \<Longrightarrow> ebpf_inv self s"
  by (induction rule: ebpf_reachable.induct) (auto intro: ebpf_inv_init ebpf_step_keeps_inv)


section \<open>Sequences of firings\<close>

fun ebpf_run :: "(tracepoint \<times> kenv) list \<Rightarrow> ebpf_state \<Rightarrow> ebpf_state" where
  "ebpf_run [] s = s"
| "ebpf_run ((tp, k) # fs) s = ebpf_run fs (fst (ebpf_fire tp k s))"

lemma ebpf_run_reachable:
  "ebpf_reachable self offsets s \<Longrightarrow> \<forall>(tp, k) \<in> set fs. wf_kenv k \<Longrightarrow>
    ebpf_reachable self offsets (ebpf_run fs s)"
  by (induction fs s rule: ebpf_run.induct) (auto intro: ebpf_reachable.step ebpf_step.fire)

text \<open>
  A kernel that answers thread 9 of process 7 with the given tracepoint arguments: all kernel
  pointers are unreadable, user strings read as they are, user buffers hold the byte 65.
\<close>

definition sample_kenv :: "u64 \<Rightarrow> u64 \<Rightarrow> kenv" where
  "sample_kenv now arg =
     \<lparr>k_cpu = 0, k_pid_tgid = 0x700000009, k_uid_gid = 0, k_task = 0, k_ktime = now,
      k_cgroup_id = 1, k_comm = None, k_arg = (\<lambda>_. Some arg), k_read_u64 = (\<lambda>_. None),
      k_read_u32 = (\<lambda>_. None), k_user_ptr = (\<lambda>_. None), k_user_str = (\<lambda>_ buf. buf),
      k_user_buf = (\<lambda>_ n. Some (replicate n 65)), k_scratch_ok = True, k_reserve_ok = True,
      k_insert_ok = True\<rparr>"

lemma wf_sample_kenv [simp]: "wf_kenv (sample_kenv now arg)"
  by (simp add: sample_kenv_def wf_kenv_def)

text \<open>Process 7 executes a program and then reads one byte from its standard input.\<close>

definition sample_trace :: "(tracepoint \<times> kenv) list" where
  "sample_trace = [(EnterExecve, sample_kenv 10 0), (ExitExecve, sample_kenv 11 0),
     (EnterRead, sample_kenv 12 0), (ExitRead, sample_kenv 13 1)]"

lemma sample_reachable: "ebpf_reachable 1 [] (ebpf_run sample_trace (ebpf_init 1 []))"
  by (rule ebpf_run_reachable) (auto simp: sample_trace_def intro: ebpf_reachable.start)

lemma sample_upto: "[0..<MAX_ARGV_COUNT] = 0 # [1..<20]"
  by (simp add: MAX_ARGV_COUNT_def upt_conv_Cons)

lemma sample_events: "\<exists>x e. s_events (ebpf_run sample_trace (ebpf_init 1 [])) = [RExec x, RIo e]
    \<and> io_count e = 1"
  by (simp add: sample_trace_def sample_kenv_def ebpf_init_def try_sys_enter_execve_def sample_upto
      check_not_self_def try_sys_exit_execve_def try_sys_enter_read_def try_sys_exit_read_def
      tgid_of_def map_insert_def map_remove_def set_scratch_def fill_io_data_def io_event_zeroed_def
      MAX_DATA_LEN_def Let_def)

section \<open>Properties\<close>

text \<open>
  C17: Whatever the kernel answers and in whatever order the seven programs run, every I/O event in
  the ring buffer belongs to a process that is not the collector and for which an earlier entry
  reports a successful execve under the same execution id, with no exit of the process reported in
  between; it reports a positive byte count and
  captures the first min(count, 4096) bytes.
\<close>

theorem io_events_follow_exec:
  assumes "ebpf_reachable self offsets s" "s_events s = pre @ RIo e # post"
  shows "h_tgid (io_header e) \<noteq> self
    \<and> (\<exists>before x after. pre = before @ RExec x # after \<and> 0 \<le> sint (x_retval x)
          \<and> h_tgid (x_header x) = h_tgid (io_header e)
          \<and> h_execution_id (x_header x) = h_execution_id (io_header e)
          \<and> \<not> exits (h_tgid (io_header e)) after)
    \<and> 0 < sint (io_count e)
    \<and> unat (io_data_len e) = min (unat (io_count e)) MAX_DATA_LEN"
proof -
  have "ring_ok self (pre @ RIo e # post)"
    using ebpf_reachable_inv [OF assms(1)] assms(2) by (simp add: ebpf_inv_def)
  then have "ring_event_ok self pre (RIo e)" by (rule ring_ok_split)
  then show ?thesis by (simp add: exec_live_def) blast
qed

theorem io_events_follow_exec_witness:
  "\<exists>s x e. ebpf_reachable 1 [] s \<and> s_events s = [RExec x, RIo e] \<and> h_tgid (io_header e) \<noteq> 1
     \<and> h_execution_id (x_header x) = h_execution_id (io_header e)
     \<and> 0 < sint (io_count e) \<and> unat (io_data_len e) = min (unat (io_count e)) MAX_DATA_LEN"
proof -
  obtain x e where ev: "s_events (ebpf_run sample_trace (ebpf_init 1 [])) = [RExec x] @ RIo e # []"
    using sample_events by auto
  show ?thesis
    using sample_reachable ev io_events_follow_exec [OF sample_reachable ev]
    by (intro exI [of _ "ebpf_run sample_trace (ebpf_init 1 [])"] exI [of _ x] exI [of _ e]) (auto simp: Cons_eq_append_conv)
qed

fun ring_tgid :: "ring_event \<Rightarrow> u32" where
  "ring_tgid (RExec e) = h_tgid (x_header e)"
| "ring_tgid (RIo e) = h_tgid (io_header e)"
| "ring_tgid (RExit e) = h_tgid (e_header e)"

lemma ring_event_ok_tgid: "ring_event_ok self pre e \<Longrightarrow> ring_tgid e \<noteq> self"
  by (cases e) auto

text \<open>
  C18: No entry of the ring buffer is about the collector itself, and no request of the collector is
  ever pending, so the collector's own reads and writes cannot feed back into its input.
\<close>

theorem no_feedback_loop:
  assumes "ebpf_reachable self offsets s"
  shows "self \<notin> ring_tgid ` set (s_events s)
    \<and> self \<notin> tgid_of ` (dom (s_pending_exec s) \<union> dom (s_pending_read s) \<union> dom (s_pending_write s))"
proof -
  have inv: "ebpf_inv self s" using assms by (rule ebpf_reachable_inv)
  have "ring_tgid (s_events s ! i) \<noteq> self" if "i < length (s_events s)" for i
    using inv that ring_event_ok_tgid unfolding ebpf_inv_def ring_ok_def by blast
  then have "self \<notin> ring_tgid ` set (s_events s)" by (metis image_iff in_set_conv_nth)
  moreover have "\<forall>key \<in> dom (s_pending_exec s) \<union> dom (s_pending_read s) \<union> dom (s_pending_write s).
      tgid_of key \<noteq> self"
    using inv unfolding ebpf_inv_def by blast
  ultimately show ?thesis by blast
qed

theorem no_feedback_loop_witness:
  "(1 :: u32) \<notin> ring_tgid ` set (s_events (ebpf_run sample_trace (ebpf_init 1 [])))
     \<and> length (s_events (ebpf_run sample_trace (ebpf_init 1 []))) = 2"
  using no_feedback_loop [OF sample_reachable] sample_events by fastforce

text \<open>
  C26: A write that a traced thread makes to a captured descriptor (standard output, standard error
  or a PTY) becomes exactly one ring buffer entry when the kernel reports that it wrote
  \<open>ret > 0\<close> bytes: the entry carries the descriptor, the count, the execution id of the process
  and the first min(ret, 4096) bytes of the buffer, and the pending request is consumed.
\<close>

theorem write_is_captured:
  assumes "wf_kenv k2" "k_pid_tgid k1 = pt" "k_pid_tgid k2 = pt"
    and "s_self_tgid s \<noteq> Some (tgid_of pt)" "s_exec_pids s (tgid_of pt) = Some eid"
    and "k_arg k1 16 = Some fd64" "k_arg k1 24 = Some buf" "k_arg k1 32 = Some count"
    and "ucast fd64 \<in> {1, 2 :: u32} \<or> is_pty_fd k1 s (ucast fd64)"
    and "k_insert_ok k1" "k_reserve_ok k2" "k_arg k2 16 = Some ret" "0 < sint ret"
    and "k_user_buf k2 buf (min (unat ret) MAX_DATA_LEN) = Some bs"
  shows "\<exists>e. s_events (ebpf_run [(EnterWrite, k1), (ExitWrite, k2)] s) = s_events s @ [RIo e]
      \<and> decoded_event_type (io_header e) = Some Write \<and> h_tgid (io_header e) = tgid_of pt
      \<and> h_execution_id (io_header e) = eid \<and> io_fd e = ucast fd64 \<and> io_count e = ret
      \<and> take (unat (io_data_len e)) (io_data e) = bs
      \<and> s_pending_write (ebpf_run [(EnterWrite, k1), (ExitWrite, k2)] s) pt = None"
proof -
  have n: "(if ret < of_nat MAX_DATA_LEN then unat ret else MAX_DATA_LEN) = min (unat ret) MAX_DATA_LEN"
    by (auto simp: word_less_nat_alt MAX_DATA_LEN_def)
  have small: "unat (of_nat (min (unat ret) MAX_DATA_LEN) :: u32) = min (unat ret) MAX_DATA_LEN"
    by (simp add: unat_of_nat take_bit_nat_def MAX_DATA_LEN_def min_def)
  have len: "length bs = min (unat ret) MAX_DATA_LEN" using assms by (simp add: wf_kenv_def)
  have run: "fst (ebpf_fire EnterWrite k1 s) =
      s\<lparr>s_pending_write := (s_pending_write s)(pt \<mapsto> \<lparr>pw_fd = ucast fd64, pw_buf_ptr = buf, pw_count = count\<rparr>)\<rparr>"
    using assms by (auto simp: try_sys_enter_write_def check_not_self_def map_insert_def Let_def)
  have event: "\<exists>e. s_events (ebpf_run [(EnterWrite, k1), (ExitWrite, k2)] s) = s_events s @ [RIo e]
      \<and> decoded_event_type (io_header e) = Some Write \<and> h_tgid (io_header e) = tgid_of pt
      \<and> h_execution_id (io_header e) = eid \<and> io_fd e = ucast fd64 \<and> io_count e = ret
      \<and> take (unat (io_data_len e)) (io_data e) = bs"
    using assms len small
    by (simp add: run try_sys_exit_write_def fill_io_data_def n io_event_zeroed_def Let_def
        del: ebpf_fire.simps(4))
  have "s_pending_write (ebpf_run [(EnterWrite, k1), (ExitWrite, k2)] s) pt = None"
    using assms writes.leave_consumes [of k2] by simp
  with event show ?thesis by blast
qed

lemma sample_two: "replicate 2 b = [b, b]"
  by (simp add: numeral_2_eq_2)

theorem write_is_captured_witness:
  "\<exists>s bs e. s_events (ebpf_run [(EnterWrite, sample_kenv 1 2), (ExitWrite, sample_kenv 2 2)] s)
      = s_events s @ [RIo e] \<and> io_fd e = 2 \<and> io_count e = 2 \<and> h_execution_id (io_header e) = 5
      \<and> take (unat (io_data_len e)) (io_data e) = bs"
proof -
  define s where "s = (ebpf_init 1 [])\<lparr>s_exec_pids := [7 \<mapsto> 5]\<rparr>"
  have *: "wf_kenv (sample_kenv 2 2)" "k_pid_tgid (sample_kenv 1 2) = 0x700000009"
    "k_pid_tgid (sample_kenv 2 2) = 0x700000009" "s_self_tgid s \<noteq> Some (tgid_of 0x700000009)"
    "s_exec_pids s (tgid_of 0x700000009) = Some 5" "k_arg (sample_kenv 1 2) 16 = Some 2"
    "k_arg (sample_kenv 1 2) 24 = Some 2" "k_arg (sample_kenv 1 2) 32 = Some 2"
    "ucast (2 :: u64) \<in> {1, 2 :: u32} \<or> is_pty_fd (sample_kenv 1 2) s (ucast (2 :: u64))"
    "k_insert_ok (sample_kenv 1 2)" "k_reserve_ok (sample_kenv 2 2)" "k_arg (sample_kenv 2 2) 16 = Some 2"
    "0 < sint (2 :: u64)"
    "k_user_buf (sample_kenv 2 2) 2 (min (unat (2 :: u64)) MAX_DATA_LEN) = Some [65, 65]"
    by (simp_all add: s_def ebpf_init_def sample_kenv_def tgid_of_def MAX_DATA_LEN_def sample_two wf_kenv_def)
  show ?thesis using write_is_captured [OF *] by (auto intro: exI [of _ s])
qed

text \<open>
  The controlling terminal is identified by its index alone, so a process on the first
  pseudo-terminal (index 0) is reported exactly like a process without a terminal.
\<close>

lemma first_pty_reported_as_none:
  assumes "read_ptr k task (get_offset s TASK_SIGNAL) = Some sig"
    "read_ptr k sig (get_offset s SIGNAL_TTY) = Some tty" "read_u32 k tty (get_offset s TTY_INDEX) = Some 0"
  shows "read_tty_nr k s task = 0"
  using assms by (simp add: read_tty_nr_def)

end
