(* ===== verification/Btf.thy ===== *)
theory Btf
  imports Wire Utf8
begin

text \<open>
  The BTF reader, \<open>shspectr/src/btf.rs\<close>, and the offset table it fills,
  \<open>shspectr-common/src/offsets.rs\<close>. BTF is the kernel's type information: a header, a section of
  type entries and a string table. \<open>from_bytes\<close> checks the section bounds, \<open>struct_field_offset\<close>
  walks the entries.

  The refinement theorem relates the byte-level walk to a search in a list of abstract entries:
  whatever list of entries the type section encodes, the walk returns what the search returns.
\<close>

section \<open>Data\<close>

datatype btf_error =
    BtfTooShort | BadMagic u16 | InvalidHeaderLength nat | SectionOverflow | SectionsBeyondBuffer
  | StringOutside u32 | StringInvalidUtf8 | TruncatedMembers string | FieldNotFound string string
  | StructNotFound string | WalkOverflow

definition BTF_MAGIC :: u16 where "BTF_MAGIC = 0xEB9F"
definition BTF_KIND_STRUCT :: u32 where "BTF_KIND_STRUCT = 4"

record btf =
  b_data :: "u8 list"
  b_hdr_len :: nat
  b_type_off :: nat
  b_type_len :: nat
  b_str_off :: nat
  b_str_len :: nat

text \<open>\<open>usize::checked_add\<close>.\<close>

definition checked_add_usize :: "nat \<Rightarrow> nat \<Rightarrow> nat option" where
  "checked_add_usize a b = (if a + b < 2 ^ 64 then Some (a + b) else None)"

section \<open>Opening\<close>

definition btf_from_bytes :: "u8 list \<Rightarrow> btf_error + btf" where
  "btf_from_bytes data =
     (if length data < 24 then Inl BtfTooShort
      else let magic = of_nat (le_val (field 0 2 data))
      in if magic \<noteq> BTF_MAGIC then Inl (BadMagic magic)
      else let hdr_len = unat (u32_at 4 data); type_off = unat (u32_at 8 data);
               type_len = unat (u32_at 12 data); str_off = unat (u32_at 16 data);
               str_len = unat (u32_at 20 data)
      in if hdr_len < 24 \<or> length data < hdr_len then Inl (InvalidHeaderLength hdr_len)
      else bind_result (ok_or SectionOverflow (Option.bind (checked_add_usize hdr_len type_off)
             (\<lambda>start. checked_add_usize start type_len))) (\<lambda>type_end.
           bind_result (ok_or SectionOverflow (checked_add_usize hdr_len str_off)) (\<lambda>str_start.
           bind_result (ok_or SectionOverflow (checked_add_usize str_start str_len)) (\<lambda>str_end.
           if length data < type_end \<or> length data < str_end \<or> str_start < type_end
           then Inl SectionsBeyondBuffer
           else Inr \<lparr>b_data = data, b_hdr_len = hdr_len, b_type_off = type_off,
                      b_type_len = type_len, b_str_off = str_off, b_str_len = str_len\<rparr>))))"

section \<open>Strings and words\<close>

definition btf_string :: "btf \<Rightarrow> u32 \<Rightarrow> btf_error + string" where
  "btf_string b offset =
     (let str_base = b_hdr_len b + b_str_off b;
          str_end = str_base + b_str_len b;
          start = str_base + unat offset
      in if str_end \<le> start then Inl (StringOutside offset)
         else let bytes = takeWhile (\<lambda>c. c \<noteq> 0) (field start (str_end - start) (b_data b))
              in if valid_utf8 bytes then Inr (map char_of_u8 bytes) else Inl StringInvalidUtf8)"

definition btf_read_u32 :: "btf \<Rightarrow> nat \<Rightarrow> u32" where
  "btf_read_u32 b off = (if off + 4 \<le> length (b_data b) then u32_at off (b_data b) else 0)"

definition extra_bytes :: "u32 \<Rightarrow> nat \<Rightarrow> nat" where
  "extra_bytes kind vlen =
     (if kind = 1 then 4
      else if kind = 3 then 12
      else if kind = 4 \<or> kind = 5 then 12 * vlen
      else if kind = 6 then 8 * vlen
      else if kind = 13 then 8 * vlen
      else if kind = 14 then 4
      else if kind = 15 then 12 * vlen
      else if kind = 17 then 4
      else if kind = 19 then 12 * vlen
      else 0)"

section \<open>The walk\<close>

definition info_kind :: "u32 \<Rightarrow> u32" where
  "info_kind info = drop_bit 24 info AND 0x1f"

definition info_vlen :: "u32 \<Rightarrow> nat" where
  "info_vlen info = unat (info AND 0xffff)"

fun scan_members :: "btf \<Rightarrow> string \<Rightarrow> string \<Rightarrow> nat \<Rightarrow> nat \<Rightarrow> nat list \<Rightarrow> btf_error + u64" where
  "scan_members b struct_name field_name ty_end member_base [] =
     Inl (FieldNotFound field_name struct_name)"
| "scan_members b struct_name field_name ty_end member_base (i # is) =
     (let m_off = member_base + i * 12
      in if ty_end < m_off + 12 then Inl (TruncatedMembers struct_name)
         else let m_name_off = btf_read_u32 b m_off;
                  m_bit_offset = btf_read_u32 b (m_off + 8)
              in bind_result (btf_string b m_name_off) (\<lambda>name.
                   if name = field_name then Inr (ucast m_bit_offset div 8)
                   else scan_members b struct_name field_name ty_end member_base is))"

function btf_walk :: "btf \<Rightarrow> string \<Rightarrow> string \<Rightarrow> nat \<Rightarrow> nat \<Rightarrow> btf_error + u64" where
  "btf_walk b struct_name field_name ty_end pos =
     (if pos + 12 \<le> ty_end then
        (let name_off = btf_read_u32 b pos;
             info = btf_read_u32 b (pos + 4);
             kind = info_kind info;
             vlen = info_vlen info;
             next = (case checked_add_usize pos (12 + extra_bytes kind vlen) of
                       None \<Rightarrow> Inl WalkOverflow
                     | Some pos \<Rightarrow> btf_walk b struct_name field_name ty_end pos)
         in if kind = BTF_KIND_STRUCT
            then bind_result (btf_string b name_off) (\<lambda>name.
                   if name = struct_name
                   then scan_members b struct_name field_name ty_end (pos + 12) [0..<vlen]
                   else next)
            else next)
      else Inl (StructNotFound struct_name))"
  by pat_completeness auto
termination
  by (relation "measure (\<lambda>(b, s, f, ty_end, pos). ty_end - pos)")
    (auto simp: checked_add_usize_def split: if_splits)

declare btf_walk.simps [simp del]

definition struct_field_offset :: "btf \<Rightarrow> string \<Rightarrow> string \<Rightarrow> btf_error + u64" where
  "struct_field_offset b struct_name field_name =
     (let base = b_hdr_len b + b_type_off b;
          ty_end = base + b_type_len b
      in btf_walk b struct_name field_name ty_end base)"

section \<open>The offset table\<close>

record task_field_offsets =
  task_real_parent :: u64
  task_tgid :: u64
  task_cred :: u64
  cred_euid :: u64
  task_signal :: u64
  signal_tty :: u64
  tty_index :: u64
  task_files :: u64
  files_fdt :: u64
  fdt_fd :: u64
  file_inode :: u64
  inode_rdev :: u64

definition offsets_as_array :: "task_field_offsets \<Rightarrow> u64 list" where
  "offsets_as_array t =
     [task_real_parent t, task_tgid t, task_cred t, cred_euid t, task_signal t, signal_tty t,
      tty_index t, task_files t, files_fdt t, fdt_fd t, file_inode t, inode_rdev t]"

text \<open>\<open>sysfs\<close> is what reading \<open>/sys/kernel/btf/vmlinux\<close> gives; an unreadable file is an error.\<close>

datatype resolve_error = SysfsUnreadable | InBtf btf_error | InField string btf_error

definition btf_from_sys_fs :: "u8 list option \<Rightarrow> resolve_error + btf" where
  "btf_from_sys_fs sysfs =
     (case sysfs of
        None \<Rightarrow> Inl SysfsUnreadable
      | Some data \<Rightarrow> (case btf_from_bytes data of Inl e \<Rightarrow> Inl (InBtf e) | Inr b \<Rightarrow> Inr b))"

definition with_context :: "string \<Rightarrow> btf_error + 'a \<Rightarrow> resolve_error + 'a" where
  "with_context c r = (case r of Inl e \<Rightarrow> Inl (InField c e) | Inr v \<Rightarrow> Inr v)"

definition resolve_task_field_offsets :: "u8 list option \<Rightarrow> resolve_error + task_field_offsets" where
  "resolve_task_field_offsets sysfs =
     bind_result (btf_from_sys_fs sysfs) (\<lambda>btf.
     bind_result (with_context ''task_struct.real_parent''
       (struct_field_offset btf ''task_struct'' ''real_parent'')) (\<lambda>real_parent.
     bind_result (with_context ''task_struct.tgid''
       (struct_field_offset btf ''task_struct'' ''tgid'')) (\<lambda>tgid.
     bind_result (with_context ''task_struct.cred''
       (struct_field_offset btf ''task_struct'' ''cred'')) (\<lambda>cred.
     bind_result (with_context ''cred.euid''
       (struct_field_offset btf ''cred'' ''euid'')) (\<lambda>euid.
     bind_result (with_context ''task_struct.signal''
       (struct_field_offset btf ''task_struct'' ''signal'')) (\<lambda>signal.
     bind_result (with_context ''signal_struct.tty''
       (struct_field_offset btf ''signal_struct'' ''tty'')) (\<lambda>tty.
     bind_result (with_context ''tty_struct.index''
       (struct_field_offset btf ''tty_struct'' ''index'')) (\<lambda>index.
     bind_result (with_context ''task_struct.files''
       (struct_field_offset btf ''task_struct'' ''files'')) (\<lambda>files.
     bind_result (with_context ''files_struct.fdt''
       (struct_field_offset btf ''files_struct'' ''fdt'')) (\<lambda>fdt.
     bind_result (with_context ''fdtable.fd''
       (struct_field_offset btf ''fdtable'' ''fd'')) (\<lambda>fd.
     bind_result (with_context ''file.f_inode''
       (struct_field_offset btf ''file'' ''f_inode'')) (\<lambda>f_inode.
     bind_result (with_context ''inode.i_rdev''
       (struct_field_offset btf ''inode'' ''i_rdev'')) (\<lambda>rdev.
     Inr \<lparr>task_real_parent = real_parent, task_tgid = tgid, task_cred = cred, cred_euid = euid,
          task_signal = signal, signal_tty = tty, tty_index = index, task_files = files,
          files_fdt = fdt, fdt_fd = fd, file_inode = f_inode, inode_rdev = rdev\<rparr>)))))))))))))"

section \<open>Well-formed tables\<close>

definition wf_btf :: "btf \<Rightarrow> bool" where
  "wf_btf b \<longleftrightarrow>
     b_hdr_len b + b_type_off b + b_type_len b \<le> b_hdr_len b + b_str_off b
     \<and> b_hdr_len b + b_str_off b + b_str_len b \<le> length (b_data b)
     \<and> b_hdr_len b + b_type_off b + b_type_len b < 2 ^ 34"

lemma unat_u32_small: "unat (w :: u32) < 4294967296"
  using unat_bound [of w] by simp

lemma btf_from_bytes_Inr:
  assumes "btf_from_bytes data = Inr b"
  shows "wf_btf b" "b_data b = data"
proof -
  have "unat (u32_at 4 data) < 2 ^ 32" "unat (u32_at 8 data) < 2 ^ 32" "unat (u32_at 12 data) < 2 ^ 32"
    by (simp_all add: unat_u32_small)
  with assms show "wf_btf b" "b_data b = data"
    by (auto simp: btf_from_bytes_def Let_def checked_add_usize_def wf_btf_def bind_result_Inr_iff
        ok_or_def split: if_splits)
qed

lemma info_vlen_bound: "info_vlen info < 65536"
proof -
  have "info_vlen info \<le> unat (0xffff :: u32)"
    unfolding info_vlen_def by (rule word_le_nat_alt [THEN iffD1]) (rule word_and_le1)
  then show ?thesis by simp
qed

lemma extra_bytes_bound: "extra_bytes kind (info_vlen info) \<le> 12 * 65536"
  using info_vlen_bound [of info] by (auto simp: extra_bytes_def)

section \<open>Abstract entries\<close>

datatype btf_entry =
    BtfStruct u32 u32 u32 "(u32 \<times> u32 \<times> u32) list"
  | BtfOther u32 u32 u32 "u8 list"

fun entry_info :: "btf_entry \<Rightarrow> u32" where
  "entry_info (BtfStruct _ info _ _) = info"
| "entry_info (BtfOther _ info _ _) = info"

definition member_bytes :: "u32 \<times> u32 \<times> u32 \<Rightarrow> u8 list" where
  "member_bytes m = (case m of (name_off, ty, bit_off) \<Rightarrow>
     u32_bytes name_off @ u32_bytes ty @ u32_bytes bit_off)"

fun entry_bytes :: "btf_entry \<Rightarrow> u8 list" where
  "entry_bytes (BtfStruct name_off info sz members) =
     u32_bytes name_off @ u32_bytes info @ u32_bytes sz @ concat (map member_bytes members)"
| "entry_bytes (BtfOther name_off info sz extra) =
     u32_bytes name_off @ u32_bytes info @ u32_bytes sz @ extra"

fun wf_entry :: "btf_entry \<Rightarrow> bool" where
  "wf_entry (BtfStruct _ info _ members) \<longleftrightarrow>
     info_kind info = BTF_KIND_STRUCT \<and> length members = info_vlen info"
| "wf_entry (BtfOther _ info _ extra) \<longleftrightarrow>
     info_kind info \<noteq> BTF_KIND_STRUCT
     \<and> length extra = extra_bytes (info_kind info) (info_vlen info)"

text \<open>What the search means: the first struct of that name, in it the first field of that name.\<close>

fun find_member :: "(u32 \<Rightarrow> btf_error + string) \<Rightarrow> string \<Rightarrow> string \<Rightarrow> (u32 \<times> u32 \<times> u32) list
    \<Rightarrow> btf_error + u64" where
  "find_member name_of s f [] = Inl (FieldNotFound f s)"
| "find_member name_of s f ((n, ty, bit_off) # ms) =
     bind_result (name_of n) (\<lambda>name. if name = f then Inr (ucast bit_off div 8)
       else find_member name_of s f ms)"

fun find_field :: "(u32 \<Rightarrow> btf_error + string) \<Rightarrow> string \<Rightarrow> string \<Rightarrow> btf_entry list
    \<Rightarrow> btf_error + u64" where
  "find_field name_of s f [] = Inl (StructNotFound s)"
| "find_field name_of s f (BtfStruct n info sz ms # es) =
     bind_result (name_of n) (\<lambda>name. if name = s then find_member name_of s f ms
       else find_field name_of s f es)"
| "find_field name_of s f (BtfOther n info sz extra # es) = find_field name_of s f es"

section \<open>Refinement\<close>

lemma length_member_bytes [simp]: "length (member_bytes m) = 12"
  by (simp add: member_bytes_def split: prod.splits)

lemma length_members [simp]: "length (concat (map member_bytes ms)) = 12 * length ms"
  by (induction ms) simp_all

lemma length_entry_bytes:
  "wf_entry e \<Longrightarrow> length (entry_bytes e) = 12 + extra_bytes (info_kind (entry_info e)) (info_vlen (entry_info e))"
  by (cases e) (simp_all add: extra_bytes_def BTF_KIND_STRUCT_def)

lemma read_at:
  assumes "b_data b = pre @ u32_bytes w @ rest" "length pre = off"
  shows "btf_read_u32 b off = w"
  using assms by (auto simp: btf_read_u32_def u32_at_append)

text \<open>The reads of a type header and of a member.\<close>

lemma read_three:
  assumes "b_data b = pre @ (u32_bytes x @ u32_bytes y @ u32_bytes z) @ rest" "length pre = off"
  shows "btf_read_u32 b off = x" "btf_read_u32 b (off + 4) = y" "btf_read_u32 b (off + 8) = z"
  using read_at [of b pre x "u32_bytes y @ u32_bytes z @ rest" off]
    read_at [of b "pre @ u32_bytes x" y "u32_bytes z @ rest" "off + 4"]
    read_at [of b "pre @ u32_bytes x @ u32_bytes y" z rest "off + 8"] assms
  by simp_all

lemma scan_members_refines:
  assumes "b_data b = pre @ concat (map member_bytes ms) @ rest"
    and "length pre = member_base + 12 * i" "i + length ms = n"
    and "member_base + 12 * n \<le> ty_end"
  shows "scan_members b s f ty_end member_base [i..<n] = find_member (btf_string b) s f ms"
  using assms
proof (induction ms arbitrary: pre i)
  case Nil
  then show ?case by simp
next
  case (Cons m ms)
  obtain x y z where m: "m = (x, y, z)" by (cases m)
  have upt: "[i..<n] = i # [Suc i..<n]" using Cons.prems by (simp add: upt_conv_Cons)
  have mb: "member_bytes m = u32_bytes x @ u32_bytes y @ u32_bytes z"
    by (simp add: m member_bytes_def)
  have r: "btf_read_u32 b (member_base + i * 12) = x" "btf_read_u32 b (member_base + i * 12 + 8) = z"
    using read_three [of b pre x y z "concat (map member_bytes ms) @ rest" "member_base + i * 12"]
      Cons.prems by (simp_all add: mb)
  have bound: "\<not> ty_end < member_base + i * 12 + 12" using Cons.prems by simp
  have "scan_members b s f ty_end member_base [Suc i..<n] = find_member (btf_string b) s f ms"
    using Cons.prems by (intro Cons.IH [of "pre @ member_bytes m"]) simp_all
  then show ?case using bound by (simp add: upt m r Let_def cong: if_cong)
qed

lemma btf_walk_refines:
  assumes "b_data b = pre @ concat (map entry_bytes es) @ rest"
    and "length pre = pos" "pos + length (concat (map entry_bytes es)) = ty_end"
    and "list_all wf_entry es" "ty_end < 2 ^ 64"
  shows "btf_walk b s f ty_end pos = find_field (btf_string b) s f es"
  using assms
proof (induction es arbitrary: pre pos)
  case Nil
  then show ?case by (simp add: btf_walk.simps)
next
  case (Cons e es)
  have e: "wf_entry e" using Cons.prems by simp
  let ?step = "12 + extra_bytes (info_kind (entry_info e)) (info_vlen (entry_info e))"
  have step: "length (entry_bytes e) = ?step" using e by (rule length_entry_bytes)
  have "pos + 12 \<le> ty_end" "pos + ?step < 2 ^ 64" using Cons.prems step by auto
  then have add: "checked_add_usize pos ?step = Some (pos + ?step)" by (simp add: checked_add_usize_def)
  have rest: "btf_walk b s f ty_end (pos + ?step) = find_field (btf_string b) s f es"
    using Cons.prems step by (intro Cons.IH [of "pre @ entry_bytes e"]) simp_all
  show ?case
  proof (cases e)
    case (BtfStruct n info sz ms)
    have r: "btf_read_u32 b pos = n" "btf_read_u32 b (pos + 4) = info"
      using read_three [of b pre n info sz "concat (map member_bytes ms) @
          concat (map entry_bytes es) @ rest" pos] Cons.prems BtfStruct by simp_all
    have "scan_members b s f ty_end (pos + 12) [0..<info_vlen info] = find_member (btf_string b) s f ms"
      using Cons.prems BtfStruct
      by (intro scan_members_refines [where pre = "pre @ u32_bytes n @ u32_bytes info @ u32_bytes sz"
            and rest = "concat (map entry_bytes es) @ rest"]) simp_all
    then show ?thesis
      using \<open>pos + 12 \<le> ty_end\<close> e add rest
      by (subst btf_walk.simps) (simp add: BtfStruct r Let_def cong: if_cong)
  next
    case (BtfOther n info sz extra)
    have r: "btf_read_u32 b pos = n" "btf_read_u32 b (pos + 4) = info"
      using read_three [of b pre n info sz "extra @ concat (map entry_bytes es) @ rest" pos]
        Cons.prems BtfOther by simp_all
    show ?thesis
      using \<open>pos + 12 \<le> ty_end\<close> e add rest
      by (subst btf_walk.simps) (simp add: BtfOther r Let_def cong: if_cong)
  qed
qed

lemma field_split: "bs = take o1 bs @ field o1 n bs @ drop (o1 + n) bs"
  by (metis append_take_drop_id field_def drop_drop add.commute)

text \<open>The type section of an opened table.\<close>

definition type_section :: "btf \<Rightarrow> u8 list" where
  "type_section b = field (b_hdr_len b + b_type_off b) (b_type_len b) (b_data b)"

lemma lookup_searches_entries:
  assumes "btf_from_bytes data = Inr b"
    and "type_section b = concat (map entry_bytes es)" "list_all wf_entry es"
  shows "struct_field_offset b s f = find_field (btf_string b) s f es"
proof -
  let ?base = "b_hdr_len b + b_type_off b"
  have wf: "wf_btf b" and data: "b_data b = data"
    using btf_from_bytes_Inr [OF assms(1)] by simp_all
  have len: "?base + b_type_len b \<le> length (b_data b)" using wf by (simp add: wf_btf_def)
  then have n: "length (concat (map entry_bytes es)) = b_type_len b"
    unfolding assms(2) [symmetric] by (simp add: type_section_def)
  have "b_data b = take ?base (b_data b) @ type_section b @ drop (?base + b_type_len b) (b_data b)"
    by (simp add: type_section_def field_split)
  then have split: "b_data b = take ?base (b_data b) @ concat (map entry_bytes es)
      @ drop (?base + b_type_len b) (b_data b)"
    unfolding assms(2) .
  have "?base + b_type_len b < 2 ^ 64" using wf by (simp add: wf_btf_def)
  then show ?thesis
    unfolding struct_field_offset_def Let_def
    using split len n assms(3) by (intro btf_walk_refines [OF split]) simp_all
qed


section \<open>Building a table\<close>

text \<open>
  A blob with the given entries and string table, laid out as the tests of the source lay it out:
  a 24-byte header, the type section, the strings.
\<close>

definition btf_blob :: "btf_entry list \<Rightarrow> string \<Rightarrow> u8 list" where
  "btf_blob es strings =
     (let types = concat (map entry_bytes es)
      in [0x9F, 0xEB, 1, 0] @ u32_bytes 24 @ u32_bytes 0 @ u32_bytes (of_nat (length types)) @
         u32_bytes (of_nat (length types)) @ u32_bytes (of_nat (length strings)) @
         types @ bytes_of strings)"

definition btf_table :: "btf_entry list \<Rightarrow> string \<Rightarrow> btf" where
  "btf_table es strings =
     (let n = length (concat (map entry_bytes es))
      in \<lparr>b_data = btf_blob es strings, b_hdr_len = 24, b_type_off = 0, b_type_len = n,
          b_str_off = n, b_str_len = length strings\<rparr>)"

lemma btf_open_blob:
  assumes "length (concat (map entry_bytes es)) < 2 ^ 31" "length strings < 2 ^ 31"
  shows "btf_from_bytes (btf_blob es strings) = Inr (btf_table es strings)"
proof -
  let ?n = "length (concat (map entry_bytes es))"
  have n: "unat (of_nat ?n :: u32) = ?n" and m: "unat (of_nat (length strings) :: u32) = length strings"
    using assms by (simp_all add: unat_of_nat take_bit_nat_def)
  have magic: "field 0 2 (btf_blob es strings) = [0x9F, 0xEB]"
    by (simp add: btf_blob_def Let_def field_def numeral_2_eq_2)
  have at: "u32_at 4 (btf_blob es strings) = 24" "u32_at 8 (btf_blob es strings) = 0"
    "u32_at 12 (btf_blob es strings) = of_nat ?n" "u32_at 16 (btf_blob es strings) = of_nat ?n"
    "u32_at 20 (btf_blob es strings) = of_nat (length strings)"
    unfolding btf_blob_def Let_def by (simp_all add: u32_at_append del: append_Cons length_concat)
  have len: "length (btf_blob es strings) = 24 + ?n + length strings"
    by (simp add: btf_blob_def Let_def)
  show ?thesis
    unfolding btf_from_bytes_def Let_def magic at n m len btf_table_def
    using assms by (simp add: BTF_MAGIC_def checked_add_usize_def)
qed

lemma btf_table_types: "type_section (btf_table es strings) = concat (map entry_bytes es)"
  by (simp add: type_section_def btf_table_def btf_blob_def Let_def field_append_skip
      field_append_in field_all del: append_Cons length_concat)

lemma takeWhile_bytes_of:
  "takeWhile (\<lambda>c. c \<noteq> 0) (bytes_of s) = bytes_of (takeWhile (\<lambda>c. u8_of_char c \<noteq> 0) s)"
  by (simp add: takeWhile_map comp_def)

lemma btf_table_string:
  "btf_string (btf_table es strings) off =
     (if length strings \<le> unat off then Inl (StringOutside off)
      else let s = takeWhile (\<lambda>c. u8_of_char c \<noteq> 0) (drop (unat off) strings)
           in if valid_string s then Inr s else Inl StringInvalidUtf8)"
proof -
  let ?n = "length (concat (map entry_bytes es))"
  have "field (24 + ?n + unat off) (length strings - unat off) (btf_blob es strings)
      = bytes_of (drop (unat off) strings)"
    by (simp add: btf_blob_def Let_def field_append_skip field_def drop_map del: append_Cons length_concat)
  then show ?thesis
    by (simp add: btf_string_def btf_table_def Let_def takeWhile_bytes_of valid_string_def
        comp_def del: length_concat)
qed

definition cred_entry :: btf_entry where
  "cred_entry = BtfStruct 1 0x04000001 8 [(6, 0, 64)]"

definition cred_strings :: string where
  "cred_strings = CHR 0x00 # ''cred'' @ CHR 0x00 # ''euid'' @ [CHR 0x00]"

lemma wf_cred_entry: "list_all wf_entry [cred_entry]"
  by (simp add: cred_entry_def info_kind_def info_vlen_def BTF_KIND_STRUCT_def)

lemma cred_opens: "btf_from_bytes (btf_blob [cred_entry] cred_strings) = Inr (btf_table [cred_entry] cred_strings)"
  by (rule btf_open_blob) (simp_all add: cred_entry_def cred_strings_def)

lemma cred_search: "find_field (btf_string (btf_table [cred_entry] cred_strings)) ''cred'' ''euid'' [cred_entry] = Inr 8"
proof -
  have "valid_string ''cred''" "valid_string ''euid''"
    by (simp_all add: valid_ascii u8_of_char_def)
  then show ?thesis
    by (simp add: cred_entry_def btf_table_string cred_strings_def u8_of_char_def Let_def)
qed

text \<open>
  C3: For every blob that the reader opens and every list of entries that its type section
  encodes, looking up a field of a struct gives exactly what a search of the entries gives: the bit
  offset divided by 8 of the first field of that name in the first struct of that name, or the
  error for a missing struct, a missing field or a bad string on the way.
\<close>

theorem struct_field_offset_refines:
  assumes "btf_from_bytes data = Inr b"
    and "type_section b = concat (map entry_bytes es)" "list_all wf_entry es"
  shows "struct_field_offset b s f = find_field (btf_string b) s f es"
  using assms by (rule lookup_searches_entries)

theorem struct_field_offset_refines_witness:
  "struct_field_offset (btf_table [cred_entry] cred_strings) ''cred'' ''euid'' = Inr 8"
  using struct_field_offset_refines [OF cred_opens btf_table_types wf_cred_entry, of "''cred''" "''euid''"]
  by (simp add: cred_search)

section \<open>Bounds\<close>

lemma scan_members_no_overflow: "scan_members b s f e m is \<noteq> Inl WalkOverflow"
  by (induction "is") (auto simp: Let_def bind_result_def btf_string_def split: sum.splits if_splits)

lemma btf_walk_no_overflow:
  assumes "ty_end < 2 ^ 34"
  shows "btf_walk b s f ty_end pos \<noteq> Inl WalkOverflow"
  using assms
proof (induction b s f ty_end pos rule: btf_walk.induct)
  case (1 b s f ty_end pos)
  let ?info = "btf_read_u32 b (pos + 4)"
  have add: "pos + 12 \<le> ty_end \<Longrightarrow> checked_add_usize pos (12 + extra_bytes (info_kind ?info) (info_vlen ?info))
      = Some (pos + (12 + extra_bytes (info_kind ?info) (info_vlen ?info)))"
    using "1.prems" extra_bytes_bound [of "info_kind ?info" ?info] by (simp add: checked_add_usize_def)
  show ?case
    using 1 add scan_members_no_overflow
    by (subst btf_walk.simps) (auto simp: Let_def bind_result_def btf_string_def split: sum.splits if_splits)
qed

lemma scan_members_bound: "scan_members b s f e m is = Inr off \<Longrightarrow> unat off < 2 ^ 29"
proof (induction "is")
  case Nil
  then show ?case by simp
next
  case (Cons i "is")
  have "unat (ucast (w :: u32) div 8 :: u64) < 2 ^ 29" for w
    using unat_u32_small [of w] by (simp add: unat_div_distrib unsigned_ucast_eq take_bit_nat_def)
  with Cons show ?case
    by (auto simp: Let_def bind_result_Inr_iff split: if_splits)
qed

lemma btf_walk_bound: "btf_walk b s f ty_end pos = Inr off \<Longrightarrow> unat off < 2 ^ 29"
proof (induction b s f ty_end pos rule: btf_walk.induct)
  case (1 b s f ty_end pos)
  from "1.prems" have "(if pos + 12 \<le> ty_end then
      (let name_off = btf_read_u32 b pos; info = btf_read_u32 b (pos + 4); kind = info_kind info;
           vlen = info_vlen info;
           next = (case checked_add_usize pos (12 + extra_bytes kind vlen) of
                     None \<Rightarrow> Inl WalkOverflow | Some pos \<Rightarrow> btf_walk b s f ty_end pos)
       in if kind = BTF_KIND_STRUCT
          then bind_result (btf_string b name_off) (\<lambda>name.
                 if name = s then scan_members b s f ty_end (pos + 12) [0..<vlen] else next)
          else next)
    else Inl (StructNotFound s)) = Inr off"
    by (subst (asm) btf_walk.simps)
  with "1.IH" show ?case
    by (auto simp: Let_def bind_result_Inr_iff dest: scan_members_bound split: if_splits option.splits)
qed


text \<open>
  C35: On every blob that the reader opens, the walk over the type section never leaves the address
  range (the overflow error is unreachable), and an offset it returns is below 2^29, the largest
  32-bit bit offset divided by 8.
\<close>

theorem struct_field_offset_bounded:
  assumes "btf_from_bytes data = Inr b"
  shows "struct_field_offset b s f \<noteq> Inl WalkOverflow
    \<and> (\<forall>off. struct_field_offset b s f = Inr off \<longrightarrow> unat off < 2 ^ 29)"
proof -
  have "b_hdr_len b + b_type_off b + b_type_len b < 2 ^ 34"
    using btf_from_bytes_Inr(1) [OF assms] by (simp add: wf_btf_def)
  then show ?thesis
    unfolding struct_field_offset_def Let_def
    using btf_walk_no_overflow btf_walk_bound by blast
qed

theorem struct_field_offset_bounded_witness:
  "struct_field_offset (btf_table [cred_entry] cred_strings) ''cred'' ''gid'' \<noteq> Inl WalkOverflow"
  using struct_field_offset_bounded [OF cred_opens] by simp

section \<open>Resolving all offsets\<close>

text \<open>The fields in the order of the offset table.\<close>

definition resolved_fields :: "(string \<times> string) list" where
  "resolved_fields =
     [(''task_struct'', ''real_parent''), (''task_struct'', ''tgid''), (''task_struct'', ''cred''),
      (''cred'', ''euid''), (''task_struct'', ''signal''), (''signal_struct'', ''tty''),
      (''tty_struct'', ''index''), (''task_struct'', ''files''), (''files_struct'', ''fdt''),
      (''fdtable'', ''fd''), (''file'', ''f_inode''), (''inode'', ''i_rdev'')]"

lemma with_context_Inr_iff [simp]: "with_context c r = Inr v \<longleftrightarrow> r = Inr v"
  by (cases r) (simp_all add: with_context_def)

lemma resolve_Inr:
  assumes "resolve_task_field_offsets sysfs = Inr t"
  shows "\<exists>data b. sysfs = Some data \<and> btf_from_bytes data = Inr b
    \<and> map (\<lambda>(s, f). struct_field_offset b s f) resolved_fields = map Inr (offsets_as_array t)"
proof -
  from assms obtain b where b: "btf_from_sys_fs sysfs = Inr b"
    by (auto simp: resolve_task_field_offsets_def bind_result_Inr_iff)
  then obtain data where "sysfs = Some data" "btf_from_bytes data = Inr b"
    by (auto simp: btf_from_sys_fs_def split: option.splits sum.splits)
  moreover have "map (\<lambda>(s, f). struct_field_offset b s f) resolved_fields = map Inr (offsets_as_array t)"
    using assms
    by (auto simp: resolve_task_field_offsets_def bind_result_Inr_iff b offsets_as_array_def
        resolved_fields_def)
  ultimately show ?thesis by blast
qed


section \<open>A complete sample table\<close>

definition kernel_strings :: string where
  "kernel_strings = CHR 0x00 # concat (map (\<lambda>s. s @ [CHR 0x00])
     [''task_struct'', ''real_parent'', ''tgid'', ''cred'', ''euid'', ''signal'', ''signal_struct'',
      ''tty'', ''tty_struct'', ''index'', ''files'', ''files_struct'', ''fdt'', ''fdtable'', ''fd'',
      ''file'', ''f_inode'', ''inode'', ''i_rdev''])"

definition kernel_entries :: "btf_entry list" where
  "kernel_entries =
     [BtfOther 0 0x01000000 4 [0, 0, 0, 0],
      BtfStruct 1 0x04000005 0 [(13, 0, 80), (25, 0, 160), (30, 0, 240), (40, 0, 320), (82, 0, 400)],
      BtfStruct 30 0x04000001 0 [(35, 0, 88)], BtfStruct 47 0x04000001 0 [(61, 0, 96)],
      BtfStruct 65 0x04000001 0 [(76, 0, 104)], BtfStruct 88 0x04000001 0 [(101, 0, 112)],
      BtfStruct 105 0x04000001 0 [(113, 0, 120)], BtfStruct 116 0x04000001 0 [(121, 0, 128)],
      BtfStruct 129 0x04000001 0 [(135, 0, 136)]]"

lemma kernel_names:
  "btf_string (btf_table es kernel_strings) 1 = Inr ''task_struct''"
  "btf_string (btf_table es kernel_strings) 13 = Inr ''real_parent''"
  "btf_string (btf_table es kernel_strings) 25 = Inr ''tgid''"
  "btf_string (btf_table es kernel_strings) 30 = Inr ''cred''"
  "btf_string (btf_table es kernel_strings) 35 = Inr ''euid''"
  "btf_string (btf_table es kernel_strings) 40 = Inr ''signal''"
  "btf_string (btf_table es kernel_strings) 47 = Inr ''signal_struct''"
  "btf_string (btf_table es kernel_strings) 61 = Inr ''tty''"
  "btf_string (btf_table es kernel_strings) 65 = Inr ''tty_struct''"
  "btf_string (btf_table es kernel_strings) 76 = Inr ''index''"
  "btf_string (btf_table es kernel_strings) 82 = Inr ''files''"
  "btf_string (btf_table es kernel_strings) 88 = Inr ''files_struct''"
  "btf_string (btf_table es kernel_strings) 101 = Inr ''fdt''"
  "btf_string (btf_table es kernel_strings) 105 = Inr ''fdtable''"
  "btf_string (btf_table es kernel_strings) 113 = Inr ''fd''"
  "btf_string (btf_table es kernel_strings) 116 = Inr ''file''"
  "btf_string (btf_table es kernel_strings) 121 = Inr ''f_inode''"
  "btf_string (btf_table es kernel_strings) 129 = Inr ''inode''"
  "btf_string (btf_table es kernel_strings) 135 = Inr ''i_rdev''"
  by (simp_all add: btf_table_string kernel_strings_def u8_of_char_def Let_def valid_ascii)

lemma kernel_opens: "btf_from_bytes (btf_blob kernel_entries kernel_strings) = Inr (btf_table kernel_entries kernel_strings)"
  by (rule btf_open_blob) (simp_all add: kernel_entries_def kernel_strings_def)

lemma wf_kernel_entries: "list_all wf_entry kernel_entries"
  by (simp add: kernel_entries_def info_kind_def info_vlen_def BTF_KIND_STRUCT_def extra_bytes_def)

lemma kernel_resolves:
  "\<exists>t. resolve_task_field_offsets (Some (btf_blob kernel_entries kernel_strings)) = Inr t \<and>
    offsets_as_array t = [10, 20, 30, 11, 40, 12, 13, 50, 14, 15, 16, 17]"
proof -
  note lookup = lookup_searches_entries [OF kernel_opens btf_table_types wf_kernel_entries]
  show ?thesis 
   by (simp add: resolve_task_field_offsets_def btf_from_sys_fs_def kernel_opens lookup with_context_def
     offsets_as_array_def) (simp add: kernel_entries_def kernel_names)
qed

end
