(* ===== verification/Text.thy ===== *)
theory Text
  imports Utf8
begin

text \<open>
  The string operations of the Rust standard library that the web server uses, on UTF-8 strings:
  trimming and splitting at Unicode white space, splitting at an ASCII character, joining, replacing,
  \<open>lines\<close>, and reading and printing decimal numbers.
\<close>

section \<open>Characters\<close>

text \<open>The white space of Unicode (\<open>char::is_whitespace\<close>), each character as its UTF-8 bytes.\<close>

definition white_space :: "string list" where
  "white_space =
     [[CHR 0x09], [CHR 0x0A], [CHR 0x0B], [CHR 0x0C], [CHR 0x0D], [CHR 0x20],
      [CHR 0xC2, CHR 0x85], [CHR 0xC2, CHR 0xA0], [CHR 0xE1, CHR 0x9A, CHR 0x80],
      [CHR 0xE2, CHR 0x80, CHR 0x80], [CHR 0xE2, CHR 0x80, CHR 0x81], [CHR 0xE2, CHR 0x80, CHR 0x82],
      [CHR 0xE2, CHR 0x80, CHR 0x83], [CHR 0xE2, CHR 0x80, CHR 0x84], [CHR 0xE2, CHR 0x80, CHR 0x85],
      [CHR 0xE2, CHR 0x80, CHR 0x86], [CHR 0xE2, CHR 0x80, CHR 0x87], [CHR 0xE2, CHR 0x80, CHR 0x88],
      [CHR 0xE2, CHR 0x80, CHR 0x89], [CHR 0xE2, CHR 0x80, CHR 0x8A], [CHR 0xE2, CHR 0x80, CHR 0xA8],
      [CHR 0xE2, CHR 0x80, CHR 0xA9], [CHR 0xE2, CHR 0x80, CHR 0xAF], [CHR 0xE2, CHR 0x81, CHR 0x9F],
      [CHR 0xE3, CHR 0x80, CHR 0x80]]"

definition is_white :: "string \<Rightarrow> bool" where
  "is_white ch = List.member white_space ch"

definition is_digit :: "char \<Rightarrow> bool" where
  "is_digit c \<longleftrightarrow> 0x30 \<le> u8_of_char c \<and> u8_of_char c \<le> 0x39"

section \<open>Trimming and splitting\<close>

definition trim_chars :: "string list \<Rightarrow> string list" where
  "trim_chars cs = rev (dropWhile is_white (rev (dropWhile is_white cs)))"

definition str_trim :: "string \<Rightarrow> string" where
  "str_trim s = concat (trim_chars (str_chars s))"

function split_words :: "string list \<Rightarrow> string list" where
  "split_words cs =
     (case dropWhile is_white cs of
        [] \<Rightarrow> []
      | c # cs' \<Rightarrow>
          concat (c # takeWhile (\<lambda>c. \<not> is_white c) cs')
            # split_words (dropWhile (\<lambda>c. \<not> is_white c) cs'))"
  by pat_completeness auto

lemma dropWhile_shorter: "dropWhile P cs = c # cs' \<Longrightarrow> length (dropWhile Q cs') < length cs"
  using length_dropWhile_le [of P cs] length_dropWhile_le [of Q cs'] by simp

termination split_words
  by (relation "measure length") (auto intro: dropWhile_shorter)

declare split_words.simps [simp del]

definition split_whitespace :: "string \<Rightarrow> string list" where
  "split_whitespace s = split_words (str_chars s)"

text \<open>\<open>split_once\<close> and \<open>split\<close> at one ASCII character.\<close>

fun split_once :: "char \<Rightarrow> string \<Rightarrow> (string \<times> string) option" where
  "split_once c [] = None"
| "split_once c (x # xs) =
     (if x = c then Some ([], xs)
      else map_option (\<lambda>(a, b). (x # a, b)) (split_once c xs))"

fun str_split :: "char \<Rightarrow> string \<Rightarrow> string list" where
  "str_split c [] = [[]]"
| "str_split c (x # xs) =
     (if x = c then [] # str_split c xs
      else (case str_split c xs of [] \<Rightarrow> [[x]] | p # ps \<Rightarrow> (x # p) # ps))"

fun str_join :: "string \<Rightarrow> string list \<Rightarrow> string" where
  "str_join sep [] = []"
| "str_join sep [s] = s"
| "str_join sep (s # t # ss) = s @ sep @ str_join sep (t # ss)"

definition str_replace :: "char \<Rightarrow> string \<Rightarrow> string \<Rightarrow> string" where
  "str_replace c r s = concat (map (\<lambda>x. if x = c then r else [x]) s)"

definition strip_cr :: "string \<Rightarrow> string" where
  "strip_cr s = (if s \<noteq> [] \<and> last s = CHR 0x0D then butlast s else s)"

text \<open>\<open>str::lines\<close>: a final line break does not start another line.\<close>

definition str_lines :: "string \<Rightarrow> string list" where
  "str_lines s =
     (let parts = str_split (CHR 0x0A) s;
          n = length parts - 1
      in map strip_cr (take n parts) @ (if last parts = [] then [] else [last parts]))"

section \<open>Numbers\<close>

definition digit_val :: "char \<Rightarrow> nat" where
  "digit_val c = unat (u8_of_char c) - 48"

definition parse_digits :: "string \<Rightarrow> nat option" where
  "parse_digits s =
     (if s \<noteq> [] \<and> list_all is_digit s then Some (foldl (\<lambda>a c. 10 * a + digit_val c) 0 s) else None)"

text \<open>\<open>str::parse\<close> for unsigned and signed integers: one sign, then digits, then the range.\<close>

definition parse_unsigned :: "nat \<Rightarrow> string \<Rightarrow> nat option" where
  "parse_unsigned bound s =
     (let digits = (case s of c # r \<Rightarrow> if c = CHR ''+'' then r else s | [] \<Rightarrow> s)
      in case parse_digits digits of
           None \<Rightarrow> None
         | Some v \<Rightarrow> if v \<le> bound then Some v else None)"

definition parse_signed :: "int \<Rightarrow> int \<Rightarrow> string \<Rightarrow> int option" where
  "parse_signed lo hi s =
     (let (neg, digits) = (case s of
            c # r \<Rightarrow> if c = CHR ''+'' then (False, r) else if c = CHR ''-'' then (True, r) else (False, s)
          | [] \<Rightarrow> (False, s))
      in case parse_digits digits of
           None \<Rightarrow> None
         | Some v \<Rightarrow> (let i = (if neg then - int v else int v)
                     in if lo \<le> i \<and> i \<le> hi then Some i else None))"

definition parse_u32 :: "string \<Rightarrow> u32 option" where
  "parse_u32 s = map_option of_nat (parse_unsigned (2 ^ 32 - 1) s)"

definition parse_i32 :: "string \<Rightarrow> i32 option" where
  "parse_i32 s = map_option of_int (parse_signed (- (2 ^ 31)) (2 ^ 31 - 1) s)"

definition parse_i64 :: "string \<Rightarrow> int option" where
  "parse_i64 s = parse_signed (- (2 ^ 63)) (2 ^ 63 - 1) s"

definition digit_char :: "nat \<Rightarrow> char" where
  "digit_char d = char_of (48 + d)"

fun dec :: "nat \<Rightarrow> string" where
  "dec n = (if n < 10 then [digit_char n] else dec (n div 10) @ [digit_char (n mod 10)])"

declare dec.simps [simp del]

definition dec_int :: "int \<Rightarrow> string" where
  "dec_int i = (if i < 0 then CHR ''-'' # dec (nat (- i)) else dec (nat i))"

section \<open>Facts about numbers\<close>

lemma u8_of_digit_char: "d < 10 \<Longrightarrow> u8_of_char (digit_char d) = of_nat (48 + d)"
  by (simp add: digit_char_def u8_of_char_def)

lemma digit_char_facts:
  assumes "d < 10"
  shows "is_digit (digit_char d)" "digit_val (digit_char d) = d" "u8_of_char (digit_char d) < 128"
proof -
  have "unat (of_nat (48 + d) :: u8) = 48 + d" using assms by (simp only: unat_of_nat_byte) simp
  then show "is_digit (digit_char d)" "digit_val (digit_char d) = d" "u8_of_char (digit_char d) < 128"
    using assms by (simp_all only: is_digit_def digit_val_def u8_of_digit_char word_le_nat_alt word_less_nat_alt)
      simp_all
qed

lemma dec_facts:
  "dec n \<noteq> [] \<and> list_all is_digit (dec n) \<and> foldl (\<lambda>a c. 10 * a + digit_val c) 0 (dec n) = n \<and> ascii (dec n)"
proof (induction n rule: dec.induct)
  case (1 n)
  show ?case
  proof (cases "n < 10")
    case True
    then show ?thesis by (simp add: dec.simps [of n] digit_char_facts)
  next
    case False
    have "n mod 10 < 10" by simp
    with 1 False digit_char_facts [OF this] show ?thesis
      by (subst (1 2 3 4) dec.simps) simp
  qed
qed

lemma parse_digits_dec [simp]: "parse_digits (dec n) = Some n"
  using dec_facts [of n] by (simp add: parse_digits_def)

lemma digit_not_sign: "is_digit c \<Longrightarrow> c \<noteq> CHR ''+'' \<and> c \<noteq> CHR ''-'' \<and> c \<noteq> CHR '':''"
  by (auto simp: is_digit_def u8_of_char_def)

lemma dec_Cons: obtains c cs where "dec n = c # cs" "is_digit c"
  using dec_facts [of n] by (cases "dec n") auto

lemma parse_unsigned_dec: "n \<le> bound \<Longrightarrow> parse_unsigned bound (dec n) = Some n"
proof -
  assume n: "n \<le> bound"
  obtain c cs where c: "dec n = c # cs" "is_digit c" by (rule dec_Cons)
  have "parse_digits (c # cs) = Some n" using parse_digits_dec [of n] c by simp
  with n c digit_not_sign [OF c(2)] show ?thesis by (simp add: parse_unsigned_def)
qed

lemma parse_u32_dec: "parse_u32 (dec (unat (w :: u32))) = Some w"
proof -
  have "unat w \<le> 2 ^ 32 - 1" using unat_bound [of w] by simp
  then show ?thesis by (simp add: parse_u32_def parse_unsigned_dec)
qed

lemma parse_signed_dec: "lo \<le> i \<Longrightarrow> i \<le> hi \<Longrightarrow> parse_signed lo hi (dec_int i) = Some i"
proof -
  assume i: "lo \<le> i" "i \<le> hi"
  obtain c cs where c: "dec (nat (abs i)) = c # cs" "is_digit c" by (rule dec_Cons)
  have "parse_digits (c # cs) = Some (nat (abs i))" using parse_digits_dec [of "nat (abs i)"] c by simp
  with i c digit_not_sign [OF c(2)] show ?thesis
    by (cases "i < 0") (simp_all add: parse_signed_def dec_int_def Let_def)
qed

lemma parse_i32_dec: "parse_i32 (dec_int (sint (w :: i32))) = Some w"
proof -
  have "- (2 ^ 31) \<le> sint w" "sint w \<le> 2 ^ 31 - 1"
    using sint_ge [of w] sint_lt [of w] by simp_all
  then show ?thesis by (simp add: parse_i32_def parse_signed_dec)
qed

section \<open>Facts about splitting\<close>

lemma split_once_Some:
  "split_once c s = Some (a, b) \<longleftrightarrow> s = a @ c # b \<and> c \<notin> set a"
proof (induction s arbitrary: a)
  case Nil
  show ?case by simp
next
  case (Cons x s)
  then show ?case by (cases a) auto
qed

lemma split_once_None: "split_once c s = None \<longleftrightarrow> c \<notin> set s"
  by (induction s) auto

lemma str_split_ne: "str_split c s \<noteq> []"
  by (induction s) (auto split: list.splits)

lemma str_split_none: "c \<notin> set s \<Longrightarrow> str_split c s = [s]"
  by (induction s) auto

lemma str_join_split: "str_join [c] (str_split c s) = s"
proof (induction s)
  case Nil
  show ?case by simp
next
  case (Cons x s)
  obtain p ps where p: "str_split c s = p # ps" using str_split_ne [of c s] by (cases "str_split c s") auto
  with Cons show ?case by (cases ps) auto
qed

lemma str_split_join:
  "ss \<noteq> [] \<Longrightarrow> \<forall>s \<in> set ss. c \<notin> set s \<Longrightarrow> str_split c (str_join [c] ss) = ss"
proof (induction "[c]" ss rule: str_join.induct)
  case (3 s t ss)
  have "str_split c (s @ c # r) = s # str_split c r" if "c \<notin> set s" for s r
    using that by (induction s) auto
  with 3 show ?case by simp
qed (auto simp: str_split_none)

lemma str_split_no_sep: "\<forall>p \<in> set (str_split c s). c \<notin> set p"
  by (induction s) (auto split: list.splits)

lemma split_words_nonwhite:
  "cs \<noteq> [] \<Longrightarrow> \<forall>c \<in> set cs. \<not> is_white c \<Longrightarrow> split_words cs = [concat cs]"
proof (cases cs)
  case (Cons c cs')
  assume "\<forall>c \<in> set cs. \<not> is_white c"
  with Cons have rest: "dropWhile (\<lambda>c. \<not> is_white c) cs' = []" "takeWhile (\<lambda>c. \<not> is_white c) cs' = cs'"
    and c: "\<not> is_white c" by simp_all
  have "split_words [] = []" by (subst split_words.simps) simp
  with c show ?thesis unfolding Cons by (subst split_words.simps) (simp add: rest)
qed simp

end
