(* ===== verification/Correlator.thy ===== *)
theory Correlator
  imports Utf8 "HOL-Library.AList"
begin

text \<open>
  The session correlator, \<open>shspectr/src/session.rs\<close>, and the session identifiers of
  \<open>shspectr-common/src/session.rs\<close>.

  The two hash maps are association lists with distinct keys; no operation depends on their
  order. A call may ask the operating system for random bytes at most once; what it would answer is
  the argument \<open>rnd\<close> of the operation, \<open>None\<close> when \<open>getrandom\<close> fails. The code panics then: an
  operation that panics returns \<open>None\<close>.
\<close>

section \<open>Session identifiers\<close>

type_synonym session_id = string

definition SESSION_ID_PREFIX :: string where "SESSION_ID_PREFIX = ''ox_''"
definition SESSION_ID_SUFFIX_LEN :: nat where "SESSION_ID_SUFFIX_LEN = 8"

definition is_ascii_alphanumeric :: "string \<Rightarrow> bool" where
  "is_ascii_alphanumeric ch = (case ch of
      [c] \<Rightarrow> (let b = u8_of_char c in (0x30 \<le> b \<and> b \<le> 0x39) \<or> (0x41 \<le> b \<and> b \<le> 0x5A) \<or> (0x61 \<le> b \<and> b \<le> 0x7A))
    | _ \<Rightarrow> False)"

definition session_id_is_valid :: "string \<Rightarrow> bool" where
  "session_id_is_valid s \<longleftrightarrow>
     length s = length SESSION_ID_PREFIX + SESSION_ID_SUFFIX_LEN
     \<and> take (length SESSION_ID_PREFIX) s = SESSION_ID_PREFIX
     \<and> list_all is_ascii_alphanumeric (str_chars (drop (length SESSION_ID_PREFIX) s))"

definition session_id_new :: "string \<Rightarrow> session_id option" where
  "session_id_new s = (if session_id_is_valid s then Some s else None)"

definition charset :: string where
  "charset = ''0123456789abcdefghijklmnopqrstuvwxyz''"

definition generate_session_id :: "u8 list option \<Rightarrow> session_id option" where
  "generate_session_id rnd =
     (case rnd of
        None \<Rightarrow> None
      | Some buf \<Rightarrow> Some (SESSION_ID_PREFIX @ map (\<lambda>b. charset ! (unat b mod length charset)) buf))"

text \<open>\<open>getrandom\<close> fills the whole buffer or fails.\<close>

definition random_ok :: "u8 list option \<Rightarrow> bool" where
  "random_ok rnd \<longleftrightarrow> (\<forall>buf. rnd = Some buf \<longrightarrow> length buf = SESSION_ID_SUFFIX_LEN)"

section \<open>State\<close>

record process_info =
  p_session_id :: session_id
  p_ppid :: u32
  p_tty_nr :: u32
  p_comm :: string
  p_execution_id :: u64

record exit_info =
  xi_session_id :: session_id
  xi_session_complete :: bool

record correlator =
  pid_map :: "(u32 \<times> process_info) list"
  tty_sessions :: "(u32 \<times> session_id) list"

definition correlator_default :: correlator where
  "correlator_default = \<lparr>pid_map = [], tty_sessions = []\<rparr>"

record event_info =
  ei_pid :: u32
  ei_ppid :: u32
  ei_tty_nr :: u32
  ei_comm :: string
  ei_execution_id :: u64

definition process_of :: "session_id \<Rightarrow> event_info \<Rightarrow> process_info" where
  "process_of sid info =
     \<lparr>p_session_id = sid, p_ppid = ei_ppid info, p_tty_nr = ei_tty_nr info,
      p_comm = ei_comm info, p_execution_id = ei_execution_id info\<rparr>"

definition tracked :: "correlator \<Rightarrow> u32 \<rightharpoonup> process_info" where
  "tracked c = map_of (pid_map c)"

section \<open>Operations\<close>

definition resolve_session :: "u8 list option \<Rightarrow> correlator \<Rightarrow> event_info \<Rightarrow> (correlator \<times> session_id) option"
where
  "resolve_session rnd c info =
     (if ei_tty_nr info \<noteq> 0 then
        (case map_of (tty_sessions c) (ei_tty_nr info) of
           Some sid \<Rightarrow> Some (c, sid)
         | None \<Rightarrow>
             (case generate_session_id rnd of
                None \<Rightarrow> None
              | Some sid \<Rightarrow>
                  Some (c\<lparr>tty_sessions := AList.update (ei_tty_nr info) sid (tty_sessions c)\<rparr>, sid)))
      else
        (case map_of (pid_map c) (ei_ppid info) of
           Some parent \<Rightarrow> Some (c, p_session_id parent)
         | None \<Rightarrow> map_option (\<lambda>sid. (c, sid)) (generate_session_id rnd)))"

definition track_new :: "u8 list option \<Rightarrow> correlator \<Rightarrow> event_info \<Rightarrow> (correlator \<times> session_id) option"
where
  "track_new rnd c info =
     (case resolve_session rnd c info of
        None \<Rightarrow> None
      | Some (c, sid) \<Rightarrow>
          Some (c\<lparr>pid_map := AList.update (ei_pid info) (process_of sid info) (pid_map c)\<rparr>, sid))"

definition corr_on_exec :: "u8 list option \<Rightarrow> correlator \<Rightarrow> event_info \<Rightarrow> (correlator \<times> session_id) option"
where
  "corr_on_exec rnd c info =
     (case map_of (pid_map c) (ei_pid info) of
        Some existing \<Rightarrow>
          (let refreshed = existing\<lparr>p_ppid := ei_ppid info, p_tty_nr := ei_tty_nr info,
                 p_comm := ei_comm info, p_execution_id := ei_execution_id info\<rparr>
           in Some (c\<lparr>pid_map := AList.update (ei_pid info) refreshed (pid_map c)\<rparr>,
                    p_session_id refreshed))
      | None \<Rightarrow> track_new rnd c info)"

definition corr_session_for :: "u8 list option \<Rightarrow> correlator \<Rightarrow> event_info \<Rightarrow> (correlator \<times> session_id) option"
where
  "corr_session_for rnd c info =
     (case map_of (pid_map c) (ei_pid info) of
        Some existing \<Rightarrow> Some (c, p_session_id existing)
      | None \<Rightarrow> track_new rnd c info)"

definition corr_on_exit :: "correlator \<Rightarrow> u32 \<Rightarrow> correlator \<times> exit_info option" where
  "corr_on_exit c pid =
     (case map_of (pid_map c) pid of
        None \<Rightarrow> (c, None)
      | Some info \<Rightarrow>
          (let c = c\<lparr>pid_map := AList.delete pid (pid_map c)\<rparr>;
               session_complete = (p_tty_nr info = 0
                 \<and> \<not> list_ex (\<lambda>(_, t). p_session_id t = p_session_id info) (pid_map c))
           in (c, Some \<lparr>xi_session_id = p_session_id info, xi_session_complete = session_complete\<rparr>)))"

text \<open>The loop of \<open>ancestor_comms\<close>: at most \<open>n\<close> more levels, from \<open>current\<close>.\<close>

fun ancestor_walk :: "correlator \<Rightarrow> nat \<Rightarrow> u32 \<Rightarrow> string list" where
  "ancestor_walk c 0 current = []"
| "ancestor_walk c (Suc n) current =
     (case map_of (pid_map c) current of
        None \<Rightarrow> []
      | Some info \<Rightarrow>
          if p_ppid info = current then []
          else (case map_of (pid_map c) (p_ppid info) of
                  None \<Rightarrow> []
                | Some parent \<Rightarrow> p_comm parent # ancestor_walk c n (p_ppid info)))"

definition ancestor_comms :: "correlator \<Rightarrow> u32 \<Rightarrow> string list" where
  "ancestor_comms c pid = ancestor_walk c 32 pid"

section \<open>Histories\<close>

datatype corr_op =
    OnExec "u8 list option" event_info
  | SessionFor "u8 list option" event_info
  | OnExit u32

fun corr_apply :: "corr_op \<Rightarrow> correlator \<Rightarrow> correlator option" where
  "corr_apply (OnExec rnd info) c = map_option fst (corr_on_exec rnd c info)"
| "corr_apply (SessionFor rnd info) c = map_option fst (corr_session_for rnd c info)"
| "corr_apply (OnExit pid) c = Some (fst (corr_on_exit c pid))"

fun corr_run :: "corr_op list \<Rightarrow> correlator \<Rightarrow> correlator option" where
  "corr_run [] c = Some c"
| "corr_run (op # ops) c = Option.bind (corr_apply op c) (corr_run ops)"

fun op_random_ok :: "corr_op \<Rightarrow> bool" where
  "op_random_ok (OnExec rnd _) = random_ok rnd"
| "op_random_ok (SessionFor rnd _) = random_ok rnd"
| "op_random_ok (OnExit _) = True"

fun_cases corr_apply_SomeE: "corr_apply op c = Some c'"

section \<open>Lookups after each operation\<close>

lemma resolve_session_pid_map: "resolve_session rnd c info = Some (c', sid) \<Longrightarrow> pid_map c' = pid_map c"
  by (auto simp: resolve_session_def split: if_splits option.splits)

lemma resolve_session_tty:
  "resolve_session rnd c info = Some (c', sid) \<Longrightarrow>
     map_of (tty_sessions c) t = Some s \<Longrightarrow> map_of (tty_sessions c') t = Some s"
  by (auto simp: resolve_session_def update_conv' split: if_splits option.splits)

lemma track_new_Some:
  "track_new rnd c info = Some (c', sid) \<longleftrightarrow>
     (\<exists>c0. resolve_session rnd c info = Some (c0, sid)
       \<and> c' = c0\<lparr>pid_map := AList.update (ei_pid info) (process_of sid info) (pid_map c0)\<rparr>)"
  by (auto simp: track_new_def split: option.splits prod.splits)

lemma track_new_tracked:
  "track_new rnd c info = Some (c', sid) \<Longrightarrow>
     tracked c' = (tracked c)(ei_pid info \<mapsto> process_of sid info)"
  by (auto simp: track_new_Some tracked_def update_conv' dest: resolve_session_pid_map)

lemma track_new_tty:
  "track_new rnd c info = Some (c', sid) \<Longrightarrow>
     map_of (tty_sessions c) t = Some s \<Longrightarrow> map_of (tty_sessions c') t = Some s"
  by (auto simp: track_new_Some dest: resolve_session_tty)

lemma corr_on_exec_tracked:
  "corr_on_exec rnd c info = Some (c', sid) \<Longrightarrow>
     tracked c' = (tracked c)(ei_pid info \<mapsto> process_of sid info)"
  by (auto simp: corr_on_exec_def Let_def tracked_def update_conv' process_of_def split: option.splits
      dest: track_new_tracked [unfolded tracked_def process_of_def])

lemma corr_session_for_tracked:
  "corr_session_for rnd c info = Some (c', sid) \<Longrightarrow>
     (case tracked c (ei_pid info) of
        None \<Rightarrow> tracked c' = (tracked c)(ei_pid info \<mapsto> process_of sid info)
      | Some p \<Rightarrow> c' = c \<and> sid = p_session_id p)"
  by (auto simp: corr_session_for_def tracked_def split: option.splits
      dest: track_new_tracked [unfolded tracked_def])

lemma corr_on_exit_tracked: "tracked (fst (corr_on_exit c pid)) = (tracked c)(pid := None)"
  by (auto simp: corr_on_exit_def tracked_def Let_def delete_conv' split: option.splits)

section \<open>Invariant\<close>

definition corr_inv :: "correlator \<Rightarrow> bool" where
  "corr_inv c \<longleftrightarrow> distinct (map fst (pid_map c)) \<and> distinct (map fst (tty_sessions c))
     \<and> (\<forall>x \<in> set (pid_map c). session_id_is_valid (p_session_id (snd x)))
     \<and> (\<forall>x \<in> set (tty_sessions c). session_id_is_valid (snd x))"

lemma corr_inv_default: "corr_inv correlator_default"
  by (simp add: corr_inv_def correlator_default_def)

text \<open>Every character of the table is a lower case letter or a digit.\<close>

lemma charset_ok: "c \<in> set charset \<Longrightarrow> is_ascii_alphanumeric [c] \<and> u8_of_char c < 128"
  by (auto simp: charset_def is_ascii_alphanumeric_def u8_of_char_def Let_def)

lemma generate_session_id_valid:
  assumes "random_ok rnd" "generate_session_id rnd = Some sid"
  shows "session_id_is_valid sid"
proof -
  obtain buf where buf: "rnd = Some buf" "length buf = 8"
    and sid: "sid = SESSION_ID_PREFIX @ map (\<lambda>b. charset ! (unat b mod length charset)) buf"
    using assms by (auto simp: generate_session_id_def random_ok_def SESSION_ID_SUFFIX_LEN_def split: option.splits)
  let ?suffix = "map (\<lambda>b. charset ! (unat b mod length charset)) buf"
  have "length charset = 36" by (simp add: charset_def)
  then have "charset ! (n mod length charset) \<in> set charset" for n by (intro nth_mem) simp
  then have "c \<in> set charset" if "c \<in> set ?suffix" for c
    using that by auto
  then have "ascii ?suffix" and ok: "list_all (\<lambda>c. is_ascii_alphanumeric [c]) ?suffix"
    using charset_ok unfolding ascii_def list_all_iff by blast+
  then have "str_chars ?suffix = map (\<lambda>c. [c]) ?suffix" by (intro str_chars_ascii)
  with ok have "list_all is_ascii_alphanumeric (str_chars ?suffix)" by (simp add: list.pred_map comp_def)
  with buf(2) show ?thesis
    unfolding sid by (simp add: session_id_is_valid_def SESSION_ID_PREFIX_def SESSION_ID_SUFFIX_LEN_def)
qed

lemma in_alist_update: "x \<in> set (AList.update k v al) \<Longrightarrow> x = (k, v) \<or> x \<in> set al"
  by (induction al) (auto split: if_splits)

lemma alist_delete_all: "\<forall>x \<in> set al. P x \<Longrightarrow> \<forall>x \<in> set (AList.delete k al). P x"
  by (auto simp: AList.delete_eq)

lemma resolve_session_inv:
  assumes "corr_inv c" "random_ok rnd" "resolve_session rnd c info = Some (c', sid)"
  shows "corr_inv c' \<and> session_id_is_valid sid"
proof -
  have tty: "session_id_is_valid s" if "map_of (tty_sessions c) t = Some s" for t s
    using assms(1) map_of_SomeD [OF that] by (force simp: corr_inv_def)
  have pid: "session_id_is_valid (p_session_id p)" if "map_of (pid_map c) t = Some p" for t p
    using assms(1) map_of_SomeD [OF that] by (force simp: corr_inv_def)
  have gen: "session_id_is_valid s" if "generate_session_id rnd = Some s" for s
    using assms(2) that by (rule generate_session_id_valid)
  show ?thesis
    using assms(1,3) tty pid gen
    by (force simp: resolve_session_def corr_inv_def distinct_update dest!: in_alist_update
        split: if_splits option.splits)
qed

lemma track_inv:
  assumes "corr_inv c" "session_id_is_valid (p_session_id p)"
  shows "corr_inv (c\<lparr>pid_map := AList.update pid p (pid_map c)\<rparr>)"
  using assms by (auto simp: corr_inv_def distinct_update dest!: in_alist_update)

lemma track_new_inv:
  assumes "corr_inv c" "random_ok rnd" "track_new rnd c info = Some (c', sid)"
  shows "corr_inv c' \<and> session_id_is_valid sid"
  using assms resolve_session_inv [OF assms(1,2)]
  by (auto simp: track_new_Some process_of_def intro!: track_inv)

lemma tracked_valid: "corr_inv c \<Longrightarrow> map_of (pid_map c) pid = Some p \<Longrightarrow> session_id_is_valid (p_session_id p)"
  by (force simp: corr_inv_def dest: map_of_SomeD)

lemma corr_on_exec_inv:
  assumes "corr_inv c" "random_ok rnd" "corr_on_exec rnd c info = Some (c', sid)"
  shows "corr_inv c' \<and> session_id_is_valid sid"
  using assms track_new_inv [OF assms(1,2)] tracked_valid [OF assms(1)]
  by (auto simp: corr_on_exec_def Let_def intro!: track_inv split: option.splits)

lemma corr_session_for_inv:
  assumes "corr_inv c" "random_ok rnd" "corr_session_for rnd c info = Some (c', sid)"
  shows "corr_inv c' \<and> session_id_is_valid sid"
  using assms track_new_inv [OF assms(1,2)] tracked_valid [OF assms(1)]
  by (auto simp: corr_session_for_def split: option.splits)

lemma corr_on_exit_inv:
  assumes "corr_inv c"
  shows "corr_inv (fst (corr_on_exit c pid))"
  using assms alist_delete_all [where P = "\<lambda>x. session_id_is_valid (p_session_id (snd x))" and al = "pid_map c"]
  by (auto simp: corr_on_exit_def Let_def corr_inv_def distinct_delete split: option.splits)

lemma corr_apply_inv:
  "corr_inv c \<Longrightarrow> op_random_ok op \<Longrightarrow> corr_apply op c = Some c' \<Longrightarrow> corr_inv c'"
  by (cases op) (auto dest: corr_on_exec_inv corr_session_for_inv corr_on_exit_inv)

lemma corr_run_inv:
  "corr_inv c \<Longrightarrow> \<forall>op \<in> set ops. op_random_ok op \<Longrightarrow> corr_run ops c = Some c' \<Longrightarrow> corr_inv c'"
  by (induction ops arbitrary: c) (auto dest: corr_apply_inv split: Option.bind_splits)


section \<open>Terminal sessions are sticky\<close>

definition tty_session :: "correlator \<Rightarrow> u32 \<rightharpoonup> session_id" where
  "tty_session c = map_of (tty_sessions c)"

lemma corr_apply_tty:
  "corr_apply op c = Some c' \<Longrightarrow> tty_session c t = Some s \<Longrightarrow> tty_session c' t = Some s"
  by (cases op) (auto simp: tty_session_def corr_on_exec_def corr_session_for_def corr_on_exit_def Let_def
      split: option.splits dest: track_new_tty)

lemma corr_run_tty:
  "corr_run ops c = Some c' \<Longrightarrow> tty_session c t = Some s \<Longrightarrow> tty_session c' t = Some s"
  by (induction ops arbitrary: c) (auto dest: corr_apply_tty split: Option.bind_splits)

text \<open>The two operations that assign a session treat an untracked process alike.\<close>

abbreviation assigns :: "(u8 list option \<Rightarrow> correlator \<Rightarrow> event_info \<Rightarrow> (correlator \<times> session_id) option) \<Rightarrow> bool"
where "assigns f \<equiv> f = corr_on_exec \<or> f = corr_session_for"

lemma assigns_untracked:
  "assigns f \<Longrightarrow> tracked c (ei_pid info) = None \<Longrightarrow> f rnd c info = track_new rnd c info"
  by (auto simp: corr_on_exec_def corr_session_for_def tracked_def)

lemma track_new_pty:
  assumes "ei_tty_nr info \<noteq> 0" "track_new rnd c info = Some (c', sid)"
  shows "tty_session c' (ei_tty_nr info) = Some sid"
  using assms by (auto simp: track_new_Some resolve_session_def tty_session_def update_conv'
      split: option.splits)

lemma track_new_known_pty:
  assumes "ei_tty_nr info \<noteq> 0" "tty_session c (ei_tty_nr info) = Some sid"
  shows "\<exists>c'. track_new rnd c info = Some (c', sid)"
  using assms by (auto simp: track_new_def resolve_session_def tty_session_def)

text \<open>The session an exec event is assigned, over the two tables as maps.\<close>

lemma corr_on_exec_session:
  assumes "corr_on_exec rnd c info = Some (c', sid)"
  shows "Some sid = (case tracked c (ei_pid info) of
      Some p \<Rightarrow> Some (p_session_id p)
    | None \<Rightarrow>
        (case (if ei_tty_nr info \<noteq> 0 then tty_session c (ei_tty_nr info)
               else map_option p_session_id (tracked c (ei_ppid info))) of
           Some known \<Rightarrow> Some known
         | None \<Rightarrow> generate_session_id rnd))"
  using assms
  by (auto simp: corr_on_exec_def track_new_def resolve_session_def tracked_def tty_session_def Let_def
      split: option.splits if_splits)

section \<open>Completed sessions\<close>

definition session_open :: "correlator \<Rightarrow> session_id \<Rightarrow> bool" where
  "session_open c sid \<longleftrightarrow> (\<exists>pid p. tracked c pid = Some p \<and> p_session_id p = sid)"

lemma corr_on_exit_complete:
  assumes "corr_inv c" "corr_on_exit c pid = (c', Some x)"
  shows "\<exists>p. tracked c pid = Some p \<and> xi_session_id x = p_session_id p
    \<and> (xi_session_complete x \<longleftrightarrow> p_tty_nr p = 0 \<and> \<not> session_open c' (p_session_id p))"
proof -
  obtain p where p: "map_of (pid_map c) pid = Some p"
    and c': "c' = c\<lparr>pid_map := AList.delete pid (pid_map c)\<rparr>"
    and x: "x = \<lparr>xi_session_id = p_session_id p, xi_session_complete = (p_tty_nr p = 0
       \<and> \<not> list_ex (\<lambda>(_, t). p_session_id t = p_session_id p) (pid_map c'))\<rparr>"
    using assms(2) by (auto simp: corr_on_exit_def Let_def split: option.splits)
  have "distinct (map fst (pid_map c'))"
    using assms(1) by (simp add: c' corr_inv_def distinct_delete)
  then have "list_ex (\<lambda>(_, t). p_session_id t = p_session_id p) (pid_map c') = session_open c' (p_session_id p)"
    by (auto simp: session_open_def tracked_def list_ex_iff dest: map_of_SomeD intro: map_of_is_SomeI)
  with p x show ?thesis by (auto simp: tracked_def)
qed

text \<open>A session that is neither open nor a terminal's comes back only if the random source repeats it.\<close>

definition session_gone :: "correlator \<Rightarrow> session_id \<Rightarrow> bool" where
  "session_gone c sid \<longleftrightarrow> \<not> session_open c sid \<and> sid \<notin> ran (tty_session c)"

fun op_avoids :: "session_id \<Rightarrow> corr_op \<Rightarrow> bool" where
  "op_avoids sid (OnExec rnd _) \<longleftrightarrow> generate_session_id rnd \<noteq> Some sid"
| "op_avoids sid (SessionFor rnd _) \<longleftrightarrow> generate_session_id rnd \<noteq> Some sid"
| "op_avoids sid (OnExit _) \<longleftrightarrow> True"

lemma track_new_gone:
  assumes "track_new rnd c info = Some (c', s)" "session_gone c sid" "generate_session_id rnd \<noteq> Some sid"
  shows "s \<noteq> sid \<and> session_gone c' sid"
proof -
  have s: "s \<noteq> sid" and tty: "sid \<notin> ran (tty_session c')"
    using assms
    by (auto simp: track_new_Some resolve_session_def session_gone_def session_open_def tracked_def
        tty_session_def update_conv' ran_def split: if_splits option.splits)
  moreover have "\<not> session_open c' sid"
    using assms(2) s track_new_tracked [OF assms(1)]
    by (auto simp: session_gone_def session_open_def process_of_def split: if_splits)
  ultimately show ?thesis by (simp add: session_gone_def)
qed

lemma corr_apply_gone:
  assumes "corr_apply op c = Some c'" "session_gone c sid" "op_avoids sid op"
  shows "session_gone c' sid"
proof (cases op)
  case (OnExec rnd info)
  then obtain s where s: "corr_on_exec rnd c info = Some (c', s)" using assms(1) by auto
  show ?thesis
  proof (cases "tracked c (ei_pid info)")
    case None
    with s have "track_new rnd c info = Some (c', s)" by (simp add: corr_on_exec_def tracked_def)
    with assms OnExec show ?thesis by (auto dest: track_new_gone)
  next
    case (Some p)
    with s have "s = p_session_id p" "tty_sessions c' = tty_sessions c"
      by (auto simp: corr_on_exec_def tracked_def Let_def)
    then show ?thesis
      using assms(2) Some corr_on_exec_tracked [OF s]
      by (auto simp: session_gone_def session_open_def tty_session_def process_of_def split: if_splits)
  qed
next
  case (SessionFor rnd info)
  then obtain s where s: "corr_session_for rnd c info = Some (c', s)" using assms(1) by auto
  then show ?thesis
    using assms SessionFor by (auto simp: corr_session_for_def split: option.splits dest: track_new_gone)
next
  case (OnExit pid)
  then have "c' = fst (corr_on_exit c pid)" using assms(1) by simp
  then have "tracked c' = (tracked c)(pid := None)" "tty_session c' = tty_session c"
    using corr_on_exit_tracked [of c pid]
    by (simp_all, simp add: tty_session_def corr_on_exit_def Let_def split: option.splits)
  with assms(2) show ?thesis by (auto simp: session_gone_def session_open_def split: if_splits)
qed

lemma corr_run_gone:
  "corr_run ops c = Some c' \<Longrightarrow> session_gone c sid \<Longrightarrow> \<forall>op \<in> set ops. op_avoids sid op \<Longrightarrow>
    session_gone c' sid"
  by (induction ops arbitrary: c) (auto dest: corr_apply_gone split: Option.bind_splits)

section \<open>Ancestors\<close>

text \<open>\<open>parent_rel c\<close> relates a tracked process to its tracked parent, when that is another process.\<close>

definition parent_rel :: "correlator \<Rightarrow> (u32 \<times> u32) set" where
  "parent_rel c = {(pid, q). \<exists>p. tracked c pid = Some p \<and> p_ppid p = q \<and> q \<noteq> pid \<and> tracked c q \<noteq> None}"

lemma parent_rel_pow:
  assumes "tracked c pid = Some p" "p_ppid p \<noteq> pid" "tracked c (p_ppid p) = Some a"
  shows "(pid, q) \<in> parent_rel c ^^ Suc k \<longleftrightarrow> (p_ppid p, q) \<in> parent_rel c ^^ k"
proof -
  have "(pid, q) \<in> parent_rel c \<longleftrightarrow> q = p_ppid p" for q using assms by (auto simp: parent_rel_def)
  then show ?thesis using relpow_Suc_I2 relpow_Suc_D2 by metis
qed

lemma ancestors_within_Suc:
  assumes p: "tracked c pid = Some p" "p_ppid p \<noteq> pid" "tracked c (p_ppid p) = Some a"
  shows "{p_comm a | a q k. 0 < k \<and> k \<le> Suc n \<and> (pid, q) \<in> parent_rel c ^^ k \<and> tracked c q = Some a}
    = insert (p_comm a) {p_comm a | a q k. 0 < k \<and> k \<le> n \<and> (p_ppid p, q) \<in> parent_rel c ^^ k \<and> tracked c q = Some a}"
    (is "?S = insert _ ?T")
proof (intro set_eqI iffI)
  fix x
  assume "x \<in> ?S"
  then obtain a' q j where x: "x = p_comm a'" "j \<le> n" "(p_ppid p, q) \<in> parent_rel c ^^ j" "tracked c q = Some a'"
    unfolding gr0_conv_Suc using parent_rel_pow [OF p] by auto
  show "x \<in> insert (p_comm a) ?T"
  proof (cases "j = 0")
    case True
    with x p(3) show ?thesis by simp
  next
    case False
    with x show ?thesis by blast
  qed
next
  fix x
  assume "x \<in> insert (p_comm a) ?T"
  then consider "x = p_comm a" | a' q k where "x = p_comm a'" "k \<le> n" "(p_ppid p, q) \<in> parent_rel c ^^ k"
    "tracked c q = Some a'" by auto
  then show "x \<in> ?S"
  proof cases
    case 1
    moreover have "(pid, p_ppid p) \<in> parent_rel c ^^ Suc 0" using parent_rel_pow [OF p, of "p_ppid p" 0] by simp
    ultimately show ?thesis using p(3) by blast
  next
    case 2
    then have "(pid, q) \<in> parent_rel c ^^ Suc k" "Suc k \<le> Suc n" using parent_rel_pow [OF p] by auto
    with 2 show ?thesis by blast
  qed
qed

lemma ancestor_walk_set:
  "set (ancestor_walk c n pid) =
     {p_comm a | a q k. 0 < k \<and> k \<le> n \<and> (pid, q) \<in> parent_rel c ^^ k \<and> tracked c q = Some a}"
proof (induction n arbitrary: pid)
  case (Suc n)
  show ?case
  proof (cases "\<exists>q. (pid, q) \<in> parent_rel c")
    case False
    then have "{p_comm a | a q k. 0 < k \<and> k \<le> Suc n \<and> (pid, q) \<in> parent_rel c ^^ k \<and> tracked c q = Some a} = {}"
      by (auto simp: gr0_conv_Suc dest!: relpow_Suc_D2)
    moreover have "ancestor_walk c (Suc n) pid = []"
      using False by (auto simp: parent_rel_def tracked_def split: option.splits)
    ultimately show ?thesis by simp
  next
    case True
    then obtain p a where p: "tracked c pid = Some p" "p_ppid p \<noteq> pid" "tracked c (p_ppid p) = Some a"
      by (auto simp: parent_rel_def)
    then have "ancestor_walk c (Suc n) pid = p_comm a # ancestor_walk c n (p_ppid p)"
      by (simp add: tracked_def)
    then show ?thesis using Suc ancestors_within_Suc [OF p] by simp
  qed
qed simp

lemma length_ancestor_walk: "length (ancestor_walk c n pid) \<le> n"
  by (induction c n pid rule: ancestor_walk.induct) (auto split: option.splits)


section \<open>Properties\<close>

definition sample_info :: "u32 \<Rightarrow> u32 \<Rightarrow> u32 \<Rightarrow> string \<Rightarrow> event_info" where
  "sample_info pid ppid tty comm =
     \<lparr>ei_pid = pid, ei_ppid = ppid, ei_tty_nr = tty, ei_comm = comm, ei_execution_id = 0\<rparr>"

definition sample_bytes :: "u8 list option" where
  "sample_bytes = Some [0, 1, 2, 3, 4, 5, 6, 7]"

lemma sample_random [simp]: "random_ok sample_bytes" "generate_session_id sample_bytes = Some ''ox_01234567''"
  by (simp_all add: sample_bytes_def random_ok_def SESSION_ID_SUFFIX_LEN_def generate_session_id_def
      SESSION_ID_PREFIX_def charset_def)

text \<open>
  C28: Starting from the empty correlator and as long as the random source fills its buffer, every
  session identifier that any history of events assigns or stores has the documented form: the
  prefix, then eight alphanumeric characters.
\<close>

theorem session_ids_well_formed:
  assumes "corr_run ops correlator_default = Some c" "\<forall>op \<in> set ops. op_random_ok op"
    and "random_ok rnd" "assigns f" "f rnd c info = Some (c', sid)"
  shows "session_id_new sid = Some sid \<and> (\<forall>pid p. tracked c' pid = Some p \<longrightarrow> session_id_is_valid (p_session_id p))"
proof -
  have "corr_inv c" using corr_run_inv [OF corr_inv_default] assms by blast
  then have "corr_inv c' \<and> session_id_is_valid sid"
    using assms corr_on_exec_inv corr_session_for_inv by blast
  then show ?thesis by (auto simp: session_id_new_def tracked_def intro: tracked_valid)
qed

theorem session_ids_well_formed_witness:
  "session_id_new ''ox_01234567'' = Some ''ox_01234567''"
  using session_ids_well_formed [of "[]" correlator_default sample_bytes corr_on_exec
      "sample_info 100 1 0 ''sh''" _ "''ox_01234567''"]
  by (simp add: corr_on_exec_def track_new_def resolve_session_def correlator_default_def sample_info_def)

text \<open>
  C22: Terminal grouping: two processes that are first seen on the same terminal (a non-zero tty
  number) get the same session, whatever happens between the two events, even if every process of
  the terminal has exited in between, and without a new random identifier.
\<close>

theorem pty_sessions_are_shared:
  assumes "assigns f" "assigns g"
    and "ei_tty_nr a \<noteq> 0" "tracked c (ei_pid a) = None" "f rnd c a = Some (c1, sid)"
    and "corr_run ops c1 = Some c2"
    and "ei_tty_nr b = ei_tty_nr a" "tracked c2 (ei_pid b) = None"
  shows "\<exists>c3. g rnd' c2 b = Some (c3, sid)"
proof -
  have "track_new rnd c a = Some (c1, sid)" using assms assigns_untracked by metis
  then have "tty_session c2 (ei_tty_nr b) = Some sid"
    using assms track_new_pty corr_run_tty by metis
  then have "\<exists>c3. track_new rnd' c2 b = Some (c3, sid)"
    using assms by (intro track_new_known_pty) simp_all
  then show ?thesis using assms assigns_untracked by metis
qed

theorem pty_sessions_are_shared_witness:
  "\<exists>c1 c2 c3. corr_on_exec sample_bytes correlator_default (sample_info 100 1 5 ''ls'') = Some (c1, ''ox_01234567'')
     \<and> corr_run [OnExit 100] c1 = Some c2
     \<and> corr_session_for None c2 (sample_info 200 1 5 ''id'') = Some (c3, ''ox_01234567'')"
proof -
  let ?a = "sample_info 100 1 5 ''ls''" and ?b = "sample_info 200 1 5 ''id''"
  obtain c1 where c1: "corr_on_exec sample_bytes correlator_default ?a = Some (c1, ''ox_01234567'')"
    by (simp add: corr_on_exec_def track_new_def resolve_session_def correlator_default_def sample_info_def)
  then have none: "tracked (fst (corr_on_exit c1 100)) 200 = None"
    by (auto simp: corr_on_exit_tracked dest!: corr_on_exec_tracked)
      (simp_all add: sample_info_def tracked_def correlator_default_def)
  have "\<exists>c3. corr_session_for None (fst (corr_on_exit c1 100)) ?b = Some (c3, ''ox_01234567'')"
    by (rule pty_sessions_are_shared [where f = corr_on_exec and ops = "[OnExit 100]" and a = ?a])
      (use c1 none in \<open>auto simp: sample_info_def tracked_def correlator_default_def\<close>)
  with c1 show ?thesis by auto
qed

text \<open>
  Inheritance: a process without a terminal that is seen for the first time while its parent is
  tracked joins the parent's session, needs no random identifier, and disturbs no other process.
\<close>

lemma child_inherits_session:
  assumes "assigns f" "tracked c (ei_pid info) = None" "ei_tty_nr info = 0"
    and "tracked c (ei_ppid info) = Some parent"
  shows "\<exists>c'. f rnd c info = Some (c', p_session_id parent)
    \<and> tracked c' = (tracked c)(ei_pid info \<mapsto> process_of (p_session_id parent) info)"
proof -
  have "\<exists>c'. track_new rnd c info = Some (c', p_session_id parent)"
    using assms(3,4) by (simp add: track_new_def resolve_session_def tracked_def)
  then show ?thesis using assigns_untracked [OF assms(1,2)] track_new_tracked by metis
qed

lemma child_inherits_session_witness:
  "\<exists>c c'. corr_on_exec None c (sample_info 200 100 0 ''id'') = Some (c', ''ox_01234567'')"
proof -
  let ?c = "\<lparr>pid_map = [(100, process_of ''ox_01234567'' (sample_info 100 1 0 ''sh''))], tty_sessions = []\<rparr>"
  have "\<exists>c'. corr_on_exec None ?c (sample_info 200 100 0 ''id'') =
      Some (c', p_session_id (process_of ''ox_01234567'' (sample_info 100 1 0 ''sh'')))
      \<and> tracked c' = (tracked ?c)(ei_pid (sample_info 200 100 0 ''id'') \<mapsto> process_of
        (p_session_id (process_of ''ox_01234567'' (sample_info 100 1 0 ''sh''))) (sample_info 200 100 0 ''id''))"
    by (rule child_inherits_session) (simp_all add: sample_info_def tracked_def)
  then show ?thesis by (auto simp: process_of_def)
qed

text \<open>
  A tracked process that executes another program keeps its session and refreshes its parent,
  terminal, name and execution id; no other process, no terminal entry and no random byte is
  involved.
\<close>

lemma reexec_keeps_session:
  assumes "tracked c (ei_pid info) = Some p"
  shows "\<exists>c'. corr_on_exec rnd c info = Some (c', p_session_id p)
    \<and> tracked c' = (tracked c)(ei_pid info \<mapsto> process_of (p_session_id p) info)
    \<and> tty_sessions c' = tty_sessions c"
  using assms by (cases p) (simp add: corr_on_exec_def tracked_def process_of_def Let_def update_conv')

lemma reexec_keeps_session_witness:
  "\<exists>c c' p. corr_on_exec None c (sample_info 100 55 99 ''python'') = Some (c', ''ox_01234567'')
     \<and> tracked c' 100 = Some p \<and> p_comm p = ''python'' \<and> p_tty_nr p = 99"
proof -
  let ?c = "\<lparr>pid_map = [(100, process_of ''ox_01234567'' (sample_info 100 1 42 ''sh''))], tty_sessions = []\<rparr>"
  have "tracked ?c (ei_pid (sample_info 100 55 99 ''python'')) = Some (process_of ''ox_01234567'' (sample_info 100 1 42 ''sh''))"
    by (simp add: tracked_def sample_info_def)
  from reexec_keeps_session [OF this, of None] show ?thesis
    by (auto simp: process_of_def) (force simp: sample_info_def)
qed

text \<open>
  C25: The exit of a tracked process removes exactly that process, and reports the session as complete
  exactly when the process had no terminal and no process of the session remains. A completed session
  that no terminal holds (the terminal table has no entry with its identifier) has no process after any
  further events in which the random source does not produce its identifier again.
\<close>

theorem completed_session_stays_closed:
  assumes "corr_inv c" "corr_on_exit c pid = (c', Some x)"
  shows "tracked c' = (tracked c)(pid := None)
    \<and> (\<exists>p. tracked c pid = Some p \<and> xi_session_id x = p_session_id p
         \<and> xi_session_complete x = (p_tty_nr p = 0 \<and> \<not> session_open c' (p_session_id p)))
    \<and> (xi_session_complete x \<and> xi_session_id x \<notin> ran (tty_session c) \<longrightarrow>
         (\<forall>ops c''. corr_run ops c' = Some c'' \<and> (\<forall>op \<in> set ops. op_avoids (xi_session_id x) op) \<longrightarrow>
            \<not> session_open c'' (xi_session_id x)))"
proof -
  obtain p where p: "tracked c pid = Some p" "xi_session_id x = p_session_id p"
    "xi_session_complete x = (p_tty_nr p = 0 \<and> \<not> session_open c' (p_session_id p))"
    using corr_on_exit_complete [OF assms] by blast
  have tr: "tracked c' = (tracked c)(pid := None)" using corr_on_exit_tracked [of c pid] assms(2) by simp
  have "tty_session c' = tty_session c"
    using assms(2) by (auto simp: corr_on_exit_def Let_def tty_session_def split: option.splits)
  then have gone: "session_gone c' (xi_session_id x)"
    if "xi_session_complete x" "xi_session_id x \<notin> ran (tty_session c)"
    using p that by (simp add: session_gone_def)
  have "\<not> session_open c'' (xi_session_id x)"
    if "xi_session_complete x" "xi_session_id x \<notin> ran (tty_session c)"
      and run: "corr_run ops c' = Some c''" and "\<forall>op \<in> set ops. op_avoids (xi_session_id x) op" for ops c''
    using corr_run_gone [OF run gone] that by (simp add: session_gone_def)
  with p tr show ?thesis by blast
qed

theorem completed_session_stays_closed_witness:
  "\<exists>c' x. corr_on_exit \<lparr>pid_map = [(100, process_of ''ox_aaaaaaaa'' (sample_info 100 1 0 ''sh''))],
      tty_sessions = []\<rparr> 100 = (c', Some x) \<and> xi_session_complete x
    \<and> \<not> session_open c' ''ox_aaaaaaaa''"
proof -
  let ?c = "\<lparr>pid_map = [(100 :: u32, process_of ''ox_aaaaaaaa'' (sample_info 100 1 0 ''sh''))],
      tty_sessions = [] :: (u32 \<times> session_id) list\<rparr>"
  let ?x = "\<lparr>xi_session_id = ''ox_aaaaaaaa'', xi_session_complete = True\<rparr>"
  have inv: "corr_inv ?c"
    by (simp add: corr_inv_def process_of_def session_id_is_valid_def SESSION_ID_PREFIX_def
        SESSION_ID_SUFFIX_LEN_def str_chars_ascii is_ascii_alphanumeric_def u8_of_char_def Let_def)
  have exit: "corr_on_exit ?c 100 = (correlator_default, Some ?x)"
    by (simp add: corr_on_exit_def correlator_default_def process_of_def sample_info_def)
  have gone: "xi_session_id ?x \<notin> ran (tty_session ?c)" by (simp add: tty_session_def)
  show ?thesis
    using completed_session_stays_closed [OF inv exit] exit gone
    by (intro exI [of _ correlator_default] exI [of _ ?x])
      (metis (no_types, lifting) corr_run.simps(1) empty_iff empty_set exit_info.select_convs(1) exit_info.select_convs(2))
qed

text \<open>
  C29: The ancestor names used by the filters are exactly the names of the tracked processes that are
  1 to 32 parent links above the process, nothing more even when stale entries form a cycle, and there
  are at most 32 of them.
\<close>

theorem ancestor_comms_are_ancestors:
  "set (ancestor_comms c pid) =
      {p_comm a | a q k. 0 < k \<and> k \<le> 32 \<and> (pid, q) \<in> parent_rel c ^^ k \<and> tracked c q = Some a}
    \<and> length (ancestor_comms c pid) \<le> 32"
  using ancestor_walk_set length_ancestor_walk unfolding ancestor_comms_def by blast

text \<open>
  The terminal rule and the completion report do not fit together: a child without a terminal
  inherits a terminal's session, and its exit completes the session although the next process on the
  terminal reopens it.
\<close>

definition reopening_run :: "corr_op list" where
  "reopening_run = [OnExec sample_bytes (sample_info 100 1 5 ''sh''),
     OnExec None (sample_info 200 100 0 ''daemon''), OnExit 100]"

lemma completed_session_can_reopen:
  "\<exists>c c' x c''. corr_run reopening_run correlator_default = Some c
     \<and> corr_on_exit c 200 = (c', Some x) \<and> xi_session_complete x
     \<and> corr_on_exec None c' (sample_info 300 1 5 ''ls'') = Some (c'', xi_session_id x)"
  by (simp add: reopening_run_def corr_on_exec_def track_new_def resolve_session_def
      correlator_default_def sample_info_def corr_on_exit_def process_of_def Let_def)

text \<open>Processes on one terminal can be in two sessions once a process changes its terminal.\<close>

definition split_run :: "corr_op list" where
  "split_run = [OnExec sample_bytes (sample_info 100 1 5 ''sh''),
     OnExec None (sample_info 100 1 6 ''sh'')]"

lemma pty_grouping_after_reexec:
  "\<exists>c c' p. corr_run split_run correlator_default = Some c
     \<and> tracked c 100 = Some p \<and> p_tty_nr p = 6 \<and> p_session_id p = ''ox_01234567''
     \<and> corr_on_exec (Some [9, 9, 9, 9, 9, 9, 9, 9]) c (sample_info 200 1 6 ''ls'') = Some (c', ''ox_99999999'')"
proof -
  have nines: "generate_session_id (Some [9, 9, 9, 9, 9, 9, 9, 9]) = Some ''ox_99999999''"
    by (simp add: generate_session_id_def SESSION_ID_PREFIX_def charset_def)
  show ?thesis
    by (simp add: split_run_def corr_on_exec_def track_new_def resolve_session_def tracked_def
        correlator_default_def sample_info_def process_of_def Let_def nines)
qed

end
