(* ===== verification/Sinks.thy ===== *)
theory Sinks
  imports EventParse Correlator
begin

text \<open>
  The sink interface, \<open>shspectr/src/sink.rs\<close>, and the two sinks without a store of their own:
  \<open>stdout_sink.rs\<close> and \<open>otel_sink.rs\<close>. The trait is a record of its three operations over a sink
  state; the state of a log sink is the list of the records emitted so far.

  The locale \<open>event_sink\<close> is what the event handler relies on: a call adds at most one record and
  leaves the earlier ones in place. The two sinks here and the SQLite sink are its interpretations.
\<close>

section \<open>The trait\<close>

record session_info =
  si_session_id :: session_id
  si_pid :: u32
  si_comm :: string
  si_uid :: u32
  si_euid :: u32
  si_tty_nr :: u32
  si_cgroup_id :: u64

record 's sink =
  sink_on_exec :: "session_info \<Rightarrow> parsed_exec_event \<Rightarrow> 's \<Rightarrow> 's"
  sink_on_exit :: "session_info \<Rightarrow> parsed_exit_event \<Rightarrow> bool \<Rightarrow> 's \<Rightarrow> 's"
  sink_on_io :: "session_info \<Rightarrow> parsed_io_event \<Rightarrow> event_type \<Rightarrow> 's \<Rightarrow> 's"

text \<open>A call of the trait, for statements about any of the three.\<close>

datatype sink_call =
    CallExec session_info parsed_exec_event
  | CallExit session_info parsed_exit_event bool
  | CallIo session_info parsed_io_event event_type

fun sink_do :: "'s sink \<Rightarrow> sink_call \<Rightarrow> 's \<Rightarrow> 's" where
  "sink_do k (CallExec si e) s = sink_on_exec k si e s"
| "sink_do k (CallExit si e complete) s = sink_on_exit k si e complete s"
| "sink_do k (CallIo si e ty) s = sink_on_io k si e ty s"

fun call_session :: "sink_call \<Rightarrow> session_info" where
  "call_session (CallExec si _) = si"
| "call_session (CallExit si _ _) = si"
| "call_session (CallIo si _ _) = si"

text \<open>The calls that the handler makes: I/O only with an I/O type.\<close>

fun proper_call :: "sink_call \<Rightarrow> bool" where
  "proper_call (CallIo _ _ ty) \<longleftrightarrow> ty = Read \<or> ty = Write"
| "proper_call _ \<longleftrightarrow> True"

locale event_sink =
  fixes ops :: "'s sink" and records :: "'s \<Rightarrow> nat"
  assumes adds_at_most_one:
    "records s \<le> records (sink_do ops c s) \<and> records (sink_do ops c s) \<le> Suc (records s)"
begin

lemma fold_bounded:
  "records s \<le> records (fold (sink_do ops) cs s)
   \<and> records (fold (sink_do ops) cs s) \<le> records s + length cs"
proof (induction cs arbitrary: s)
  case Nil
  show ?case by simp
next
  case (Cons c cs)
  have "records (sink_do ops c s) \<le> records (fold (sink_do ops) cs (sink_do ops c s))
      \<and> records (fold (sink_do ops) cs (sink_do ops c s)) \<le> records (sink_do ops c s) + length cs"
    by (rule Cons.IH)
  with adds_at_most_one [of s c] show ?case by simp
qed

end

text \<open>A sink that loses nothing: every proper call adds exactly one record about the call's session.\<close>

locale exact_sink = event_sink ops "\<lambda>s. length (entries s)"
  for ops :: "'s sink" and entries :: "'s \<Rightarrow> 'r list" +
  fixes session_of :: "'r \<Rightarrow> session_id"
  assumes appends:
    "proper_call c \<Longrightarrow> \<exists>r. entries (sink_do ops c s) = entries s @ [r]
       \<and> session_of r = si_session_id (call_session c)"
begin

lemma fold_exact:
  "list_all proper_call cs \<Longrightarrow>
    map session_of (entries (fold (sink_do ops) cs s)) =
      map session_of (entries s) @ map (si_session_id \<circ> call_session) cs"
proof (induction cs arbitrary: s)
  case Nil
  show ?case by simp
next
  case (Cons c cs)
  from Cons.prems appends [of c s] obtain r where
    "entries (sink_do ops c s) = entries s @ [r]" "session_of r = si_session_id (call_session c)" by auto
  with Cons.IH [of "sink_do ops c s"] Cons.prems show ?case by simp
qed

end

section \<open>Attribute values\<close>

text \<open>
  The log records are lists of named values. \<open>from_u32\<close> is \<open>i64::from\<close>, \<open>cast_signed\<close> reads a
  64-bit word as a signed number.
\<close>

datatype attr = AInt int | AText string | ABool bool | AList "string list"

type_synonym log_record = "(string \<times> attr) list"

definition from_u32 :: "u32 \<Rightarrow> attr" where
  "from_u32 w = AInt (int (unat w))"

definition from_u64 :: "u64 \<Rightarrow> attr" where
  "from_u64 w = AInt (int (unat w))"

definition cast_signed :: "u64 \<Rightarrow> attr" where
  "cast_signed w = AInt (sint w)"

section \<open>Stdout\<close>

text \<open>\<open>tracing\<close> renders the fields as JSON; the model keeps the fields.\<close>

definition stdout_on_exec :: "session_info \<Rightarrow> parsed_exec_event \<Rightarrow> log_record list \<Rightarrow> log_record list" where
  "stdout_on_exec session event out = out @
     [[(''event'', AText ''exec''), (''session_id'', AText (si_session_id session)),
       (''pid'', from_u32 (px_pid event)), (''ppid'', from_u32 (px_ppid event)),
       (''uid'', from_u32 (px_uid event)), (''gid'', from_u32 (px_gid event)),
       (''euid'', from_u32 (px_euid event)), (''comm'', AText (px_comm event)),
       (''tty_nr'', from_u32 (px_tty_nr event)), (''cgroup_id'', from_u64 (px_cgroup_id event)),
       (''filename'', AText (px_filename event)), (''argv'', AList (px_argv event)),
       (''retval'', cast_signed (px_retval event))]]"

definition stdout_on_exit :: "session_info \<Rightarrow> parsed_exit_event \<Rightarrow> bool \<Rightarrow> log_record list \<Rightarrow> log_record list"
where
  "stdout_on_exit session event session_complete out = out @
     [[(''event'', AText ''exit''), (''session_id'', AText (si_session_id session)),
       (''pid'', from_u32 (pe_pid event)), (''ppid'', from_u32 (pe_ppid event)),
       (''uid'', from_u32 (pe_uid event)), (''gid'', from_u32 (pe_gid event)),
       (''euid'', from_u32 (pe_euid event)), (''comm'', AText (pe_comm event)),
       (''tty_nr'', from_u32 (pe_tty_nr event)), (''cgroup_id'', from_u64 (pe_cgroup_id event)),
       (''exit_code'', AInt (sint (pe_exit_code event)))]]"

definition stdout_on_io :: "session_info \<Rightarrow> parsed_io_event \<Rightarrow> event_type \<Rightarrow> log_record list \<Rightarrow> log_record list"
where
  "stdout_on_io session event event_type out = out @
     [[(''event'', AText (event_type_as_str event_type)), (''session_id'', AText (si_session_id session)),
       (''pid'', from_u32 (pio_pid event)), (''ppid'', from_u32 (pio_ppid event)),
       (''uid'', from_u32 (pio_uid event)), (''gid'', from_u32 (pio_gid event)),
       (''euid'', from_u32 (pio_euid event)), (''comm'', AText (pio_comm event)),
       (''tty_nr'', from_u32 (pio_tty_nr event)), (''cgroup_id'', from_u64 (pio_cgroup_id event)),
       (''fd'', from_u32 (pio_fd event)), (''data_len'', AInt (int (length (pio_data event)))),
       (''count'', from_u64 (pio_count event)),
       (''data'', AText (lossy_string (pio_data event)))]]"

definition stdout_sink :: "log_record list sink" where
  "stdout_sink = \<lparr>sink_on_exec = stdout_on_exec, sink_on_exit = stdout_on_exit,
     sink_on_io = stdout_on_io\<rparr>"

section \<open>OpenTelemetry\<close>

definition MAX_IO_DATA_BYTES :: nat where "MAX_IO_DATA_BYTES = 4096"

record otel_record =
  o_body :: string
  o_attrs :: log_record

definition emit_record :: "session_info \<Rightarrow> string \<Rightarrow> log_record \<Rightarrow> otel_record list \<Rightarrow> otel_record list" where
  "emit_record session event_name attrs out = out @
     [\<lparr>o_body = event_name, o_attrs =
        [(''session_id'', AText (si_session_id session)), (''session.pid'', from_u32 (si_pid session)),
         (''session.comm'', AText (si_comm session)), (''session.uid'', from_u32 (si_uid session)),
         (''session.euid'', from_u32 (si_euid session)),
         (''session.tty_nr'', from_u32 (si_tty_nr session)),
         (''session.cgroup_id'', cast_signed (si_cgroup_id session))] @ attrs\<rparr>]"

text \<open>\<open>[String]::join(" ")\<close>.\<close>

fun join_space :: "string list \<Rightarrow> string" where
  "join_space [] = []"
| "join_space [s] = s"
| "join_space (s # t # ss) = s @ '' '' @ join_space (t # ss)"

definition otel_on_exec :: "session_info \<Rightarrow> parsed_exec_event \<Rightarrow> otel_record list \<Rightarrow> otel_record list" where
  "otel_on_exec session event = emit_record session ''exec''
     [(''pid'', from_u32 (px_pid event)), (''ppid'', from_u32 (px_ppid event)),
      (''uid'', from_u32 (px_uid event)), (''gid'', from_u32 (px_gid event)),
      (''euid'', from_u32 (px_euid event)), (''comm'', AText (px_comm event)),
      (''tty_nr'', from_u32 (px_tty_nr event)), (''cgroup_id'', cast_signed (px_cgroup_id event)),
      (''execution_id'', cast_signed (px_execution_id event)),
      (''filename'', AText (px_filename event)), (''argv'', AText (join_space (px_argv event))),
      (''retval'', cast_signed (px_retval event))]"

definition otel_on_exit :: "session_info \<Rightarrow> parsed_exit_event \<Rightarrow> bool \<Rightarrow> otel_record list \<Rightarrow> otel_record list"
where
  "otel_on_exit session event session_complete = emit_record session ''exit''
     [(''pid'', from_u32 (pe_pid event)), (''ppid'', from_u32 (pe_ppid event)),
      (''uid'', from_u32 (pe_uid event)), (''gid'', from_u32 (pe_gid event)),
      (''euid'', from_u32 (pe_euid event)), (''comm'', AText (pe_comm event)),
      (''tty_nr'', from_u32 (pe_tty_nr event)), (''cgroup_id'', cast_signed (pe_cgroup_id event)),
      (''execution_id'', cast_signed (pe_execution_id event)),
      (''exit_code'', AInt (sint (pe_exit_code event))),
      (''session_complete'', ABool session_complete)]"

text \<open>\<open>b64\<close> is the base64 encoder of the \<open>base64\<close> crate.\<close>

definition otel_on_io ::
  "(u8 list \<Rightarrow> string) \<Rightarrow> session_info \<Rightarrow> parsed_io_event \<Rightarrow> event_type \<Rightarrow> otel_record list \<Rightarrow> otel_record list"
where
  "otel_on_io b64 session event event_type out =
     (case (case event_type of Read \<Rightarrow> Some ''read'' | Write \<Rightarrow> Some ''write'' | Exec \<Rightarrow> None | Exit \<Rightarrow> None) of
        None \<Rightarrow> out
      | Some event_name \<Rightarrow>
          (let truncated = MAX_IO_DATA_BYTES < length (pio_data event);
               data_slice = take (min (length (pio_data event)) MAX_IO_DATA_BYTES) (pio_data event)
           in emit_record session event_name
             [(''pid'', from_u32 (pio_pid event)), (''ppid'', from_u32 (pio_ppid event)),
              (''uid'', from_u32 (pio_uid event)), (''gid'', from_u32 (pio_gid event)),
              (''euid'', from_u32 (pio_euid event)), (''comm'', AText (pio_comm event)),
              (''tty_nr'', from_u32 (pio_tty_nr event)), (''cgroup_id'', cast_signed (pio_cgroup_id event)),
              (''execution_id'', cast_signed (pio_execution_id event)),
              (''fd'', from_u32 (pio_fd event)), (''count'', cast_signed (pio_count event)),
              (''data_base64'', AText (b64 data_slice)), (''data_truncated'', ABool truncated)] out))"

definition otel_sink :: "(u8 list \<Rightarrow> string) \<Rightarrow> otel_record list sink" where
  "otel_sink b64 = \<lparr>sink_on_exec = otel_on_exec, sink_on_exit = otel_on_exit,
     sink_on_io = otel_on_io b64\<rparr>"

section \<open>Both are exact\<close>

definition text_attr :: "string \<Rightarrow> log_record \<Rightarrow> string" where
  "text_attr name r = (case map_of r name of Some (AText s) \<Rightarrow> s | _ \<Rightarrow> [])"

interpretation stdout: exact_sink stdout_sink "\<lambda>s. s" "text_attr ''session_id''"
proof (unfold_locales, goal_cases)
  case (1 s c)
  show ?case by (cases c) (simp_all add: stdout_sink_def stdout_on_exec_def stdout_on_exit_def stdout_on_io_def)
next
  case (2 c s)
  show ?case
    by (cases c) (simp_all add: stdout_sink_def stdout_on_exec_def stdout_on_exit_def stdout_on_io_def text_attr_def)
qed

interpretation otel: exact_sink "otel_sink b64" "\<lambda>s. s" "\<lambda>r. text_attr ''session_id'' (o_attrs r)" for b64
proof (unfold_locales, goal_cases)
  case (1 s c)
  show ?case
    by (cases c) (simp_all add: otel_sink_def otel_on_exec_def otel_on_exit_def otel_on_io_def
        emit_record_def Let_def split: event_type.splits)
next
  case (2 c s)
  then show ?case
    by (cases c) (auto simp: otel_sink_def otel_on_exec_def otel_on_exit_def otel_on_io_def
        emit_record_def Let_def text_attr_def)
qed

text \<open>The wire format bounds the data of an event, so the truncation flag is never set.\<close>

lemma otel_never_truncates:
  assumes "parsed_io_try_from data = Inr event"
  shows "\<not> MAX_IO_DATA_BYTES < length (pio_data event)"
  using parsed_io_data_bound [OF assms] by (simp add: MAX_IO_DATA_BYTES_def MAX_DATA_LEN_def)

end
