(* ===== verification/Display.thy ===== *)
theory Display
  imports Text EventParse Sinks
begin

text \<open>
  The texts that values are shown as: the \<open>Display\<close> implementations of \<open>shspectr-common/src/event.rs\<close>,
  \<open>event_type.rs\<close> and \<open>session.rs\<close>, and the names that the OpenTelemetry sink of \<open>otel_sink.rs\<close> computes
  at its start.
\<close>

section \<open>Event types and errors\<close>

definition event_type_display :: "event_type \<Rightarrow> string" where
  "event_type_display ty = event_type_as_str ty"

definition parse_event_type_error_display :: "parse_event_type_error \<Rightarrow> string" where
  "parse_event_type_error_display e = ''unknown event type''"

fun parse_error_display :: "parse_error \<Rightarrow> string" where
  "parse_error_display (BufferTooShort n g) = ''buffer too short: need '' @ dec n @ '' bytes, got '' @ dec g"
| "parse_error_display (InvalidWireVersion v) =
     ''unsupported wire version '' @ dec (unat v) @ '' (expected '' @ dec (unat WIRE_VERSION) @ '')''"
| "parse_error_display (InvalidEventType t) = ''invalid event type discriminant '' @ dec (unat t)"
| "parse_error_display (UnexpectedEventType e g) =
     ''expected '' @ e @ '' event type, got discriminant '' @ dec (unat g)"

lemma dec_inject: "dec m = dec n \<longleftrightarrow> m = n"
  by (metis option.inject parse_digits_dec)

lemma display_roundtrip: "event_type_from_str (event_type_display ty) = Inr ty"
  by (cases ty) (simp_all add: event_type_display_def event_type_from_str_def)

text \<open>The message tells the four kinds of error apart, and names the wrong version and type.\<close>

lemma parse_error_display_version: "parse_error_display (InvalidWireVersion v) = parse_error_display (InvalidWireVersion w) \<longleftrightarrow> v = w"
  by (simp add: dec_inject word_unat_eq_iff)

lemma parse_error_display_type: "parse_error_display (InvalidEventType t) = parse_error_display (InvalidEventType u) \<longleftrightarrow> t = u"
  by (simp add: dec_inject word_unat_eq_iff)

section \<open>The sizes that the compiler checks\<close>

definition size_assertions :: bool where
  "size_assertions \<longleftrightarrow> header_size = 80
     \<and> exec_event_size = 80 + MAX_FILENAME_LEN + MAX_ARGV_COUNT * MAX_ARG_LEN + 16
     \<and> io_event_size = 80 + 16 + MAX_DATA_LEN
     \<and> exit_event_size = 88"

text \<open>The images that the parsers read have these sizes.\<close>

lemma size_assertions_hold:
  "size_assertions"
  "wf_exec_event x \<Longrightarrow> length (exec_event_bytes x) = 80 + MAX_FILENAME_LEN + MAX_ARGV_COUNT * MAX_ARG_LEN + 16"
  "wf_io_event i \<Longrightarrow> length (io_event_bytes i) = 80 + 16 + MAX_DATA_LEN"
  "wf_exit_event e \<Longrightarrow> length (exit_event_bytes e) = 88"
  by (simp_all add: size_assertions_def layout length_exec_event_bytes length_io_event_bytes length_exit_event_bytes)

section \<open>Session ids\<close>

definition session_id_from :: "string \<Rightarrow> session_id" where
  "session_id_from s = s"

definition session_id_display :: "session_id \<Rightarrow> string" where
  "session_id_display i = i"

text \<open>A checked id is shown as the text it was made from; the unchecked conversion takes any text.\<close>

lemma session_id_new_display: "session_id_new s = Some i \<Longrightarrow> session_id_display i = s \<and> session_id_is_valid (session_id_display i)"
  by (auto simp: session_id_new_def session_id_display_def split: if_splits)

lemma session_id_from_unchecked: "session_id_is_valid (session_id_from s) \<longleftrightarrow> session_id_new s = Some (session_id_from s)"
  by (simp add: session_id_from_def session_id_new_def)

section \<open>The OpenTelemetry sink\<close>

text \<open>The environment variable, the contents of \<open>/etc/hostname\<close>, and the fallback.\<close>

definition gethostname :: "string option \<Rightarrow> string option \<Rightarrow> string" where
  "gethostname env_hostname etc_hostname =
     (case env_hostname of
        Some h \<Rightarrow> h
      | None \<Rightarrow> (case etc_hostname of Some s \<Rightarrow> str_trim s | None \<Rightarrow> ''unknown''))"

record otel_provider =
  op_service :: string
  op_host_name :: string
  op_endpoint :: string

text \<open>\<open>builds\<close> says whether the exporter for an endpoint can be built.\<close>

definition otel_sink_new :: "(string \<Rightarrow> bool) \<Rightarrow> string option \<Rightarrow> string option \<Rightarrow> string \<Rightarrow> otel_provider option" where
  "otel_sink_new builds env_hostname etc_hostname endpoint =
     (let hostname = gethostname env_hostname etc_hostname;
          url = endpoint @ ''/v1/logs''
      in if builds url
         then Some \<lparr>op_service = ''shspectr'', op_host_name = hostname, op_endpoint = url\<rparr>
         else None)"

end
