(* ===== verification/EventFilters.thy ===== *)
theory EventFilters
  imports Correlator
begin

text \<open>The collector's event filter, \<open>shspectr/src/filter.rs\<close>: OR of the active conditions.\<close>

section \<open>Configuration and input\<close>

record filter_config =
  filter_pty :: bool
  filter_ancestors :: "string list"

definition filter_config_is_empty :: "filter_config \<Rightarrow> bool" where
  "filter_config_is_empty config \<longleftrightarrow> \<not> filter_pty config \<and> filter_ancestors config = []"

record filter_input =
  fi_tty_nr :: u32
  fi_comm :: string
  fi_ancestor_comms :: "string list"

section \<open>The decision\<close>

text \<open>The loop over the ancestors, then the process's own name.\<close>

fun any_ancestor_listed :: "string list \<Rightarrow> string list \<Rightarrow> bool" where
  "any_ancestor_listed names [] = False"
| "any_ancestor_listed names (ancestor_comm # rest) =
     (if list_ex (\<lambda>name. name = ancestor_comm) names then True
      else any_ancestor_listed names rest)"

definition passes_filter :: "filter_config \<Rightarrow> filter_input \<Rightarrow> bool" where
  "passes_filter config inp =
     (if filter_config_is_empty config then True
      else if filter_pty config \<and> fi_tty_nr inp \<noteq> 0 then True
      else if filter_ancestors config \<noteq> [] then
        (if any_ancestor_listed (filter_ancestors config) (fi_ancestor_comms inp) then True
         else if list_ex (\<lambda>name. name = fi_comm inp) (filter_ancestors config) then True
         else False)
      else False)"

section \<open>What it means\<close>

lemma any_ancestor_listed_iff:
  "any_ancestor_listed names comms \<longleftrightarrow> set names \<inter> set comms \<noteq> {}"
  by (induction comms) (auto simp: list_ex_iff)

lemma passes_filter_iff:
  "passes_filter config inp \<longleftrightarrow>
     filter_config_is_empty config \<or> (filter_pty config \<and> fi_tty_nr inp \<noteq> 0)
     \<or> set (filter_ancestors config) \<inter> insert (fi_comm inp) (set (fi_ancestor_comms inp)) \<noteq> {}"
  by (auto simp: passes_filter_def any_ancestor_listed_iff list_ex_iff)

text \<open>
  With no filter configured every event passes. Otherwise an event passes exactly when the PTY
  filter is on and it has a terminal, or when the process or one of its ancestors up to 32 levels
  up has a configured name.
\<close>

lemma passes_filter_meaning:
  "passes_filter config \<lparr>fi_tty_nr = tty, fi_comm = comm, fi_ancestor_comms = ancestor_comms c pid\<rparr> =
     ((filter_pty config \<and> tty \<noteq> 0)
      \<or> filter_config_is_empty config
      \<or> comm \<in> set (filter_ancestors config)
      \<or> (\<exists>k a q. 0 < k \<and> k \<le> 32 \<and> (pid, q) \<in> parent_rel c ^^ k \<and> tracked c q = Some a
           \<and> p_comm a \<in> set (filter_ancestors config)))"
proof -
  have "set (filter_ancestors config) \<inter> insert comm (set (ancestor_comms c pid)) \<noteq> {} \<longleftrightarrow>
      comm \<in> set (filter_ancestors config)
      \<or> (\<exists>k a q. 0 < k \<and> k \<le> 32 \<and> (pid, q) \<in> parent_rel c ^^ k \<and> tracked c q = Some a
           \<and> p_comm a \<in> set (filter_ancestors config))"
    unfolding ancestor_comms_def ancestor_walk_set by blast
  then show ?thesis by (auto simp: passes_filter_iff filter_config_is_empty_def)
qed

lemma passes_filter_mono:
  assumes "\<not> filter_config_is_empty config" "passes_filter config inp"
  shows "passes_filter (config\<lparr>filter_ancestors := names @ filter_ancestors config\<rparr>) inp"
  using assms by (auto simp: passes_filter_iff filter_config_is_empty_def)

end
