(* ===== verification/Database.thy ===== *)
theory Database
  imports Wire Correlator
begin

text \<open>
  The database that the collector writes and the web server reads: the two tables of
  \<open>shspectr-common/src/schema.rs\<close> as lists of typed rows. An SQLite INTEGER is a signed 64-bit
  number, an \<open>int\<close> here; a column without NOT NULL is an option.

  SQLite itself is not code of the repository. The model uses of it what its documentation says of
  the statements that occur: \<open>AUTOINCREMENT\<close> gives every new row an id above every id that was ever
  used, \<open>INSERT OR IGNORE\<close> leaves an existing primary key alone, and a foreign key without a parent
  row is rejected when the library enforces foreign keys (\<open>db_fk\<close>; the bundled library does).
\<close>

section \<open>Rows\<close>

record session_row =
  sr_id :: string
  sr_started_at :: string
  sr_ended_at :: "string option"
  sr_root_pid :: int
  sr_root_comm :: "string option"
  sr_uid :: int
  sr_euid :: int
  sr_tty_nr :: "int option"
  sr_cgroup_id :: "int option"

record event_row =
  er_id :: int
  er_session_id :: string
  er_event_type :: int
  er_timestamp :: string
  er_pid :: int
  er_ppid :: int
  er_uid :: int
  er_gid :: int
  er_euid :: int
  er_comm :: "string option"
  er_tty_nr :: "int option"
  er_execution_id :: int
  er_filename :: "string option"
  er_argv :: "string option"
  er_fd :: "int option"
  er_data :: "string option"
  er_data_len :: "int option"
  er_byte_count :: "int option"
  er_exit_code :: "int option"

record database =
  db_fk :: bool
  db_sessions :: "session_row list"
  db_events :: "event_row list"
  db_seq :: int

definition empty_database :: "bool \<Rightarrow> database" where
  "empty_database fk = \<lparr>db_fk = fk, db_sessions = [], db_events = [], db_seq = 0\<rparr>"

section \<open>Numbers\<close>

definition I64_MAX :: int where "I64_MAX = 2 ^ 63 - 1"

text \<open>\<open>i64::try_from(w).unwrap_or(i64::MAX)\<close>.\<close>

definition saturate_i64 :: "u64 \<Rightarrow> int" where
  "saturate_i64 w = (if uint w \<le> I64_MAX then uint w else I64_MAX)"

definition int_u32 :: "u32 \<Rightarrow> int" where
  "int_u32 w = uint w"

lemma saturate_i64_bounds: "0 \<le> saturate_i64 w \<and> saturate_i64 w \<le> I64_MAX"
  by (auto simp: saturate_i64_def I64_MAX_def)

lemma saturate_i64_exact: "uint w < 2 ^ 63 \<Longrightarrow> saturate_i64 w = uint w"
  by (simp add: saturate_i64_def I64_MAX_def)

lemma int_u32_eq_iff [simp]: "int_u32 a = int_u32 b \<longleftrightarrow> a = b"
  by (simp add: int_u32_def word_uint_eq_iff)

lemma int_u32_bounds: "0 \<le> int_u32 w \<and> int_u32 w < 2 ^ 32"
  using unsigned_less [of w] by (auto simp: int_u32_def)

section \<open>Statements\<close>

definition session_exists :: "string \<Rightarrow> database \<Rightarrow> bool" where
  "session_exists sid db \<longleftrightarrow> list_ex (\<lambda>r. sr_id r = sid) (db_sessions db)"

definition insert_session_or_ignore :: "session_row \<Rightarrow> database \<Rightarrow> database" where
  "insert_session_or_ignore r db =
     (if session_exists (sr_id r) db then db else db\<lparr>db_sessions := db_sessions db @ [r]\<rparr>)"

text \<open>\<open>None\<close>: the statement fails and changes nothing.\<close>

definition insert_event :: "event_row \<Rightarrow> database \<Rightarrow> database option" where
  "insert_event r db =
     (if db_fk db \<and> \<not> session_exists (er_session_id r) db then None
      else if I64_MAX \<le> db_seq db then None
      else (let i = db_seq db + 1
            in Some (db\<lparr>db_events := db_events db @ [r\<lparr>er_id := i\<rparr>], db_seq := i\<rparr>)))"

definition update_events :: "(event_row \<Rightarrow> bool) \<Rightarrow> (event_row \<Rightarrow> event_row) \<Rightarrow> database \<Rightarrow> database" where
  "update_events p f db = db\<lparr>db_events := map (\<lambda>r. if p r then f r else r) (db_events db)\<rparr>"

definition update_sessions :: "(session_row \<Rightarrow> bool) \<Rightarrow> (session_row \<Rightarrow> session_row) \<Rightarrow> database \<Rightarrow> database"
where
  "update_sessions p f db = db\<lparr>db_sessions := map (\<lambda>r. if p r then f r else r) (db_sessions db)\<rparr>"

section \<open>Well-formed databases\<close>

definition wf_database :: "database \<Rightarrow> bool" where
  "wf_database db \<longleftrightarrow>
     distinct (map sr_id (db_sessions db))
     \<and> sorted_wrt (<) (map er_id (db_events db))
     \<and> (\<forall>r \<in> set (db_events db). 0 < er_id r \<and> er_id r \<le> db_seq db
          \<and> (db_fk db \<longrightarrow> session_exists (er_session_id r) db))
     \<and> 0 \<le> db_seq db \<and> db_seq db \<le> I64_MAX"

lemma wf_empty_database: "wf_database (empty_database fk)"
  by (simp add: wf_database_def empty_database_def I64_MAX_def)

lemma session_exists_iff: "session_exists sid db \<longleftrightarrow> sid \<in> sr_id ` set (db_sessions db)"
  by (auto simp: session_exists_def list_ex_iff)

lemma insert_session_wf [wf]: "wf_database db \<Longrightarrow> wf_database (insert_session_or_ignore r db)"
  by (auto simp: wf_database_def insert_session_or_ignore_def session_exists_iff)

lemma insert_session_exists: "session_exists (sr_id r) (insert_session_or_ignore r db)"
  by (simp add: insert_session_or_ignore_def session_exists_iff)

lemma insert_event_wf:
  "wf_database db \<Longrightarrow> insert_event r db = Some db' \<Longrightarrow> wf_database db'"
  by (auto simp: wf_database_def insert_event_def Let_def sorted_wrt_append session_exists_def
      split: if_splits) (force intro: order.strict_trans1)+

lemma map_conditional:
  "(\<And>r. g (f r) = g r) \<Longrightarrow> map (g \<circ> (\<lambda>r. if p r then f r else r)) xs = map g xs"
  by auto

lemma map_update_ids:
  "(\<And>r. er_id (f r) = er_id r) \<Longrightarrow> map er_id (db_events (update_events p f db)) = map er_id (db_events db)"
  by (simp add: update_events_def)

lemma update_events_wf:
  assumes "wf_database db" "\<And>r. er_id (f r) = er_id r" "\<And>r. er_session_id (f r) = er_session_id r"
  shows "wf_database (update_events p f db)"
proof -
  have ids: "map er_id (db_events (update_events p f db)) = map er_id (db_events db)"
    using assms(2) by (rule map_update_ids)
  show ?thesis
    using assms ids unfolding wf_database_def
    by (auto simp: update_events_def session_exists_def simp del: map_map)
qed

lemma update_sessions_wf:
  assumes "wf_database db" "\<And>r. sr_id (f r) = sr_id r"
  shows "wf_database (update_sessions p f db)"
proof -
  have ids: "map sr_id (db_sessions (update_sessions p f db)) = map sr_id (db_sessions db)"
    using assms(2) by (simp add: update_sessions_def)
  then have "session_exists sid (update_sessions p f db) = session_exists sid db" for sid
    unfolding session_exists_iff by (metis list.set_map)
  with assms(1) ids show ?thesis unfolding wf_database_def
    by (simp add: update_sessions_def del: map_map)
qed

lemma wf_ids_distinct: "wf_database db \<Longrightarrow> distinct (map er_id (db_events db))"
  unfolding wf_database_def by (metis strict_sorted_iff)

end
