(* ===== verification/SqliteSink.thy ===== *)
theory SqliteSink
  imports Database Sinks
begin

text \<open>
  The SQLite sink, \<open>shspectr/src/sqlite_sink.rs\<close>. Every statement commits on its own, so a call
  that fails half way keeps what its earlier statements did: an operation returns the database and
  whether it succeeded.

  \<open>sql_env\<close> holds what the surroundings answer during one call: the clock of the n-th statement,
  whether the n-th statement fails for a reason outside the model (a locked file, a full disk), and
  the JSON encoder of \<open>serde_json\<close>.
\<close>

record sql_env =
  se_now :: "nat \<Rightarrow> string"
  se_fails :: "nat \<Rightarrow> bool"
  se_json :: "string list \<Rightarrow> string"

definition sql_run :: "sql_env \<Rightarrow> nat \<Rightarrow> (database \<Rightarrow> database option) \<Rightarrow> database \<Rightarrow> database \<times> bool" where
  "sql_run env n stmt db =
     (if se_fails env n then (db, False)
      else (case stmt db of None \<Rightarrow> (db, False) | Some db' \<Rightarrow> (db', True)))"

section \<open>Rows\<close>

definition session_row_of :: "string \<Rightarrow> session_info \<Rightarrow> session_row" where
  "session_row_of now info =
     \<lparr>sr_id = si_session_id info, sr_started_at = now, sr_ended_at = None,
      sr_root_pid = int_u32 (si_pid info), sr_root_comm = Some (si_comm info),
      sr_uid = int_u32 (si_uid info), sr_euid = int_u32 (si_euid info),
      sr_tty_nr = Some (int_u32 (si_tty_nr info)),
      sr_cgroup_id = Some (saturate_i64 (si_cgroup_id info))\<rparr>"

definition exec_row :: "string \<Rightarrow> string \<Rightarrow> session_id \<Rightarrow> parsed_exec_event \<Rightarrow> event_row" where
  "exec_row now argv_json sid event =
     \<lparr>er_id = 0, er_session_id = sid, er_event_type = int_u32 (event_type_as_wire Exec),
      er_timestamp = now, er_pid = int_u32 (px_pid event), er_ppid = int_u32 (px_ppid event),
      er_uid = int_u32 (px_uid event), er_gid = int_u32 (px_gid event),
      er_euid = int_u32 (px_euid event), er_comm = Some (px_comm event),
      er_tty_nr = Some (int_u32 (px_tty_nr event)),
      er_execution_id = saturate_i64 (px_execution_id event),
      er_filename = Some (px_filename event), er_argv = Some argv_json, er_fd = None,
      er_data = None, er_data_len = None, er_byte_count = None, er_exit_code = None\<rparr>"

definition exit_row :: "string \<Rightarrow> session_id \<Rightarrow> parsed_exit_event \<Rightarrow> event_row" where
  "exit_row now sid event =
     \<lparr>er_id = 0, er_session_id = sid, er_event_type = int_u32 (event_type_as_wire Exit),
      er_timestamp = now, er_pid = int_u32 (pe_pid event), er_ppid = int_u32 (pe_ppid event),
      er_uid = int_u32 (pe_uid event), er_gid = int_u32 (pe_gid event),
      er_euid = int_u32 (pe_euid event), er_comm = Some (pe_comm event),
      er_tty_nr = Some (int_u32 (pe_tty_nr event)),
      er_execution_id = saturate_i64 (pe_execution_id event),
      er_filename = None, er_argv = None, er_fd = None, er_data = None, er_data_len = None,
      er_byte_count = None, er_exit_code = Some (sint (pe_exit_code event))\<rparr>"

definition io_row :: "string \<Rightarrow> session_id \<Rightarrow> parsed_io_event \<Rightarrow> event_type \<Rightarrow> event_row" where
  "io_row now sid event ty =
     \<lparr>er_id = 0, er_session_id = sid, er_event_type = int_u32 (event_type_as_wire ty),
      er_timestamp = now, er_pid = int_u32 (pio_pid event), er_ppid = int_u32 (pio_ppid event),
      er_uid = int_u32 (pio_uid event), er_gid = int_u32 (pio_gid event),
      er_euid = int_u32 (pio_euid event), er_comm = Some (pio_comm event),
      er_tty_nr = Some (int_u32 (pio_tty_nr event)),
      er_execution_id = saturate_i64 (pio_execution_id event),
      er_filename = None, er_argv = None, er_fd = Some (int_u32 (pio_fd event)),
      er_data = Some (lossy_string (pio_data event)),
      er_data_len = Some (min (int (length (pio_data event))) I64_MAX),
      er_byte_count = Some (saturate_i64 (pio_count event)), er_exit_code = None\<rparr>"

text \<open>The row that a call adds, if it adds one.\<close>

fun call_row :: "sql_env \<Rightarrow> sink_call \<Rightarrow> event_row" where
  "call_row env (CallExec si e) = exec_row (se_now env 1) (se_json env (px_argv e)) (si_session_id si) e"
| "call_row env (CallExit si e complete) = exit_row (se_now env 0) (si_session_id si) e"
| "call_row env (CallIo si e ty) = io_row (se_now env 0) (si_session_id si) e ty"

section \<open>Operations\<close>

definition ensure_session :: "sql_env \<Rightarrow> session_info \<Rightarrow> database \<Rightarrow> database \<times> bool" where
  "ensure_session env info =
     sql_run env 0 (\<lambda>db. Some (insert_session_or_ignore (session_row_of (se_now env 0) info) db))"

definition insert_exec :: "sql_env \<Rightarrow> session_id \<Rightarrow> parsed_exec_event \<Rightarrow> database \<Rightarrow> database \<times> bool" where
  "insert_exec env sid event =
     sql_run env 1 (insert_event (exec_row (se_now env 1) (se_json env (px_argv event)) sid event))"

text \<open>The subquery of the backfill: the largest id among the matching rows.\<close>

definition newest_id :: "(event_row \<Rightarrow> bool) \<Rightarrow> event_row list \<Rightarrow> int option" where
  "newest_id p rows =
     (case filter p rows of [] \<Rightarrow> None | r # rs \<Rightarrow> Some (foldl max (er_id r) (map er_id rs)))"

definition exec_of_execution :: "session_id \<Rightarrow> u32 \<Rightarrow> u64 \<Rightarrow> event_row \<Rightarrow> bool" where
  "exec_of_execution sid pid execution_id r \<longleftrightarrow>
     er_session_id r = sid \<and> er_pid r = int_u32 pid
     \<and> er_execution_id r = saturate_i64 execution_id
     \<and> er_event_type r = int_u32 (event_type_as_wire Exec)"

definition backfill_exit_code :: "session_id \<Rightarrow> parsed_exit_event \<Rightarrow> database \<Rightarrow> database" where
  "backfill_exit_code sid event db =
     (let target = newest_id (exec_of_execution sid (pe_pid event) (pe_execution_id event)) (db_events db)
      in update_events (\<lambda>r. target = Some (er_id r))
           (\<lambda>r. r\<lparr>er_exit_code := Some (sint (pe_exit_code event))\<rparr>) db)"

definition insert_exit :: "sql_env \<Rightarrow> session_id \<Rightarrow> parsed_exit_event \<Rightarrow> bool \<Rightarrow> database \<Rightarrow> database \<times> bool"
where
  "insert_exit env sid event session_complete db =
     (let (db, ok) = sql_run env 0 (insert_event (exit_row (se_now env 0) sid event)) db
      in if \<not> ok then (db, False)
         else let (db, ok) = sql_run env 1 (\<lambda>db. Some (backfill_exit_code sid event db)) db
      in if \<not> ok then (db, False)
         else if session_complete
         then sql_run env 2 (\<lambda>db. Some (update_sessions (\<lambda>r. sr_id r = sid)
                (\<lambda>r. r\<lparr>sr_ended_at := Some (se_now env 2)\<rparr>) db)) db
         else (db, True))"

definition insert_io :: "sql_env \<Rightarrow> session_id \<Rightarrow> parsed_io_event \<Rightarrow> event_type \<Rightarrow> database \<Rightarrow> database \<times> bool"
where
  "insert_io env sid event ty = sql_run env 0 (insert_event (io_row (se_now env 0) sid event ty))"

section \<open>The sink\<close>

text \<open>A failed statement is logged and otherwise ignored.\<close>

definition sqlite_on_exec :: "sql_env \<Rightarrow> session_info \<Rightarrow> parsed_exec_event \<Rightarrow> database \<Rightarrow> database" where
  "sqlite_on_exec env session event db =
     (let db = fst (ensure_session env session db)
      in fst (insert_exec env (si_session_id session) event db))"

definition sqlite_on_exit :: "sql_env \<Rightarrow> session_info \<Rightarrow> parsed_exit_event \<Rightarrow> bool \<Rightarrow> database \<Rightarrow> database"
where
  "sqlite_on_exit env session event session_complete db =
     fst (insert_exit env (si_session_id session) event session_complete db)"

definition sqlite_on_io :: "sql_env \<Rightarrow> session_info \<Rightarrow> parsed_io_event \<Rightarrow> event_type \<Rightarrow> database \<Rightarrow> database"
where
  "sqlite_on_io env session event ty db = fst (insert_io env (si_session_id session) event ty db)"

definition sqlite_sink :: "sql_env \<Rightarrow> database sink" where
  "sqlite_sink env = \<lparr>sink_on_exec = sqlite_on_exec env, sink_on_exit = sqlite_on_exit env,
     sink_on_io = sqlite_on_io env\<rparr>"

section \<open>Well-formedness\<close>

lemma sql_run_cases:
  "sql_run env n stmt db = (db', ok) \<Longrightarrow> (db' = db \<and> \<not> ok) \<or> (stmt db = Some db' \<and> ok)"
  by (auto simp: sql_run_def split: if_splits option.splits)

lemma sql_run_fst: "fst (sql_run env n stmt db) = db \<or> stmt db = Some (fst (sql_run env n stmt db))"
  by (auto simp: sql_run_def split: option.splits)

lemma backfill_wf: "wf_database db \<Longrightarrow> wf_database (backfill_exit_code sid event db)"
  unfolding backfill_exit_code_def Let_def by (rule update_events_wf) simp_all

lemma close_session_wf:
  "wf_database db \<Longrightarrow> wf_database (update_sessions p (\<lambda>r. r\<lparr>sr_ended_at := t\<rparr>) db)"
  by (rule update_sessions_wf) simp_all

lemma ensure_session_wf: "wf_database db \<Longrightarrow> wf_database (fst (ensure_session env info db))"
  by (simp add: ensure_session_def sql_run_def wf)

lemma insert_exec_wf: "wf_database db \<Longrightarrow> wf_database (fst (insert_exec env sid event db))"
  by (auto simp: insert_exec_def sql_run_def split: option.splits intro: insert_event_wf)

lemma insert_io_wf: "wf_database db \<Longrightarrow> wf_database (fst (insert_io env sid event ty db))"
  by (auto simp: insert_io_def sql_run_def split: option.splits intro: insert_event_wf)

lemma insert_exit_wf: "wf_database db \<Longrightarrow> wf_database (fst (insert_exit env sid event c db))"
  by (auto simp: insert_exit_def sql_run_def split: option.splits prod.splits
      intro!: backfill_wf close_session_wf intro: insert_event_wf)

lemma sqlite_sink_wf: "wf_database db \<Longrightarrow> wf_database (sink_do (sqlite_sink env) c db)"
  by (cases c) (auto simp: sqlite_sink_def sqlite_on_exec_def sqlite_on_exit_def sqlite_on_io_def Let_def
      intro: insert_exec_wf ensure_session_wf insert_exit_wf insert_io_wf)

section \<open>The sink contract\<close>

lemma insert_event_length:
  "insert_event r db = Some db' \<Longrightarrow> length (db_events db') = Suc (length (db_events db))"
  by (auto simp: insert_event_def Let_def split: if_splits)

lemma length_update [simp]:
  "length (db_events (update_events p f db)) = length (db_events db)"
  "db_events (update_sessions q g db) = db_events db"
  "db_events (insert_session_or_ignore r db) = db_events db"
  by (simp_all add: update_events_def update_sessions_def insert_session_or_ignore_def)

interpretation sqlite: event_sink "sqlite_sink env" "\<lambda>db. length (db_events db)" for env
proof (unfold_locales, goal_cases)
  case (1 s c)
  show ?case
    by (cases c) (auto simp: sqlite_sink_def sqlite_on_exec_def sqlite_on_exit_def sqlite_on_io_def
        insert_exec_def ensure_session_def insert_exit_def insert_io_def backfill_exit_code_def Let_def
        sql_run_def split: option.splits prod.splits dest!: insert_event_length)
qed


section \<open>The backfill\<close>

lemma newest_id_None: "newest_id p rows = None \<longleftrightarrow> (\<forall>r \<in> set rows. \<not> p r)"
  by (simp add: newest_id_def filter_empty_conv [symmetric] split: list.splits)

lemma newest_id_Some:
  assumes "newest_id p rows = Some i"
  shows "\<exists>r \<in> set rows. p r \<and> er_id r = i" "\<forall>r \<in> set rows. p r \<longrightarrow> er_id r \<le> i"
proof -
  obtain r rs where rs: "filter p rows = r # rs" and i: "i = foldl max (er_id r) (map er_id rs)"
    using assms by (auto simp: newest_id_def split: list.splits)
  have i: "i = Max (er_id ` set (filter p rows))" unfolding i rs foldl_max by simp
  have "er_id ` set (filter p rows) \<noteq> {}" unfolding rs by simp
  then have "i \<in> er_id ` set (filter p rows)" unfolding i by (intro Max_in) simp_all
  then show "\<exists>r \<in> set rows. p r \<and> er_id r = i" by auto
  show "\<forall>r \<in> set rows. p r \<longrightarrow> er_id r \<le> i" unfolding i by simp
qed

text \<open>The row the backfill changes: the newest exec row of the execution.\<close>

definition newest_exec :: "session_id \<Rightarrow> u32 \<Rightarrow> u64 \<Rightarrow> event_row list \<Rightarrow> event_row \<Rightarrow> bool" where
  "newest_exec sid pid eid rows r \<longleftrightarrow>
     exec_of_execution sid pid eid r \<and> (\<forall>r' \<in> set rows. exec_of_execution sid pid eid r' \<longrightarrow> er_id r' \<le> er_id r)"

lemma newest_id_target:
  assumes "distinct (map er_id rows)" "r \<in> set rows"
  shows "newest_id (exec_of_execution sid pid eid) rows = Some (er_id r) \<longleftrightarrow> newest_exec sid pid eid rows r"
proof
  assume *: "newest_id (exec_of_execution sid pid eid) rows = Some (er_id r)"
  obtain r' where "r' \<in> set rows" "exec_of_execution sid pid eid r'" "er_id r' = er_id r"
    using newest_id_Some(1) [OF *] by blast
  then have "exec_of_execution sid pid eid r"
    using assms by (metis eq_key_imp_eq_value distinct_map inj_on_def)
  with newest_id_Some(2) [OF *] show "newest_exec sid pid eid rows r" by (simp add: newest_exec_def)
next
  assume r: "newest_exec sid pid eid rows r"
  then obtain i where i: "newest_id (exec_of_execution sid pid eid) rows = Some i"
    using newest_id_None [of "exec_of_execution sid pid eid" rows] assms(2)
    by (cases "newest_id (exec_of_execution sid pid eid) rows") (auto simp: newest_exec_def)
  then have "i = er_id r"
    using r newest_id_Some [OF i] assms(2) by (force simp: newest_exec_def)
  with i show "newest_id (exec_of_execution sid pid eid) rows = Some (er_id r)" by simp
qed

section \<open>Properties\<close>

text \<open>After an exit row has been inserted, the backfill changes exactly the newest exec row of its execution.\<close>

lemma backfill_rows_exact:
  assumes "wf_database db" "\<not> exec_of_execution sid (pe_pid event) (pe_execution_id event) x" "er_id x = db_seq db + 1"
  shows "db_events (backfill_exit_code sid event (db\<lparr>db_events := db_events db @ [x], db_seq := n\<rparr>)) =
      map (\<lambda>r. if newest_exec sid (pe_pid event) (pe_execution_id event) (db_events db) r
               then r\<lparr>er_exit_code := Some (sint (pe_exit_code event))\<rparr> else r) (db_events db) @ [x]"
proof -
  let ?p = "exec_of_execution sid (pe_pid event) (pe_execution_id event)"
  let ?db1 = "db\<lparr>db_events := db_events db @ [x], db_seq := n\<rparr>"
  have same: "newest_id ?p (db_events ?db1) = newest_id ?p (db_events db)"
    using assms(2) by (simp add: newest_id_def)
  have target: "newest_id ?p (db_events db) = Some (er_id r) \<longleftrightarrow>
      newest_exec sid (pe_pid event) (pe_execution_id event) (db_events db) r" if "r \<in> set (db_events db)" for r
    using newest_id_target [OF wf_ids_distinct [OF assms(1)] that] .
  have not_x: "newest_id ?p (db_events db) \<noteq> Some (er_id x)"
  proof
    assume "newest_id ?p (db_events db) = Some (er_id x)"
    from newest_id_Some(1) [OF this] assms(1,3) show False by (auto simp: wf_database_def)
  qed
  show ?thesis
    using not_x target by (simp add: backfill_exit_code_def Let_def same [simplified] update_events_def)
qed

lemma exit_row_no_exec: "\<not> exec_of_execution sid pid eid ((exit_row now sid' event)\<lparr>er_id := n\<rparr>)"
  by (simp add: exec_of_execution_def exit_row_def)

lemma exit_inserted:
  assumes "wf_database db" "insert_exit env sid event complete db = (db', True)"
  shows "\<exists>x. db_events db' =
      map (\<lambda>r. if newest_exec sid (pe_pid event) (pe_execution_id event) (db_events db) r
               then r\<lparr>er_exit_code := Some (sint (pe_exit_code event))\<rparr> else r) (db_events db) @ [x]
    \<and> x = (exit_row (se_now env 0) sid event)\<lparr>er_id := db_seq db + 1\<rparr>
    \<and> db_sessions db' = (if complete
        then map (\<lambda>r. if sr_id r = sid then r\<lparr>sr_ended_at := Some (se_now env 2)\<rparr> else r) (db_sessions db)
        else db_sessions db)"
proof -
  let ?x = "(exit_row (se_now env 0) sid event)\<lparr>er_id := db_seq db + 1\<rparr>"
  let ?db1 = "db\<lparr>db_events := db_events db @ [?x], db_seq := db_seq db + 1\<rparr>"
  have ins: "insert_event (exit_row (se_now env 0) sid event) db = Some ?db1"
    using assms(2) by (auto simp: insert_exit_def sql_run_def insert_event_def Let_def
        split: option.splits if_splits)
  have ev: "db_events (backfill_exit_code sid event ?db1) =
      map (\<lambda>r. if newest_exec sid (pe_pid event) (pe_execution_id event) (db_events db) r
               then r\<lparr>er_exit_code := Some (sint (pe_exit_code event))\<rparr> else r) (db_events db) @ [?x]"
    by (rule backfill_rows_exact [OF assms(1) exit_row_no_exec]) simp
  have "db' = (if complete then update_sessions (\<lambda>r. sr_id r = sid) (\<lambda>r. r\<lparr>sr_ended_at := Some (se_now env 2)\<rparr>)
        (backfill_exit_code sid event ?db1) else backfill_exit_code sid event ?db1)"
    using assms(2) ins by (auto simp: insert_exit_def sql_run_def split: if_splits)
  then show ?thesis
    using ev by (auto simp: update_sessions_def backfill_exit_code_def Let_def update_events_def)
qed

text \<open>
  C24: When the statements of an exit call succeed, the call appends one exit row, sets the exit code
  of exactly the newest exec row of the same session, process and execution id (no other stored row
  changes), and ends exactly the call's session, only when it is complete.
\<close>

theorem exit_backfills_newest_exec:
  assumes "wf_database db" "insert_exit env sid event complete db = (db', True)"
  shows "\<exists>x. db_events db' =
      map (\<lambda>r. if newest_exec sid (pe_pid event) (pe_execution_id event) (db_events db) r
               then r\<lparr>er_exit_code := Some (sint (pe_exit_code event))\<rparr> else r) (db_events db) @ [x]
    \<and> x = (exit_row (se_now env 0) sid event)\<lparr>er_id := db_seq db + 1\<rparr>
    \<and> db_sessions db' = (if complete
        then map (\<lambda>r. if sr_id r = sid then r\<lparr>sr_ended_at := Some (se_now env 2)\<rparr> else r) (db_sessions db)
        else db_sessions db)"
  using assms by (rule exit_inserted)

definition sample_sql_env :: sql_env where
  "sample_sql_env = \<lparr>se_now = (\<lambda>_. ''2024-01-01 00:00:00''), se_fails = (\<lambda>_. False), se_json = concat\<rparr>"

definition sample_session :: session_info where
  "sample_session = \<lparr>si_session_id = ''ox_k7m3qx9p'', si_pid = 7, si_comm = ''sh'', si_uid = 0,
     si_euid = 0, si_tty_nr = 0, si_cgroup_id = 1\<rparr>"

definition sample_exec :: parsed_exec_event where
  "sample_exec = \<lparr>px_pid = 7, px_ppid = 1, px_uid = 0, px_gid = 0, px_euid = 0, px_comm = ''sh'',
     px_tty_nr = 0, px_cgroup_id = 1, px_execution_id = 42, px_filename = ''/bin/ls'',
     px_argv = [''ls''], px_retval = 0\<rparr>"

definition sample_exit :: parsed_exit_event where
  "sample_exit = \<lparr>pe_pid = 7, pe_ppid = 1, pe_uid = 0, pe_gid = 0, pe_euid = 0, pe_comm = ''ls'',
     pe_tty_nr = 0, pe_cgroup_id = 1, pe_execution_id = 42, pe_exit_code = 3\<rparr>"

definition sample_db :: database where
  "sample_db = sqlite_on_exec sample_sql_env sample_session sample_exec (empty_database True)"

lemma wf_sample_db: "wf_database sample_db"
  unfolding sample_db_def sqlite_on_exec_def Let_def
  by (intro insert_exec_wf ensure_session_wf wf_empty_database)

lemmas sample_run = sample_db_def sqlite_on_exec_def ensure_session_def insert_exec_def sql_run_def
  sample_sql_env_def insert_session_or_ignore_def insert_event_def session_exists_def
  session_row_of_def exec_row_def sample_session_def sample_exec_def empty_database_def I64_MAX_def

theorem exit_backfills_newest_exec_witness:
  "\<exists>db' r x. insert_exit sample_sql_env ''ox_k7m3qx9p'' sample_exit True sample_db = (db', True)
     \<and> db_events db' = [r, x] \<and> er_exit_code r = Some 3 \<and> er_exit_code x = Some 3"
proof -
  have "snd (insert_exit sample_sql_env ''ox_k7m3qx9p'' sample_exit True sample_db)"
    by (simp add: insert_exit_def sample_run exit_row_def sample_exit_def Let_def)
  then obtain db' where ok: "insert_exit sample_sql_env ''ox_k7m3qx9p'' sample_exit True sample_db = (db', True)"
    by (metis (full_types) prod.collapse)
  have "db_events sample_db = [(exec_row ''2024-01-01 00:00:00'' ''ls'' ''ox_k7m3qx9p'' sample_exec)\<lparr>er_id := 1\<rparr>]"
    by (simp add: sample_run Let_def)
  then show ?thesis
    using ok exit_backfills_newest_exec [OF wf_sample_db ok]
    by (auto simp: newest_exec_def exec_of_execution_def exec_row_def sample_exec_def sample_exit_def exit_row_def)
qed

text \<open>
  An exec event is always storable: if no statement fails for outside reasons and the row ids are
  not exhausted, the call stores exactly one new row with the event's fields under a fresh id, and
  afterwards its session has a row, created with this event's process when it had none and left as
  it was otherwise.
\<close>

lemma exec_is_recorded:
  assumes "\<not> se_fails env 0" "\<not> se_fails env 1" "db_seq db < I64_MAX"
  shows "db_events (sqlite_on_exec env info event db) = db_events db @
      [(exec_row (se_now env 1) (se_json env (px_argv event)) (si_session_id info) event)\<lparr>er_id := db_seq db + 1\<rparr>]
    \<and> db_sessions (sqlite_on_exec env info event db) =
        (if session_exists (si_session_id info) db then db_sessions db
         else db_sessions db @ [session_row_of (se_now env 0) info])
    \<and> session_exists (si_session_id info) (sqlite_on_exec env info event db)"
proof -
  let ?db = "insert_session_or_ignore (session_row_of (se_now env 0) info) db"
  have id: "sr_id (session_row_of (se_now env 0) info) = si_session_id info" by (simp add: session_row_of_def)
  have ex: "session_exists (si_session_id info) ?db"
    using insert_session_exists [of "session_row_of (se_now env 0) info" db] by (simp add: id)
  have "er_session_id (exec_row n j (si_session_id info) event) = si_session_id info" for n j
    by (simp add: exec_row_def)
  then have res: "sqlite_on_exec env info event db = ?db\<lparr>db_events := db_events ?db @
      [(exec_row (se_now env 1) (se_json env (px_argv event)) (si_session_id info) event)\<lparr>er_id := db_seq ?db + 1\<rparr>],
      db_seq := db_seq ?db + 1\<rparr>"
    using assms ex
    by (simp add: sqlite_on_exec_def ensure_session_def insert_exec_def sql_run_def insert_event_def Let_def
        insert_session_or_ignore_def)
  have "db_seq ?db = db_seq db" "db_events ?db = db_events db" by (simp_all add: insert_session_or_ignore_def)
  moreover have "db_sessions ?db = (if session_exists (si_session_id info) db then db_sessions db
      else db_sessions db @ [session_row_of (se_now env 0) info])"
    by (simp add: insert_session_or_ignore_def id)
  ultimately show ?thesis using ex unfolding res by (simp add: session_exists_def)
qed

lemma exec_is_recorded_witness:
  "\<exists>r. db_events (sqlite_on_exec sample_sql_env sample_session sample_exec (empty_database True)) = [r]
     \<and> er_id r = 1 \<and> er_pid r = 7 \<and> er_filename r = Some ''/bin/ls''"
  using exec_is_recorded [of sample_sql_env "empty_database True" sample_session sample_exec]
  by (simp add: sample_sql_env_def empty_database_def I64_MAX_def exec_row_def sample_exec_def int_u32_def)

text \<open>
  I/O and exit events do not create their session. Under enforced foreign keys an I/O event of a
  session without a row is lost.
\<close>

lemma io_without_session_is_lost:
  assumes "db_fk db" "\<not> session_exists sid db"
  shows "insert_io env sid event ty db = (db, False)"
  using assms by (simp add: insert_io_def sql_run_def insert_event_def io_row_def)

end
