(* ===== verification/Handler.thy ===== *)
theory Handler
  imports EventFilters SqliteSink
begin

text \<open>
  The event handler, \<open>shspectr/src/handler.rs\<close>, and the loop of \<open>consume_events\<close> in
  \<open>shspectr/src/ebpf.rs\<close> that feeds it: parse, update the correlator, filter, deliver to the sink.

  The sink is the trait of theory Sinks, any record of operations. \<open>rnd\<close> is what \<open>getrandom\<close> would
  answer during the event; \<open>None\<close> as a result is the panic of the correlator.
\<close>

section \<open>The inputs of correlator and filter\<close>

definition info_of_exec :: "parsed_exec_event \<Rightarrow> event_info" where
  "info_of_exec e = \<lparr>ei_pid = px_pid e, ei_ppid = px_ppid e, ei_tty_nr = px_tty_nr e,
     ei_comm = px_comm e, ei_execution_id = px_execution_id e\<rparr>"

definition info_of_exit :: "parsed_exit_event \<Rightarrow> event_info" where
  "info_of_exit e = \<lparr>ei_pid = pe_pid e, ei_ppid = pe_ppid e, ei_tty_nr = pe_tty_nr e,
     ei_comm = pe_comm e, ei_execution_id = pe_execution_id e\<rparr>"

definition info_of_io :: "parsed_io_event \<Rightarrow> event_info" where
  "info_of_io e = \<lparr>ei_pid = pio_pid e, ei_ppid = pio_ppid e, ei_tty_nr = pio_tty_nr e,
     ei_comm = pio_comm e, ei_execution_id = pio_execution_id e\<rparr>"

definition exec_session_info :: "session_id \<Rightarrow> parsed_exec_event \<Rightarrow> session_info" where
  "exec_session_info sid e = \<lparr>si_session_id = sid, si_pid = px_pid e, si_comm = px_comm e,
     si_uid = px_uid e, si_euid = px_euid e, si_tty_nr = px_tty_nr e, si_cgroup_id = px_cgroup_id e\<rparr>"

definition exit_session_info :: "session_id \<Rightarrow> parsed_exit_event \<Rightarrow> session_info" where
  "exit_session_info sid e = \<lparr>si_session_id = sid, si_pid = pe_pid e, si_comm = pe_comm e,
     si_uid = pe_uid e, si_euid = pe_euid e, si_tty_nr = pe_tty_nr e, si_cgroup_id = pe_cgroup_id e\<rparr>"

definition io_session_info :: "session_id \<Rightarrow> parsed_io_event \<Rightarrow> session_info" where
  "io_session_info sid e = \<lparr>si_session_id = sid, si_pid = pio_pid e, si_comm = pio_comm e,
     si_uid = pio_uid e, si_euid = pio_euid e, si_tty_nr = pio_tty_nr e, si_cgroup_id = pio_cgroup_id e\<rparr>"

text \<open>
  The code consults the filter only when one is configured: \<open>true\<close> means the event is dropped.
\<close>

definition filtered_out :: "filter_config \<Rightarrow> correlator \<Rightarrow> u32 \<Rightarrow> u32 \<Rightarrow> string \<Rightarrow> bool" where
  "filtered_out config c pid tty_nr comm =
     (if filter_config_is_empty config then False
      else let fi = \<lparr>fi_tty_nr = tty_nr, fi_comm = comm, fi_ancestor_comms = ancestor_comms c pid\<rparr>
           in \<not> passes_filter config fi)"

section \<open>One handler per event type\<close>

definition handle_exec_event ::
  "u8 list option \<Rightarrow> filter_config \<Rightarrow> 's sink \<Rightarrow> u8 list \<Rightarrow> correlator \<times> 's \<Rightarrow> (correlator \<times> 's) option"
where
  "handle_exec_event rnd config sink data cs =
     (case parsed_exec_try_from data of
        Inl _ \<Rightarrow> Some cs
      | Inr exec \<Rightarrow>
          (case corr_on_exec rnd (fst cs) (info_of_exec exec) of
             None \<Rightarrow> None
           | Some (c, sid) \<Rightarrow>
               if filtered_out config c (px_pid exec) (px_tty_nr exec) (px_comm exec) then Some (c, snd cs)
               else Some (c, sink_on_exec sink (exec_session_info sid exec) exec (snd cs))))"

definition handle_exit_event ::
  "u8 list option \<Rightarrow> filter_config \<Rightarrow> 's sink \<Rightarrow> u8 list \<Rightarrow> correlator \<times> 's \<Rightarrow> (correlator \<times> 's) option"
where
  "handle_exit_event rnd config sink data cs =
     (case parsed_exit_try_from data of
        Inl _ \<Rightarrow> Some cs
      | Inr ex \<Rightarrow>
          (case corr_session_for rnd (fst cs) (info_of_exit ex) of
             None \<Rightarrow> None
           | Some (c, sid) \<Rightarrow>
               if filtered_out config c (pe_pid ex) (pe_tty_nr ex) (pe_comm ex)
               then Some (fst (corr_on_exit c (pe_pid ex)), snd cs)
               else
                 (let (c, x) = corr_on_exit c (pe_pid ex);
                      session_complete = (case x of None \<Rightarrow> False | Some x \<Rightarrow> xi_session_complete x)
                  in Some (c, sink_on_exit sink (exit_session_info sid ex) ex session_complete (snd cs)))))"

definition handle_io_event ::
  "u8 list option \<Rightarrow> filter_config \<Rightarrow> 's sink \<Rightarrow> u8 list \<Rightarrow> event_type \<Rightarrow> correlator \<times> 's
   \<Rightarrow> (correlator \<times> 's) option"
where
  "handle_io_event rnd config sink data event_type cs =
     (case parsed_io_try_from data of
        Inl _ \<Rightarrow> Some cs
      | Inr io \<Rightarrow>
          (case corr_session_for rnd (fst cs) (info_of_io io) of
             None \<Rightarrow> None
           | Some (c, sid) \<Rightarrow>
               if filtered_out config c (pio_pid io) (pio_tty_nr io) (pio_comm io) then Some (c, snd cs)
               else Some (c, sink_on_io sink (io_session_info sid io) io event_type (snd cs))))"

definition handle_event ::
  "u8 list option \<Rightarrow> filter_config \<Rightarrow> 's sink \<Rightarrow> u8 list \<Rightarrow> correlator \<times> 's \<Rightarrow> (correlator \<times> 's) option"
where
  "handle_event rnd config sink data cs =
     (case event_header_try_from data of
        Inl _ \<Rightarrow> Some cs
      | Inr header \<Rightarrow>
          (case decoded_event_type header of
             None \<Rightarrow> Some cs
           | Some ty \<Rightarrow>
               (case ty of
                  Exec \<Rightarrow> handle_exec_event rnd config sink data cs
                | Exit \<Rightarrow> handle_exit_event rnd config sink data cs
                | Read \<Rightarrow> handle_io_event rnd config sink data ty cs
                | Write \<Rightarrow> handle_io_event rnd config sink data ty cs)))"

text \<open>
  The inner loop of \<open>consume_events\<close> over the entries the ring buffer holds; each entry comes with
  the surroundings of its turn.
\<close>

fun consume_ring ::
  "filter_config \<Rightarrow> (u8 list option \<times> 's sink \<times> u8 list) list \<Rightarrow> correlator \<times> 's \<Rightarrow> (correlator \<times> 's) option"
where
  "consume_ring config [] cs = Some cs"
| "consume_ring config ((rnd, sink, item) # items) cs =
     Option.bind (handle_event rnd config sink item cs) (consume_ring config items)"

section \<open>At most one sink call per entry\<close>

lemma corr_on_exit_xi: "corr_on_exit c pid = (c', Some x) \<Longrightarrow> \<exists>p. tracked c pid = Some p \<and> xi_session_id x = p_session_id p"
  by (auto simp: corr_on_exit_def tracked_def Let_def split: option.splits)

text \<open>The sink calls that report what an entry says: the parsed event, as the type its header names.\<close>

fun reports :: "u8 list \<Rightarrow> sink_call \<Rightarrow> bool" where
  "reports data (CallExec si e) \<longleftrightarrow> parsed_exec_try_from data = Inr e"
| "reports data (CallExit si e complete) \<longleftrightarrow> parsed_exit_try_from data = Inr e"
| "reports data (CallIo si e ty) \<longleftrightarrow> parsed_io_try_from data = Inr e \<and> decoded_event_type (read_header data) = Some ty"

lemma handle_event_cases:
  assumes "handle_event rnd config sink data (c, s) = Some (c', s')"
  obtains (quiet) "s' = s"
    | (call) call where "s' = sink_do sink call s" "proper_call call" "reports data call"
proof -
  let ?called = "\<lambda>s1. s1 = s \<or> (\<exists>call. s1 = sink_do sink call s \<and> proper_call call \<and> reports data call)"
  have "?called s'"
  proof (cases "event_header_try_from data")
    case (Inl e)
    with assms show ?thesis by (simp add: handle_event_def)
  next
    case (Inr h)
    then have h: "h = read_header data" by (simp add: event_header_try_from_Inr_iff)
    have exec: "?called s1" if "handle_exec_event rnd config sink data (c, s) = Some (c1, s1)" for c1 s1
      using that by (auto simp: handle_exec_event_def split: sum.splits option.splits if_splits)
        (metis proper_call.simps(2) reports.simps(1) sink_do.simps(1))+
    have exit: "?called s1" if "handle_exit_event rnd config sink data (c, s) = Some (c1, s1)" for c1 s1
      using that by (auto simp: handle_exit_event_def Let_def split: sum.splits option.splits if_splits prod.splits)
        (metis proper_call.simps(3) reports.simps(2) sink_do.simps(2))+
    have io: "?called s1"
      if "handle_io_event rnd config sink data ty (c, s) = Some (c1, s1)" "ty = Read \<or> ty = Write"
        "decoded_event_type (read_header data) = Some ty" for c1 s1 ty
      using that by (auto simp: handle_io_event_def split: sum.splits option.splits if_splits)
        (metis proper_call.simps(1) reports.simps(3) sink_do.simps(3))+
    show ?thesis
      using assms Inr exec exit io
      by (auto simp: handle_event_def h split: option.splits event_type.splits)
  qed
  then show thesis using quiet call by blast
qed

context event_sink
begin

lemma handle_event_bounded:
  "handle_event rnd config ops data (c, s) = Some (c', s') \<Longrightarrow>
    records s \<le> records s' \<and> records s' \<le> Suc (records s)"
  by (elim handle_event_cases) (use adds_at_most_one in auto)

end

section \<open>No panic while the random source works\<close>

lemma corr_total: "rnd \<noteq> None \<Longrightarrow> corr_on_exec rnd c info \<noteq> None \<and> corr_session_for rnd c info \<noteq> None"
  by (auto simp: corr_on_exec_def corr_session_for_def track_new_def resolve_session_def
      generate_session_id_def Let_def split: option.splits)

lemma handle_event_total:
  assumes "rnd \<noteq> None"
  shows "handle_event rnd config sink data cs \<noteq> None"
proof -
  have *: "corr_on_exec rnd c info = None \<longleftrightarrow> False" "corr_session_for rnd c info = None \<longleftrightarrow> False" for c info
    using corr_total [OF assms] by blast+
  show ?thesis
    by (simp add: handle_event_def handle_exec_event_def handle_exit_event_def handle_io_event_def Let_def *
        del: not_None_eq split: sum.split option.split event_type.split prod.split)
qed

section \<open>Complete delivery without a filter\<close>

definition accepted :: "u8 list \<Rightarrow> bool" where
  "accepted data \<longleftrightarrow>
     is_ok (parsed_exec_try_from data) \<or> is_ok (parsed_exit_try_from data) \<or> is_ok (parsed_io_try_from data)"

lemma accepted_cases:
  assumes "accepted data"
  obtains (exec) h e where "event_header_try_from data = Inr h" "decoded_event_type h = Some Exec"
      "parsed_exec_try_from data = Inr e"
    | (exit) h e where "event_header_try_from data = Inr h" "decoded_event_type h = Some Exit"
      "parsed_exit_try_from data = Inr e"
    | (io) h e ty where "event_header_try_from data = Inr h" "decoded_event_type h = Some ty"
      "ty = Read \<or> ty = Write" "parsed_io_try_from data = Inr e"
proof (cases "event_header_try_from data")
  case (Inl err)
  with assms show thesis
    by (simp add: accepted_def parsed_exec_try_from_def parsed_exit_try_from_def parsed_io_try_from_def)
next
  case (Inr h)
  then have h: "h = read_header data" "decoded_event_type h \<noteq> None"
    by (auto simp: event_header_try_from_Inr_iff)
  from assms consider e where "parsed_exec_try_from data = Inr e"
    | e where "parsed_exit_try_from data = Inr e" | e where "parsed_io_try_from data = Inr e"
    unfolding accepted_def is_ok_def by (auto split: sum.splits)
  then show thesis
    using Inr h exec exit io
    by cases (auto simp: parsed_exec_Inr_iff parsed_exit_Inr_iff parsed_io_Inr_iff)
qed

lemma handle_accepted:
  assumes "filter_config_is_empty config" "accepted data" "rnd \<noteq> None"
  shows "\<exists>call c'. handle_event rnd config sink data (c, s) = Some (c', sink_do sink call s) \<and> proper_call call"
  using assms(2)
proof (cases rule: accepted_cases)
  case (exec h e)
  obtain c1 sid where "corr_on_exec rnd c (info_of_exec e) = Some (c1, sid)"
    using corr_total [OF assms(3)] by fastforce
  then show ?thesis
    using exec assms(1)
    by (intro exI [of _ "CallExec (exec_session_info sid e) e"])
      (simp add: handle_event_def handle_exec_event_def filtered_out_def)
next
  case (exit h e)
  obtain c1 sid where "corr_session_for rnd c (info_of_exit e) = Some (c1, sid)"
    using corr_total [OF assms(3)] by fastforce
  moreover obtain c2 x where "corr_on_exit c1 (pe_pid e) = (c2, x)" by fastforce
  ultimately show ?thesis
    using exit assms(1)
    by (intro exI [of _ "CallExit (exit_session_info sid e) e
          (case x of None \<Rightarrow> False | Some x \<Rightarrow> xi_session_complete x)"])
      (simp add: handle_event_def handle_exit_event_def filtered_out_def)
next
  case (io h e ty)
  obtain c1 sid where "corr_session_for rnd c (info_of_io e) = Some (c1, sid)"
    using corr_total [OF assms(3)] by fastforce
  then show ?thesis
    using io assms(1)
    by (intro exI [of _ "CallIo (io_session_info sid e) e ty"])
      (auto simp: handle_event_def handle_io_event_def filtered_out_def)
qed

context exact_sink
begin

lemma handle_accepted_exact:
  assumes "filter_config_is_empty config" "accepted data" "rnd \<noteq> None"
  shows "\<exists>c' s' r. handle_event rnd config ops data (c, s) = Some (c', s') \<and> entries s' = entries s @ [r]"
  using handle_accepted [OF assms, of ops c s] appends by blast

lemma consume_all:
  assumes "filter_config_is_empty config" "\<forall>(rnd, sink, data) \<in> set items. rnd \<noteq> None \<and> sink = ops \<and> accepted data"
  shows "\<exists>c' s' rs. consume_ring config items (c, s) = Some (c', s') \<and> entries s' = entries s @ rs
    \<and> length rs = length items"
  using assms(2)
proof (induction items arbitrary: c s)
  case Nil
  show ?case by simp
next
  case (Cons x items)
  obtain rnd sink data where x: "x = (rnd, sink, data)" by (cases x)
  with Cons.prems have "rnd \<noteq> None" "sink = ops" "accepted data" by auto
  then obtain c1 s1 r where 1: "handle_event rnd config sink data (c, s) = Some (c1, s1)" "entries s1 = entries s @ [r]"
    using handle_accepted_exact [OF assms(1)] by blast
  obtain c' s' rs where "consume_ring config items (c1, s1) = Some (c', s')" "entries s' = entries s1 @ rs"
    "length rs = length items"
    using Cons.IH [of c1 s1] Cons.prems by auto
  with 1 show ?case by (intro exI [of _ c'] exI [of _ s'] exI [of _ "r # rs"]) (simp add: x)
qed

end


section \<open>Properties\<close>

lemma filtered_out_iff:
  "filtered_out config c pid tty comm \<longleftrightarrow>
     \<not> passes_filter config \<lparr>fi_tty_nr = tty, fi_comm = comm, fi_ancestor_comms = ancestor_comms c pid\<rparr>"
  by (simp add: filtered_out_def passes_filter_def Let_def)

lemma exec_dispatch:
  "parsed_exec_try_from data = Inr e \<Longrightarrow>
    handle_event rnd config sink data cs = handle_exec_event rnd config sink data cs"
  by (auto simp: handle_event_def parsed_exec_Inr_iff event_header_try_from_def decoded_event_type_def
      layout Let_def split: if_splits)

lemma exit_dispatch:
  "parsed_exit_try_from data = Inr e \<Longrightarrow>
    handle_event rnd config sink data cs = handle_exit_event rnd config sink data cs"
  by (auto simp: handle_event_def parsed_exit_Inr_iff event_header_try_from_def decoded_event_type_def
      layout Let_def split: if_splits)

text \<open>
  A buffer that none of the three parsers accepts (too short, wrong version, unknown type,
  truncated body) changes neither the correlator nor the sink, and consumes no random bytes.
\<close>

lemma rejected_entry_changes_nothing:
  assumes "\<not> is_ok (parsed_exec_try_from data)" "\<not> is_ok (parsed_exit_try_from data)"
    and "\<not> is_ok (parsed_io_try_from data)"
  shows "handle_event rnd config sink data cs = Some cs"
  using assms
  by (auto simp: handle_event_def handle_exec_event_def handle_exit_event_def handle_io_event_def is_ok_def
      split: sum.splits option.splits event_type.splits)

theorem rejected_entry_changes_nothing_witness:
  "handle_event None \<lparr>filter_pty = True, filter_ancestors = []\<rparr> stdout_sink [0, 0, 0, 0]
     (correlator_default, []) = Some (correlator_default, [])"
  by (rule rejected_entry_changes_nothing)
    (simp_all add: parsed_exec_try_from_def parsed_exit_try_from_def parsed_io_try_from_def
      event_header_try_from_def header_size_def)


definition sample_entry :: "event_type \<Rightarrow> exec_event" where
  "sample_entry ty = exec_event_zeroed (event_header_new ty 12345 100 1 100 100 0 0 0
     (null_padded COMM_LEN ''sh'') 7 42 1)"

lemma sample_entry_parses: "parsed_exec_try_from (exec_event_bytes (sample_entry Exec)) = Inr (exec_of_struct (sample_entry Exec))"
proof -
  have "wf_exec_event (sample_entry Exec)" unfolding sample_entry_def
    by (intro wf wf_header_new length_null_padded) (simp add: layout)
  moreover have "decoded_event_type (x_header (sample_entry Exec)) = Some Exec"
    by (simp add: sample_entry_def exec_event_zeroed_def)
  ultimately show ?thesis by (rule parse_exec_image)
qed


text \<open>
  C33: An exit entry makes the correlator forget exactly its process, filtered or not. When it passes
  the filter the sink is told the session and whether the session is complete: complete exactly when
  the process was tracked without a terminal and no other tracked process is in its session.
\<close>

theorem exit_delivery:
  assumes "parsed_exit_try_from data = Inr e" "corr_inv c" "tracked c (pe_pid e) = Some p"
  shows "\<exists>c' complete. handle_event rnd config sink data (c, s) = Some (c',
      if passes_filter config \<lparr>fi_tty_nr = pe_tty_nr e, fi_comm = pe_comm e,
           fi_ancestor_comms = ancestor_comms c (pe_pid e)\<rparr>
      then sink_do sink (CallExit (exit_session_info (p_session_id p) e) e complete) s else s)
    \<and> tracked c' = (tracked c)(pe_pid e := None)
    \<and> complete = (p_tty_nr p = 0 \<and> \<not> (\<exists>q i. q \<noteq> pe_pid e \<and> tracked c q = Some i \<and> p_session_id i = p_session_id p))"
proof -
  have s: "corr_session_for rnd c (info_of_exit e) = Some (c, p_session_id p)"
    using assms(3) by (simp add: corr_session_for_def tracked_def info_of_exit_def)
  obtain c' x where x: "corr_on_exit c (pe_pid e) = (c', Some x)"
    using assms(3) by (auto simp: corr_on_exit_def tracked_def Let_def)
  have tr: "tracked c' = (tracked c)(pe_pid e := None)"
    using corr_on_exit_tracked [of c "pe_pid e"] x by simp
  have "xi_session_complete x = (p_tty_nr p = 0 \<and> \<not> session_open c' (p_session_id p))"
    using corr_on_exit_complete [OF assms(2) x] assms(3) by auto
  also have "session_open c' (p_session_id p) \<longleftrightarrow>
      (\<exists>q i. q \<noteq> pe_pid e \<and> tracked c q = Some i \<and> p_session_id i = p_session_id p)"
    unfolding session_open_def tr by auto
  finally show ?thesis
    using assms(1) s x tr
    by (intro exI [of _ c'] exI [of _ "xi_session_complete x"])
      (simp add: exit_dispatch handle_exit_event_def filtered_out_iff)
qed

definition sample_exit_entry :: exit_event where
  "sample_exit_entry = exit_event_new (event_header_new Exit 12345 100 1 100 100 0 0 0
     (null_padded COMM_LEN ''sh'') 0 42 1) 3"

lemma sample_exit_parses: "parsed_exit_try_from (exit_event_bytes sample_exit_entry) = Inr (exit_of_struct sample_exit_entry)"
proof -
  have "wf_exit_event sample_exit_entry" unfolding sample_exit_entry_def
    by (intro wf wf_header_new length_null_padded) (simp add: layout)
  moreover have "decoded_event_type (e_header sample_exit_entry) = Some Exit"
    by (simp add: sample_exit_entry_def exit_event_new_def)
  ultimately show ?thesis by (rule parse_exit_image)
qed

theorem exit_delivery_witness:
  "\<exists>c c' r. handle_event None \<lparr>filter_pty = False, filter_ancestors = []\<rparr> stdout_sink
       (exit_event_bytes sample_exit_entry) (c, []) = Some (c', [r]) \<and> tracked c 100 \<noteq> None \<and> tracked c' 100 = None"
proof -
  let ?e = "exit_of_struct sample_exit_entry"
  let ?p = "process_of ''ox_aaaaaaaa'' (sample_info 100 1 0 ''sh'')"
  let ?c = "\<lparr>pid_map = [(100, ?p)], tty_sessions = []\<rparr>"
  have pid: "pe_pid ?e = 100"
    by (simp add: exit_of_struct_def sample_exit_entry_def exit_event_new_def event_header_new_def Let_def)
  have inv: "corr_inv ?c"
    by (simp add: corr_inv_def process_of_def session_id_is_valid_def SESSION_ID_PREFIX_def
        SESSION_ID_SUFFIX_LEN_def str_chars_ascii is_ascii_alphanumeric_def u8_of_char_def Let_def)
  have tr: "tracked ?c (pe_pid ?e) = Some ?p" by (simp add: tracked_def pid)
  let ?cfg = "\<lparr>filter_pty = False, filter_ancestors = []\<rparr>"
  obtain c' complete where *: "handle_event None ?cfg stdout_sink (exit_event_bytes sample_exit_entry) (?c, []) =
      Some (c', if passes_filter ?cfg \<lparr>fi_tty_nr = pe_tty_nr ?e, fi_comm = pe_comm ?e,
           fi_ancestor_comms = ancestor_comms ?c (pe_pid ?e)\<rparr>
      then sink_do stdout_sink (CallExit (exit_session_info (p_session_id ?p) ?e) ?e complete) [] else [])"
    and 2: "tracked c' = (tracked ?c)(pe_pid ?e := None)"
    using exit_delivery [OF sample_exit_parses inv tr, of None ?cfg stdout_sink "[]"] by blast
  obtain r where "sink_do stdout_sink (CallExit (exit_session_info (p_session_id ?p) ?e) ?e complete) [] = [r]"
    by (simp add: stdout_sink_def stdout_on_exit_def)
  with * have "handle_event None ?cfg stdout_sink (exit_event_bytes sample_exit_entry) (?c, []) = Some (c', [r])"
    by (simp add: passes_filter_def filter_config_is_empty_def)
  with 2 tr show ?thesis by (intro exI [of _ ?c] exI [of _ c'] exI [of _ r]) (simp add: pid)
qed

end
