(* ===== verification/Like.thy ===== *)
theory Like
  imports Text
begin

text \<open>
  Patterns of the event repository, \<open>shspectr-web/src/infrastructure/repositories/event.rs\<close>: the
  escaping of text for SQL LIKE and the translation of globs, against the documented meaning of
  \<open>LIKE ... ESCAPE '\'\<close> (\<open>%\<close> any sequence, \<open>_\<close> any character, a backslash makes the next
  character literal, ASCII letters compare without case) and of a glob (\<open>*\<close> and \<open>?\<close>).
\<close>

section \<open>The code\<close>

definition BACKSLASH :: char where "BACKSLASH = CHR 0x5C"

definition escape_like_pattern :: "string \<Rightarrow> string" where
  "escape_like_pattern v =
     str_replace (CHR ''_'') [BACKSLASH, CHR ''_'']
       (str_replace (CHR ''%'') [BACKSLASH, CHR ''%'']
         (str_replace BACKSLASH [BACKSLASH, BACKSLASH] v))"

definition glob_to_like_pattern :: "string \<Rightarrow> string" where
  "glob_to_like_pattern v =
     str_replace (CHR ''?'') ''_'' (str_replace (CHR ''*'') ''%'' (escape_like_pattern v))"

section \<open>LIKE\<close>

definition fold_char :: "string \<Rightarrow> string" where
  "fold_char ch = map (\<lambda>c. let b = u8_of_char c
     in if 0x41 \<le> b \<and> b \<le> 0x5A then char_of_u8 (b + 32) else c) ch"

function like :: "string list \<Rightarrow> string list \<Rightarrow> bool" where
  "like [] s = (s = [])"
| "like (c # p) s =
     (if c = ''%'' then like p s \<or> (case s of [] \<Rightarrow> False | _ # s' \<Rightarrow> like (c # p) s')
      else if c = [BACKSLASH] then
        (case p of [] \<Rightarrow> False | d # p' \<Rightarrow>
           (case s of [] \<Rightarrow> False | x # s' \<Rightarrow> fold_char x = fold_char d \<and> like p' s'))
      else (case s of [] \<Rightarrow> False | x # s' \<Rightarrow> (c = ''_'' \<or> fold_char x = fold_char c) \<and> like p s'))"
  by pat_completeness auto
termination
  by (relation "measure (\<lambda>(p, s). length p + length s)") auto

declare like.simps(2) [simp del]

definition sql_like :: "string \<Rightarrow> string \<Rightarrow> bool" where
  "sql_like pattern s = like (str_chars pattern) (str_chars s)"

section \<open>Globs\<close>

function glob :: "string list \<Rightarrow> string list \<Rightarrow> bool" where
  "glob [] s = (s = [])"
| "glob (c # p) s =
     (if c = ''*'' then glob p s \<or> (case s of [] \<Rightarrow> False | _ # s' \<Rightarrow> glob (c # p) s')
      else (case s of [] \<Rightarrow> False | x # s' \<Rightarrow> (c = ''?'' \<or> fold_char x = fold_char c) \<and> glob p s'))"
  by pat_completeness auto
termination
  by (relation "measure (\<lambda>(p, s). length p + length s)") auto

declare glob.simps(2) [simp del]

definition glob_match :: "string \<Rightarrow> string \<Rightarrow> bool" where
  "glob_match pattern s = glob (str_chars pattern) (str_chars s)"

section \<open>Bytes and characters\<close>

text \<open>What the translation does to one byte, and to one character.\<close>

definition escape_byte :: "char \<Rightarrow> string" where
  "escape_byte c = (if c = BACKSLASH \<or> c = CHR ''%'' \<or> c = CHR ''_'' then [BACKSLASH, c] else [c])"

definition glob_byte :: "char \<Rightarrow> string" where
  "glob_byte c = (if c = CHR ''*'' then ''%'' else if c = CHR ''?'' then ''_'' else escape_byte c)"

lemma str_replace_simps [simp]:
  "str_replace c r [] = []"
  "str_replace c r (x # xs) = (if x = c then r else [x]) @ str_replace c r xs"
  by (simp_all add: str_replace_def)

lemma str_replace_append [simp]: "str_replace c r (xs @ ys) = str_replace c r xs @ str_replace c r ys"
  by (simp add: str_replace_def)

lemma escape_bytes: "escape_like_pattern v = concat (map escape_byte v)"
  unfolding escape_like_pattern_def
  by (induction v) (auto simp: escape_byte_def BACKSLASH_def)

lemma glob_bytes: "glob_to_like_pattern v = concat (map glob_byte v)"
  unfolding glob_to_like_pattern_def escape_bytes
  by (induction v) (auto simp: glob_byte_def escape_byte_def BACKSLASH_def)

lemma utf8_cont_high: "utf8_cont b \<Longrightarrow> 128 \<le> b"
  by (simp add: utf8_cont_def)

lemma utf8_second_high: "utf8_second3 b0 b1 \<Longrightarrow> 128 \<le> b1" "utf8_second4 b0 b1 \<Longrightarrow> 128 \<le> b1"
  by (auto simp: utf8_second3_def utf8_second4_def utf8_cont_def word_le_nat_alt split: if_splits)

lemma all_below:
  "(\<forall>i < (1 :: nat). P i) \<longleftrightarrow> P 0" "(\<forall>i < (2 :: nat). P i) \<longleftrightarrow> P 0 \<and> P 1"
  "(\<forall>i < (3 :: nat). P i) \<longleftrightarrow> P 0 \<and> P 1 \<and> P 2"
  by (auto simp: numeral_2_eq_2 numeral_3_eq_3 less_Suc_eq)

text \<open>The bytes of a character of more than one byte are not ASCII.\<close>

lemma utf8_head_high:
  assumes "utf8_head b bs = (n, True)" "1 < n"
  shows "\<forall>x \<in> set (take n (b # bs)). 128 \<le> x"
proof -
  have b: "128 \<le> b" using assms utf8_head_ascii [of b bs] by (cases "b < 128") auto
  have "n - 1 \<le> length bs" using assms(1) by (rule utf8_head_length)
  moreover have "\<forall>i < n - 1. 128 \<le> safe_get bs i"
  proof -
    from assms consider "n = 2" "utf8_cont (safe_get bs 0)"
      | "n = 3" "utf8_second3 b (safe_get bs 0)" "utf8_cont (safe_get bs 1)"
      | "n = 4" "utf8_second4 b (safe_get bs 0)" "utf8_cont (safe_get bs 1)" "utf8_cont (safe_get bs 2)"
      unfolding utf8_head_def by (auto split: if_splits)
    then show ?thesis by cases (simp_all add: all_below utf8_cont_high utf8_second_high)
  qed
  ultimately have "\<forall>i < n - 1. 128 \<le> bs ! i" by (simp add: safe_get_def)
  then have "\<forall>x \<in> set (take (n - 1) bs). 128 \<le> x" by (auto simp: in_set_conv_nth)
  moreover have "take n (b # bs) = b # take (n - 1) bs" using assms(2) by (cases n) auto
  ultimately show ?thesis using b by simp
qed

text \<open>A translation of ASCII bytes into ASCII strings acts on characters.\<close>

definition on_char :: "(char \<Rightarrow> string) \<Rightarrow> string \<Rightarrow> string list" where
  "on_char g ch = (case ch of [c] \<Rightarrow> if u8_of_char c < 128 then map (\<lambda>x. [x]) (g c) else [ch] | _ \<Rightarrow> [ch])"

lemma str_chars_ascii_append: "ascii r \<Longrightarrow> str_chars (r @ s) = map (\<lambda>x. [x]) r @ str_chars s"
  by (induction r) (simp_all add: str_chars.simps(2) utf8_head_ascii)

text \<open>A character of several bytes is a unit: none of its bytes is ASCII, whatever follows it.\<close>

lemma long_char:
  assumes "utf8_head (u8_of_char c) (bytes_of cs) = (n, True)" "\<not> u8_of_char c < 128"
  shows "\<forall>x \<in> set (take n (c # cs)). \<not> u8_of_char x < 128"
    "str_chars (take n (c # cs) @ r) = take n (c # cs) # str_chars r"
    "c # cs = take n (c # cs) @ drop (n - 1) cs" "take n (c # cs) \<noteq> []"
proof -
  have n1: "1 \<le> n" using utf8_head_pos [OF assms(1)] by simp
  then show "c # cs = take n (c # cs) @ drop (n - 1) cs" "take n (c # cs) \<noteq> []" by (cases n; simp)+
  show "\<forall>x \<in> set (take n (c # cs)). \<not> u8_of_char x < 128"
  proof (cases "n = 1")
    case False
    then have "\<forall>x \<in> set (take n (u8_of_char c # bytes_of cs)). 128 \<le> x"
      using utf8_head_high assms(1) n1 by simp
    moreover have "take n (u8_of_char c # bytes_of cs) = bytes_of (take n (c # cs))"
      by (simp add: take_map flip: list.map(2))
    ultimately show ?thesis by (auto simp: not_less)
  qed (use assms(2) in simp)
  have "utf8_head (u8_of_char c) (take (n - 1) (bytes_of cs) @ ys) = (n, True)" for ys
    using assms(1) by (intro utf8_head_ok_cong) simp
  moreover have "take n (c # cs) = c # take (n - 1) cs" using n1 by (cases n) auto
  moreover have "length (take (n - 1) cs) = n - 1" using utf8_head_length [OF assms(1)] by simp
  ultimately show "str_chars (take n (c # cs) @ r) = take n (c # cs) # str_chars r"
    using n1 by (cases n) (simp_all add: str_chars.simps(2) take_map)
qed

lemma str_chars_translate:
  assumes "\<And>c. u8_of_char c < 128 \<Longrightarrow> ascii (g c)" "\<And>c. \<not> u8_of_char c < 128 \<Longrightarrow> g c = [c]"
  shows "valid_string s \<Longrightarrow> str_chars (concat (map g s)) = concat (map (on_char g) (str_chars s))"
proof (induction s rule: str_chars.induct)
  case (2 c cs)
  obtain n where head: "utf8_head (u8_of_char c) (bytes_of cs) = (n, True)" and rest: "valid_string (drop (n - 1) cs)"
    using "2.prems" by (cases "utf8_head (u8_of_char c) (bytes_of cs)") (auto simp: valid_string_def valid_utf8.simps(2) drop_map)
  have IH: "str_chars (concat (map g (drop (n - 1) cs))) = concat (map (on_char g) (str_chars (drop (n - 1) cs)))"
    using "2.IH" rest head by simp
  have chars: "str_chars (c # cs) = take n (c # cs) # str_chars (drop (n - 1) cs)"
    using head by (simp add: str_chars.simps(2))
  show ?case
  proof (cases "u8_of_char c < 128")
    case True
    then have "n = 1" using head utf8_head_ascii by simp
    moreover have "on_char g [c] = map (\<lambda>x. [x]) (g c)" using True by (simp add: on_char_def)
    ultimately show ?thesis
      using IH assms(1) [OF True] chars by (simp add: str_chars_ascii_append)
  next
    case False
    note char = long_char [OF head False]
    have "map g (take n (c # cs)) = map (\<lambda>x. [x]) (take n (c # cs))"
      using char(1) assms(2) by (intro map_cong) auto
    then have "concat (map g (take n (c # cs))) = take n (c # cs)" by (simp only: concat_map_singleton list.map_ident)
    then have g: "concat (map g (c # cs)) = take n (c # cs) @ concat (map g (drop (n - 1) cs))"
      by (subst char(3)) (simp only: map_append concat_append)
    have "on_char g (take n (c # cs)) = [take n (c # cs)]"
      using char(1,4) by (auto simp: on_char_def split: list.splits)
    with char(2) show ?thesis using IH by (simp only: g chars) simp
  qed
qed simp


section \<open>The translations are right\<close>

lemma glob_byte_ascii: "u8_of_char c < 128 \<Longrightarrow> ascii (glob_byte c)" "\<not> u8_of_char c < 128 \<Longrightarrow> glob_byte c = [c]"
  "u8_of_char c < 128 \<Longrightarrow> ascii (escape_byte c)" "\<not> u8_of_char c < 128 \<Longrightarrow> escape_byte c = [c]"
  by (auto simp: glob_byte_def escape_byte_def BACKSLASH_def u8_of_char_def)

lemma like_simps:
  "like (''%'' # p) s = (like p s \<or> (case s of [] \<Rightarrow> False | _ # s' \<Rightarrow> like (''%'' # p) s'))"
  "like ([BACKSLASH] # d # p) s = (case s of [] \<Rightarrow> False | x # s' \<Rightarrow> fold_char x = fold_char d \<and> like p s')"
  "like (''_'' # p) s = (case s of [] \<Rightarrow> False | x # s' \<Rightarrow> like p s')"
  "c \<noteq> ''%'' \<Longrightarrow> c \<noteq> [BACKSLASH] \<Longrightarrow> c \<noteq> ''_'' \<Longrightarrow>
    like (c # p) s = (case s of [] \<Rightarrow> False | x # s' \<Rightarrow> fold_char x = fold_char c \<and> like p s')"
  by (subst like.simps(2), simp add: BACKSLASH_def split: list.split)+

text \<open>A character that the translation leaves alone or escapes matches itself.\<close>

lemma like_literal:
  "like (on_char escape_byte c @ p) s = (case s of [] \<Rightarrow> False | x # s' \<Rightarrow> fold_char x = fold_char c \<and> like p s')"
proof (cases "c = [BACKSLASH] \<or> c = ''%'' \<or> c = ''_''")
  case True
  then have "on_char escape_byte c = [[BACKSLASH], c]"
    by (auto simp: on_char_def escape_byte_def BACKSLASH_def u8_of_char_def)
  then show ?thesis by (simp add: like_simps(2))
next
  case False
  then have "on_char escape_byte c = [c]"
    by (auto simp: on_char_def escape_byte_def split: list.split)
  with False show ?thesis by (simp add: like_simps(4))
qed

lemma on_char_glob:
  "on_char glob_byte c = (if c = ''*'' then [''%''] else if c = ''?'' then [''_''] else on_char escape_byte c)"
  by (auto simp: on_char_def glob_byte_def u8_of_char_def split: list.split)

lemma like_glob: "like (concat (map (on_char glob_byte) p)) s = glob p s"
proof (induction p s rule: glob.induct)
  case (1 s)
  show ?case by simp
next
  case (2 c p s)
  show ?case
  proof (cases "c = ''*''")
    case True
    then have pat: "concat (map (on_char glob_byte) (c # p)) = ''%'' # concat (map (on_char glob_byte) p)"
      by (simp add: on_char_glob)
    show ?thesis
      using 2(1,2) True unfolding pat by (subst like_simps(1), subst glob.simps(2)) (auto simp: pat split: list.splits)
  next
    case False
    show ?thesis
    proof (cases "c = ''?''")
      case True
      then show ?thesis
        using 2(3) False by (simp add: on_char_glob like_simps(3) glob.simps(2) split: list.split)
    next
      case no: False
      then show ?thesis
        using 2(3) False by (simp add: on_char_glob like_literal glob.simps(2) split: list.split)
    qed
  qed
qed

lemma str_chars_glob:
  "valid_string v \<Longrightarrow> str_chars (glob_to_like_pattern v) = concat (map (on_char glob_byte) (str_chars v))"
  unfolding glob_bytes by (rule str_chars_translate) (simp_all add: glob_byte_ascii)

lemma str_chars_escape:
  "valid_string v \<Longrightarrow> str_chars (escape_like_pattern v) = concat (map (on_char escape_byte) (str_chars v))"
  unfolding escape_bytes by (rule str_chars_translate) (simp_all add: glob_byte_ascii)

lemma glob_pattern_meaning: "valid_string v \<Longrightarrow> sql_like (glob_to_like_pattern v) s = glob_match v s"
  by (simp add: sql_like_def glob_match_def str_chars_glob like_glob)

text \<open>Escaped text matches itself, up to the case of ASCII letters.\<close>

definition folded :: "string \<Rightarrow> string list" where
  "folded s = map fold_char (str_chars s)"

lemma like_escaped_append:
  "like (concat (map (on_char escape_byte) p) @ q) s \<longleftrightarrow>
     (\<exists>s1 s2. s = s1 @ s2 \<and> map fold_char s1 = map fold_char p \<and> like q s2)"
proof (induction p arbitrary: s)
  case Nil
  show ?case by auto
next
  case (Cons c p)
  show ?case
  proof (cases s)
    case Nil
    then show ?thesis by (simp add: like_literal)
  next
    case (Cons x s')
    have "(\<exists>s1 s2. x # s' = s1 @ s2 \<and> map fold_char s1 = map fold_char (c # p) \<and> like q s2) \<longleftrightarrow>
        fold_char x = fold_char c \<and> (\<exists>s1 s2. s' = s1 @ s2 \<and> map fold_char s1 = map fold_char p \<and> like q s2)"
      (is "?L \<longleftrightarrow> ?R")
    proof
      assume ?L
      then show ?R by (auto simp: Cons_eq_append_conv)
    next
      assume ?R
      then obtain s1 s2 where "x # s' = (x # s1) @ s2" "map fold_char (x # s1) = map fold_char (c # p)" "like q s2"
        by auto
      then show ?L by blast
    qed
    then show ?thesis using Cons.IH [of s'] by (simp add: like_literal Cons)
  qed
qed

lemma like_percent: "like (''%'' # p) s \<longleftrightarrow> (\<exists>s1 s2. s = s1 @ s2 \<and> like p s2)"
proof (induction s)
  case Nil
  show ?case by (simp add: like_simps(1))
next
  case (Cons x s)
  have "like (''%'' # p) (x # s) \<longleftrightarrow> like p (x # s) \<or> like (''%'' # p) s"
    by (subst like_simps(1)) simp
  also have "\<dots> \<longleftrightarrow> (\<exists>s1 s2. x # s = s1 @ s2 \<and> like p s2)"
    using Cons.IH by (auto simp: Cons_eq_append_conv)
  finally show ?case .
qed

lemma like_percent_end: "like [''%''] s"
  unfolding like_percent by (rule exI [of _ s]) simp

section \<open>Strings put together\<close>

lemma valid_string_Cons:
  assumes "valid_string (c # cs)"
  obtains n where "utf8_head (u8_of_char c) (bytes_of cs) = (n, True)" "1 \<le> n" "n - 1 \<le> length cs"
    "valid_string (drop (n - 1) cs)" "str_chars (c # cs) = take n (c # cs) # str_chars (drop (n - 1) cs)"
    "c # cs = take n (c # cs) @ drop (n - 1) cs"
proof -
  obtain n ok where h: "utf8_head (u8_of_char c) (bytes_of cs) = (n, ok)" by fastforce
  with assms have "ok" "valid_string (drop (n - 1) cs)"
    by (simp_all add: valid_string_def valid_utf8.simps(2) drop_map)
  moreover have "1 \<le> n" "n - 1 \<le> length cs" using utf8_head_pos [OF h] utf8_head_length [OF h] by simp_all
  moreover have "str_chars (c # cs) = take n (c # cs) # str_chars (drop (n - 1) cs)"
    using h by (simp add: str_chars.simps(2))
  moreover have "c # cs = take n (c # cs) @ drop (n - 1) cs" using \<open>1 \<le> n\<close> by (cases n) auto
  ultimately show ?thesis using h by (intro that [of n]) simp_all
qed

lemma char_then:
  assumes "utf8_head (u8_of_char c) (bytes_of cs) = (n, True)"
  shows "str_chars (take n (c # cs) @ t) = take n (c # cs) # str_chars t"
    "valid_string (take n (c # cs) @ t) \<longleftrightarrow> valid_string t"
proof -
  have n: "1 \<le> n" using utf8_head_pos [OF assms] by simp
  have "utf8_head (u8_of_char c) (take (n - 1) (bytes_of cs) @ ys) = (n, True)" for ys
    using assms by (rule utf8_head_ok_cong)
  moreover have "take n (c # cs) = c # take (n - 1) cs" using n by (cases n) auto
  moreover have "length (take (n - 1) cs) = n - 1" using utf8_head_length [OF assms] by simp
  ultimately show "str_chars (take n (c # cs) @ t) = take n (c # cs) # str_chars t"
    "valid_string (take n (c # cs) @ t) \<longleftrightarrow> valid_string t"
    using n by (cases n; simp add: str_chars.simps(2) valid_string_def valid_utf8.simps(2) take_map)+
qed

lemma str_chars_append: "valid_string s \<Longrightarrow> str_chars (s @ t) = str_chars s @ str_chars t"
proof (induction s rule: length_induct)
  case (1 s)
  show ?case
  proof (cases s)
    case Nil
    then show ?thesis by simp
  next
    case (Cons c cs)
    with 1 obtain n where n: "utf8_head (u8_of_char c) (bytes_of cs) = (n, True)"
      "valid_string (drop (n - 1) cs)" "str_chars (c # cs) = take n (c # cs) # str_chars (drop (n - 1) cs)"
      and split: "c # cs = take n (c # cs) @ drop (n - 1) cs"
      by (metis valid_string_Cons)
    have "str_chars (s @ t) = str_chars (take n (c # cs) @ (drop (n - 1) cs @ t))"
      using Cons split by (metis append.assoc)
    also have "\<dots> = take n (c # cs) # str_chars (drop (n - 1) cs @ t)"
      using n(1) by (rule char_then)
    also have "\<dots> = str_chars s @ str_chars t"
      using 1 n(2,3) Cons by simp
    finally show ?thesis .
  qed
qed

lemma valid_str_chars: "valid_string s \<Longrightarrow> ch \<in> set (str_chars s) \<Longrightarrow> valid_string ch"
proof (induction s rule: length_induct)
  case (1 s)
  show ?case
  proof (cases s)
    case Nil
    with 1 show ?thesis by simp
  next
    case (Cons c cs)
    with 1 obtain n where n: "utf8_head (u8_of_char c) (bytes_of cs) = (n, True)"
      "valid_string (drop (n - 1) cs)" "str_chars (c # cs) = take n (c # cs) # str_chars (drop (n - 1) cs)"
      by (metis valid_string_Cons)
    have "valid_string (take n (c # cs))"
      using char_then(2) [OF n(1), of "[]"] by (simp add: valid_string_def)
    moreover have "valid_string ch" if "ch \<in> set (str_chars (drop (n - 1) cs))"
      using 1(1) that n(2) Cons by (metis diff_less_Suc length_Cons length_drop)
    ultimately show ?thesis using 1(3) n(3) Cons by auto
  qed
qed

lemma valid_translate:
  assumes g: "\<And>c. u8_of_char c < 128 \<Longrightarrow> ascii (g c)" "\<And>c. \<not> u8_of_char c < 128 \<Longrightarrow> g c = [c]"
    and s: "valid_string s"
  shows "valid_string (concat (map g s))"
proof -
  have chars: "str_chars (concat (map g s)) = concat (map (on_char g) (str_chars s))"
    using g s by (rule str_chars_translate)
  have "valid_string ch" if "ch \<in> set (str_chars (concat (map g s)))" for ch
  proof -
    have "ch \<in> set (concat (map (on_char g) (str_chars s)))" using that by (simp only: chars)
    then obtain c where c: "c \<in> set (str_chars s)" "ch \<in> set (on_char g c)" by auto
    then have "ch = c \<or> ascii ch"
      using g(1) by (auto simp: on_char_def ascii_def list_all_iff split: list.splits if_splits)
    with c(1) s show ?thesis by (auto intro: valid_ascii valid_str_chars)
  qed
  then have "valid_string (concat (str_chars (concat (map g s))))" by (rule valid_string_concat)
  then show ?thesis by (simp only: concat_str_chars)
qed

lemma valid_escape: "valid_string v \<Longrightarrow> valid_string (escape_like_pattern v)"
  unfolding escape_bytes by (rule valid_translate) (simp_all add: glob_byte_ascii)

lemma valid_glob: "valid_string v \<Longrightarrow> valid_string (glob_to_like_pattern v)"
  unfolding glob_bytes by (rule valid_translate) (simp_all add: glob_byte_ascii)

text \<open>Splitting at an ASCII character splits between characters.\<close>

lemma valid_ascii_split:
  "valid_string (a @ c # b) \<Longrightarrow> u8_of_char c < 128 \<Longrightarrow> valid_string a \<and> valid_string b"
proof (induction a rule: length_induct)
  case (1 a)
  show ?case
  proof (cases a)
    case Nil
    with 1 show ?thesis by (simp add: valid_string_def valid_utf8.simps(2) utf8_head_ascii)
  next
    case (Cons x a')
    with 1 have "valid_string (x # (a' @ c # b))" by simp
    then obtain n where n: "utf8_head (u8_of_char x) (bytes_of (a' @ c # b)) = (n, True)" "1 \<le> n"
      "valid_string (drop (n - 1) (a' @ c # b))" by (metis valid_string_Cons)
    have len: "n - 1 \<le> length a'"
    proof (rule ccontr)
      assume "\<not> n - 1 \<le> length a'"
      then have "1 < n" "length a' < n - 1" by auto
      then have "u8_of_char c \<in> set (take n (u8_of_char x # bytes_of (a' @ c # b)))"
        by (cases n) (auto simp: take_Cons')
      then have "128 \<le> u8_of_char c" using utf8_head_high [OF n(1) \<open>1 < n\<close>] by blast
      then show False using 1(3) by simp
    qed
    have "utf8_head (u8_of_char x) (take (n - 1) (bytes_of (a' @ c # b)) @ drop (n - 1) (bytes_of a')) = (n, True)"
      using n(1) by (rule utf8_head_ok_cong)
    moreover have "take (n - 1) (bytes_of (a' @ c # b)) @ drop (n - 1) (bytes_of a') = bytes_of a'"
      using len by simp
    ultimately have head: "utf8_head (u8_of_char x) (bytes_of a') = (n, True)" by simp
    have "valid_string (drop (n - 1) a' @ c # b)" using n(3) len by simp
    moreover have "length (drop (n - 1) a') < length a" using Cons by simp
    ultimately have "valid_string (drop (n - 1) a') \<and> valid_string b"
      using 1(1,3) by blast
    with head Cons show ?thesis by (simp add: valid_string_def valid_utf8.simps(2) drop_map)
  qed
qed

lemma valid_str_split:
  assumes "valid_string v" "u8_of_char c < 128"
  shows "\<forall>p \<in> set (str_split c v). valid_string p"
proof -
  have "valid_string (str_join [c] ps) \<Longrightarrow> \<forall>p \<in> set ps. valid_string p" for ps
  proof (induction "[c]" ps rule: str_join.induct)
    case (3 s t ss)
    then have "valid_string (s @ c # str_join [c] (t # ss))" by simp
    from valid_ascii_split [OF this assms(2)] 3(1) show ?case by simp
  qed simp_all
  with assms(1) str_join_split [of c v] show ?thesis by metis
qed

lemma str_split_append:
  "c \<notin> set t \<Longrightarrow> str_split c (s @ t) = butlast (str_split c s) @ [last (str_split c s) @ t]"
proof (induction s)
  case Nil
  then show ?case by (simp add: str_split_none)
next
  case (Cons x s)
  obtain p ps where p: "str_split c s = p # ps" using str_split_ne [of c s] by (cases "str_split c s") auto
  with Cons show ?case by (cases ps) auto
qed

lemma str_split_translate:
  assumes "g c = [c]" "\<And>x. x \<noteq> c \<Longrightarrow> c \<notin> set (g x)"
  shows "str_split c (concat (map g v)) = map (\<lambda>a. concat (map g a)) (str_split c v)"
proof -
  have pre: "str_split c (a @ r) = (a @ hd (str_split c r)) # tl (str_split c r)" if "c \<notin> set a" for a r
    using that
  proof (induction a)
    case Nil
    then show ?case using str_split_ne [of c r] by simp
  qed (auto split: list.splits)
  show ?thesis
  proof (induction v)
    case Nil
    show ?case by simp
  next
    case (Cons x v)
    obtain p ps where p: "str_split c v = p # ps" using str_split_ne [of c v] by (cases "str_split c v") auto
    show ?case
      by (cases "x = c") (use Cons p assms in \<open>simp_all add: pre\<close>)
  qed
qed

lemma str_split_glob:
  "str_split (CHR ''|'') (glob_to_like_pattern v) = map glob_to_like_pattern (str_split (CHR ''|'') v)"
  unfolding glob_bytes [abs_def]
  by (rule str_split_translate) (auto simp: glob_byte_def escape_byte_def BACKSLASH_def split: if_splits)

lemma str_split_escape:
  "str_split (CHR ''|'') (escape_like_pattern v) = map escape_like_pattern (str_split (CHR ''|'') v)"
  unfolding escape_bytes [abs_def]
  by (rule str_split_translate) (auto simp: escape_byte_def BACKSLASH_def split: if_splits)

end
