(* ===== verification/Sql.thy ===== *)
theory Sql
  imports Database Like "HOL-Library.List_Lexorder" "HOL-Library.Char_ord" "HOL-Library.Product_Lexorder"
begin

text \<open>
  The SQL that the event repository builds: values with SQLite's order between them, the conditions
  of a WHERE clause with the text the code sends for each, and their documented meaning in
  three-valued logic. A condition is kept as a tree beside its text; \<open>render\<close> gives the text, and the
  tree is how SQL reads it, because every disjunction stands in parentheses (\<open>closed_cond\<close>).
\<close>

section \<open>Values\<close>

datatype sql_value = VNull | VInt int | VText string

text \<open>NULL sorts before numbers and numbers before text; text compares byte by byte.\<close>

fun sql_key :: "sql_value \<Rightarrow> nat \<times> int \<times> string" where
  "sql_key VNull = (0, 0, [])"
| "sql_key (VInt i) = (1, i, [])"
| "sql_key (VText s) = (2, 0, s)"

lemma sql_key_inject: "sql_key a = sql_key b \<longleftrightarrow> a = b"
  by (cases a; cases b) simp_all

instantiation sql_value :: linorder
begin

definition less_eq_sql_value :: "sql_value \<Rightarrow> sql_value \<Rightarrow> bool" where
  "a \<le> b \<longleftrightarrow> sql_key a \<le> sql_key b"

definition less_sql_value :: "sql_value \<Rightarrow> sql_value \<Rightarrow> bool" where
  "a < b \<longleftrightarrow> sql_key a < sql_key b"

instance
  by standard (auto simp: less_eq_sql_value_def less_sql_value_def sql_key_inject
      intro: order_trans dest: antisym)

end

lemma sql_value_order:
  "VNull \<le> v" "VInt i \<le> VInt j \<longleftrightarrow> i \<le> j" "VInt i \<le> VText s" "VText s \<le> VText t \<longleftrightarrow> s \<le> t"
  by (cases v) (auto simp: less_eq_sql_value_def)

definition opt_int :: "int option \<Rightarrow> sql_value" where
  "opt_int x = (case x of None \<Rightarrow> VNull | Some i \<Rightarrow> VInt i)"

definition opt_text :: "string option \<Rightarrow> sql_value" where
  "opt_text x = (case x of None \<Rightarrow> VNull | Some s \<Rightarrow> VText s)"

lemma opt_value_simps [simp]:
  "opt_int None = VNull" "opt_int (Some i) = VInt i" "opt_text None = VNull" "opt_text (Some s) = VText s"
  by (simp_all add: opt_int_def opt_text_def)

text \<open>The column of an event row, by the name the SQL text uses.\<close>

definition col_value :: "event_row \<Rightarrow> string \<Rightarrow> sql_value" where
  "col_value r c =
     (if c = ''id'' then VInt (er_id r)
      else if c = ''session_id'' then VText (er_session_id r)
      else if c = ''event_type'' then VInt (er_event_type r)
      else if c = ''timestamp'' then VText (er_timestamp r)
      else if c = ''pid'' then VInt (er_pid r)
      else if c = ''ppid'' then VInt (er_ppid r)
      else if c = ''uid'' then VInt (er_uid r)
      else if c = ''gid'' then VInt (er_gid r)
      else if c = ''euid'' then VInt (er_euid r)
      else if c = ''comm'' then opt_text (er_comm r)
      else if c = ''tty_nr'' then opt_int (er_tty_nr r)
      else if c = ''execution_id'' then VInt (er_execution_id r)
      else if c = ''filename'' then opt_text (er_filename r)
      else if c = ''argv'' then opt_text (er_argv r)
      else if c = ''fd'' then opt_int (er_fd r)
      else if c = ''data'' then opt_text (er_data r)
      else if c = ''data_len'' then opt_int (er_data_len r)
      else if c = ''byte_count'' then opt_int (er_byte_count r)
      else if c = ''exit_code'' then opt_int (er_exit_code r)
      else VNull)"

section \<open>Conditions\<close>

datatype sql_cond =
    ColIs string int
  | ColEq string nat
  | ColNe string nat
  | ColGt string nat
  | ColNull string
  | ColLike string nat
  | ColNotLike string nat
  | Parens sql_cond
  | AllOf "sql_cond list"
  | AnyOf "sql_cond list"

definition placeholder :: "nat \<Rightarrow> string" where
  "placeholder n = CHR ''?'' # dec n"

definition ESCAPE_CLAUSE :: string where
  "ESCAPE_CLAUSE = '' ESCAPE '' @ [CHR 0x27, BACKSLASH, CHR 0x27]"

fun render :: "sql_cond \<Rightarrow> string" where
  "render (ColIs c i) = c @ '' = '' @ dec_int i"
| "render (ColEq c n) = c @ '' = '' @ placeholder n"
| "render (ColNe c n) = c @ '' != '' @ placeholder n"
| "render (ColGt c n) = c @ '' > '' @ placeholder n"
| "render (ColNull c) = c @ '' IS NULL''"
| "render (ColLike c n) = c @ '' LIKE '' @ placeholder n @ ESCAPE_CLAUSE"
| "render (ColNotLike c n) = c @ '' NOT LIKE '' @ placeholder n @ ESCAPE_CLAUSE"
| "render (Parens x) = ''('' @ render x @ '')''"
| "render (AllOf xs) = str_join '' AND '' (map render xs)"
| "render (AnyOf xs) = str_join '' OR '' (map render xs)"

section \<open>Meaning\<close>

text \<open>Three-valued logic: \<open>None\<close> is NULL.\<close>

definition all3 :: "bool option list \<Rightarrow> bool option" where
  "all3 xs = (if List.member xs (Some False) then Some False
              else if List.member xs None then None else Some True)"

definition any3 :: "bool option list \<Rightarrow> bool option" where
  "any3 xs = (if List.member xs (Some True) then Some True
              else if List.member xs None then None else Some False)"

definition compare3 :: "(sql_value \<Rightarrow> sql_value \<Rightarrow> bool) \<Rightarrow> sql_value \<Rightarrow> sql_value \<Rightarrow> bool option" where
  "compare3 f a b = (if a = VNull \<or> b = VNull then None else Some (f a b))"

text \<open>\<open>LIKE\<close> occurs on TEXT columns with a text parameter only.\<close>

fun like3 :: "sql_value \<Rightarrow> sql_value \<Rightarrow> bool option" where
  "like3 (VText s) (VText p) = Some (sql_like p s)"
| "like3 _ _ = None"

definition sql_param :: "sql_value list \<Rightarrow> nat \<Rightarrow> sql_value" where
  "sql_param ps n = (if 1 \<le> n \<and> n \<le> length ps then ps ! (n - 1) else VNull)"

fun eval_cond :: "(string \<Rightarrow> sql_value) \<Rightarrow> sql_value list \<Rightarrow> sql_cond \<Rightarrow> bool option" where
  "eval_cond row ps (ColIs c i) = compare3 (=) (row c) (VInt i)"
| "eval_cond row ps (ColEq c n) = compare3 (=) (row c) (sql_param ps n)"
| "eval_cond row ps (ColNe c n) = compare3 (\<noteq>) (row c) (sql_param ps n)"
| "eval_cond row ps (ColGt c n) = compare3 (>) (row c) (sql_param ps n)"
| "eval_cond row ps (ColNull c) = Some (row c = VNull)"
| "eval_cond row ps (ColLike c n) = like3 (row c) (sql_param ps n)"
| "eval_cond row ps (ColNotLike c n) = map_option Not (like3 (row c) (sql_param ps n))"
| "eval_cond row ps (Parens x) = eval_cond row ps x"
| "eval_cond row ps (AllOf xs) = all3 (map (eval_cond row ps) xs)"
| "eval_cond row ps (AnyOf xs) = any3 (map (eval_cond row ps) xs)"

lemma three_valued_True [simp]:
  "all3 xs = Some True \<longleftrightarrow> (\<forall>x \<in> set xs. x = Some True)"
  "any3 xs = Some True \<longleftrightarrow> (\<exists>x \<in> set xs. x = Some True)"
proof -
  have "x = Some True \<longleftrightarrow> Some False \<noteq> x \<and> None \<noteq> x" for x :: "bool option"
    by (cases x) auto
  then show "all3 xs = Some True \<longleftrightarrow> (\<forall>x \<in> set xs. x = Some True)"
    by (induction xs) (auto simp: all3_def)
  show "any3 xs = Some True \<longleftrightarrow> (\<exists>x \<in> set xs. x = Some True)"
    by (auto simp: any3_def)
qed

text \<open>
  The parameters a condition refers to, and the shape that makes the joined text read as the tree:
  AND binds stronger than OR, so a disjunction must not stand open beside an AND.
\<close>

fun params_upto :: "nat \<Rightarrow> sql_cond \<Rightarrow> bool" where
  "params_upto m (ColEq c n) = (1 \<le> n \<and> n \<le> m)"
| "params_upto m (ColNe c n) = (1 \<le> n \<and> n \<le> m)"
| "params_upto m (ColGt c n) = (1 \<le> n \<and> n \<le> m)"
| "params_upto m (ColLike c n) = (1 \<le> n \<and> n \<le> m)"
| "params_upto m (ColNotLike c n) = (1 \<le> n \<and> n \<le> m)"
| "params_upto m (Parens x) = params_upto m x"
| "params_upto m (AllOf xs) = list_all (params_upto m) xs"
| "params_upto m (AnyOf xs) = list_all (params_upto m) xs"
| "params_upto m _ = True"

fun closed_cond :: "sql_cond \<Rightarrow> bool" where
  "closed_cond (AllOf xs) = False"
| "closed_cond (AnyOf xs) = False"
| "closed_cond (Parens (AllOf xs)) = list_all closed_cond xs"
| "closed_cond (Parens (AnyOf xs)) = list_all closed_cond xs"
| "closed_cond (Parens x) = closed_cond x"
| "closed_cond _ = True"

lemma sql_param_append [simp]: "n \<le> length ps \<Longrightarrow> sql_param (ps @ qs) n = sql_param ps n"
  by (auto simp: sql_param_def nth_append)

lemma sql_param_new [simp]: "sql_param (ps @ v # qs) (Suc (length ps)) = v"
  by (simp add: sql_param_def)

lemma eval_cond_more_params:
  "params_upto (length ps) x \<Longrightarrow> eval_cond row (ps @ qs) x = eval_cond row ps x"
proof (induction x)
  case (AllOf xs)
  then have "map (eval_cond row (ps @ qs)) xs = map (eval_cond row ps) xs"
    by (auto simp: list_all_iff)
  then show ?case by (simp only: eval_cond.simps)
next
  case (AnyOf xs)
  then have "map (eval_cond row (ps @ qs)) xs = map (eval_cond row ps) xs"
    by (auto simp: list_all_iff)
  then show ?case by (simp only: eval_cond.simps)
qed simp_all

lemma params_upto_mono: "params_upto m x \<Longrightarrow> m \<le> n \<Longrightarrow> params_upto n x"
  by (induction x) (auto simp: list_all_iff)

end
