(* ===== verification/Levenshtein.thy ===== *)
theory Levenshtein
  imports Prelude
begin

text \<open>
  The edit distance of \<open>shspectr-web/src/domain/filter.rs\<close>: the loop over two rows of the
  dynamic-programming table that the code keeps in \<open>prev\<close> and \<open>curr\<close>, and its specification, the
  least cost of an alignment of the two strings.
\<close>

section \<open>The code's loops\<close>

text \<open>Body of the inner loop at column \<open>j\<close>, for the row of the character \<open>x\<close>.\<close>

definition lev_cell :: "'c list \<Rightarrow> 'c \<Rightarrow> nat list \<Rightarrow> nat list \<Rightarrow> nat \<Rightarrow> nat list" where
  "lev_cell b x prev cur j =
     (let cost = (if x \<noteq> b ! (j - 1) then 1 else 0)
      in cur[j := min (min (prev ! j + 1) (cur ! (j - 1) + 1)) (prev ! (j - 1) + cost)])"

text \<open>Body of the outer loop at row \<open>i\<close>: fill \<open>cur\<close>, then swap the two rows.\<close>

definition lev_row :: "'c list \<Rightarrow> 'c list \<Rightarrow> nat list \<times> nat list \<Rightarrow> nat \<Rightarrow> nat list \<times> nat list" where
  "lev_row a b rows i =
     (let (prev, cur) = rows;
          cur = foldl (lev_cell b (a ! (i - 1)) prev) (cur[0 := i]) [1..<length b + 1]
      in (cur, prev))"

definition levenshtein :: "'c list \<Rightarrow> 'c list \<Rightarrow> nat" where
  "levenshtein a b =
     (let (m, n) = (length a, length b);
          rows = foldl (lev_row a b) ([0..<n + 1], replicate (n + 1) 0) [1..<m + 1]
      in fst rows ! n)"

section \<open>The specification\<close>

text \<open>
  \<open>align xs ys k\<close>: \<open>xs\<close> becomes \<open>ys\<close> by an alignment that inserts, deletes and replaces \<open>k\<close>
  characters in total.
\<close>

inductive align :: "'c list \<Rightarrow> 'c list \<Rightarrow> nat \<Rightarrow> bool" where
  align_Nil: "align [] [] 0"
| align_insert: "align xs ys k \<Longrightarrow> align xs (ys @ [y]) (Suc k)"
| align_delete: "align xs ys k \<Longrightarrow> align (xs @ [x]) ys (Suc k)"
| align_match: "align xs ys k \<Longrightarrow> align (xs @ [x]) (ys @ [y]) (k + (if x \<noteq> y then 1 else 0))"

text \<open>The recurrence on prefix lengths.\<close>

function dist :: "'c list \<Rightarrow> 'c list \<Rightarrow> nat \<Rightarrow> nat \<Rightarrow> nat" where
  "dist a b 0 j = j"
| "dist a b (Suc i) 0 = Suc i"
| "dist a b (Suc i) (Suc j) =
     min (min (dist a b i (Suc j) + 1) (dist a b (Suc i) j + 1))
         (dist a b i j + (if a ! i \<noteq> b ! j then 1 else 0))"
  by pat_completeness auto
termination
  by (relation "measure (\<lambda>(a, b, i, j). i + j)") auto

section \<open>The rows hold the recurrence\<close>

lemma lev_cells:
  assumes "length cur = Suc (length b)" "length prev = Suc (length b)"
    and "\<forall>j \<le> length b. prev ! j = dist a b i j" "n \<le> length b" "i < length a"
  shows "length (foldl (lev_cell b (a ! i) prev) (cur[0 := Suc i]) [1..<n + 1]) = Suc (length b)
    \<and> (\<forall>j \<le> n. foldl (lev_cell b (a ! i) prev) (cur[0 := Suc i]) [1..<n + 1] ! j = dist a b (Suc i) j)"
  using assms(4)
proof (induction n)
  case 0
  with assms show ?case by simp
next
  case (Suc n)
  let ?row = "foldl (lev_cell b (a ! i) prev) (cur[0 := Suc i]) [1..<n + 1]"
  have IH: "length ?row = Suc (length b)" "\<forall>j \<le> n. ?row ! j = dist a b (Suc i) j" using Suc by simp_all
  have "foldl (lev_cell b (a ! i) prev) (cur[0 := Suc i]) [1..<Suc n + 1]
      = lev_cell b (a ! i) prev ?row (Suc n)" by simp
  also have "\<dots> = ?row[Suc n := dist a b (Suc i) (Suc n)]"
    using IH Suc.prems assms(3) by (simp add: lev_cell_def)
  finally have *: "foldl (lev_cell b (a ! i) prev) (cur[0 := Suc i]) [1..<Suc n + 1]
      = ?row[Suc n := dist a b (Suc i) (Suc n)]" .
  have "?row[Suc n := dist a b (Suc i) (Suc n)] ! j = dist a b (Suc i) j" if "j \<le> Suc n" for j
    using that IH Suc.prems by (cases "j = Suc n") simp_all
  then show ?case unfolding * using IH(1) by simp
qed

lemma lev_rows:
  assumes "m \<le> length a"
  shows "length (snd (foldl (lev_row a b) ([0..<length b + 1], replicate (length b + 1) 0) [1..<m + 1])) = Suc (length b)
    \<and> length (fst (foldl (lev_row a b) ([0..<length b + 1], replicate (length b + 1) 0) [1..<m + 1])) = Suc (length b)
    \<and> (\<forall>j \<le> length b.
         fst (foldl (lev_row a b) ([0..<length b + 1], replicate (length b + 1) 0) [1..<m + 1]) ! j = dist a b m j)"
  using assms
proof (induction m)
  case 0
  show ?case by (simp del: upt_Suc)
next
  case (Suc m)
  let ?rows = "foldl (lev_row a b) ([0..<length b + 1], replicate (length b + 1) 0) [1..<m + 1]"
  obtain prev cur where rows: "?rows = (prev, cur)" by (cases ?rows)
  have "foldl (lev_row a b) ([0..<length b + 1], replicate (length b + 1) 0) [1..<Suc m + 1]
      = lev_row a b ?rows (Suc m)" by (simp del: upt_Suc add: upt_Suc_append)
  then have step: "foldl (lev_row a b) ([0..<length b + 1], replicate (length b + 1) 0) [1..<Suc m + 1]
      = (foldl (lev_cell b (a ! m) prev) (cur[0 := Suc m]) [1..<length b + 1], prev)"
    unfolding rows lev_row_def Let_def by simp
  have IH: "length prev = Suc (length b)" "length cur = Suc (length b)" "\<forall>j \<le> length b. prev ! j = dist a b m j"
    using Suc rows by simp_all
  have "m < length a" using Suc.prems by simp
  from lev_cells [OF IH(2,1,3) order_refl this] show ?case
    unfolding step using IH(1) by simp
qed

lemma levenshtein_dist: "levenshtein a b = dist a b (length a) (length b)"
  using lev_rows [of "length a" a b] by (simp add: levenshtein_def Let_def split_def del: upt_Suc)

section \<open>The recurrence is the least alignment\<close>

lemma align_empty: "align [] ys (length ys)" "align xs [] (length xs)"
proof -
  show "align [] ys (length ys)"
    by (induction ys rule: rev_induct) (auto intro: align.intros)
  show "align xs [] (length xs)"
    by (induction xs rule: rev_induct) (auto intro: align.intros)
qed

lemma align_dist:
  "i \<le> length a \<Longrightarrow> j \<le> length b \<Longrightarrow> align (take i a) (take j b) (dist a b i j)"
proof (induction a b i j rule: dist.induct)
  case (1 a b j)
  then show ?case using align_empty(1) [of "take j b"] by (simp add: min_absorb2)
next
  case (2 a b i)
  then show ?case using align_empty(2) [of "take (Suc i) a"] by (simp add: min_absorb2)
next
  case (3 a b i j)
  have a: "take (Suc i) a = take i a @ [a ! i]" and b: "take (Suc j) b = take j b @ [b ! j]"
    using "3.prems" by (simp_all add: take_Suc_conv_app_nth)
  have "align (take (Suc i) a) (take (Suc j) b) (dist a b i (Suc j) + 1)"
    unfolding a using "3.IH"(1) "3.prems" by (auto intro: align_delete)
  moreover have "align (take (Suc i) a) (take (Suc j) b) (dist a b (Suc i) j + 1)"
    unfolding b using "3.IH"(2) "3.prems" by (auto intro: align_insert)
  moreover have "align (take (Suc i) a) (take (Suc j) b) (dist a b i j + (if a ! i \<noteq> b ! j then 1 else 0))"
    unfolding a b using "3.IH"(3) "3.prems" by (intro align_match) auto
  ultimately show ?case by (simp add: min_def)
qed

lemma dist_cong:
  "i \<le> length a \<Longrightarrow> j \<le> length b \<Longrightarrow> dist (a @ c) (b @ d) i j = dist a b i j"
  by (induction a b i j rule: dist.induct) (simp_all add: nth_append)

lemma dist_0_right: "dist a b i 0 = i"
  by (cases i) simp_all

lemma align_least: "align xs ys k \<Longrightarrow> dist xs ys (length xs) (length ys) \<le> k"
proof (induction rule: align.induct)
  case align_Nil
  show ?case by simp
next
  case (align_insert xs ys k y)
  show ?case
  proof (cases "length xs")
    case 0
    with align_insert show ?thesis by simp
  next
    case (Suc n)
    have "dist xs (ys @ [y]) (length xs) (length ys) \<le> k"
      using align_insert.IH dist_cong [of "length xs" xs "length ys" ys "[]" "[y]"] by simp
    then show ?thesis by (simp add: Suc)
  qed
next
  case (align_delete xs ys k x)
  have IH: "dist (xs @ [x]) ys (length xs) (length ys) \<le> k"
    using align_delete.IH dist_cong [of "length xs" xs "length ys" ys "[x]" "[]"] by simp
  then show ?case by (cases "length ys") (simp_all add: dist_0_right)
next
  case (align_match xs ys k x y)
  have "dist (xs @ [x]) (ys @ [y]) (length xs) (length ys) \<le> k"
    using align_match.IH dist_cong [of "length xs" xs "length ys" ys "[x]" "[y]"] by simp
  then show ?case by simp
qed

lemma levenshtein_least:
  "align a b (levenshtein a b) \<and> (\<forall>k. align a b k \<longrightarrow> levenshtein a b \<le> k)"
  using align_dist [of "length a" a "length b" b] align_least [of a b]
  by (simp add: levenshtein_dist)

lemma levenshtein_zero_iff: "levenshtein a b = 0 \<longleftrightarrow> a = b"
proof -
  have zero: "align a b k \<Longrightarrow> k = 0 \<Longrightarrow> a = b" for k
    by (induction rule: align.induct) (auto split: if_splits)
  have same: "align a a 0"
  proof (induction a rule: rev_induct)
    case Nil
    show ?case by (rule align_Nil)
  next
    case (snoc x xs)
    from align_match [OF snoc, of x x] show ?case by simp
  qed
  show ?thesis
  proof
    assume "levenshtein a b = 0"
    then show "a = b" using levenshtein_least [of a b] zero by metis
  next
    assume "a = b"
    then show "levenshtein a b = 0" using levenshtein_least [of a a] same by (metis le_zero_eq)
  qed
qed

lemma levenshtein_length: "length a \<le> length b + levenshtein a b \<and> length b \<le> length a + levenshtein a b"
proof -
  have "align a b k \<Longrightarrow> length a \<le> length b + k \<and> length b \<le> length a + k" for k
    by (induction rule: align.induct) auto
  then show ?thesis using levenshtein_least by blast
qed

text \<open>
  C20: The two-row loop computes the edit distance: its result is the cost of some alignment of the
  two strings by insertions, deletions and replacements, and no alignment costs less; in particular
  it is zero exactly for equal strings.
\<close>

theorem levenshtein_is_edit_distance:
  "{k. align a b k} \<noteq> {} \<and> levenshtein a b = (LEAST k. align a b k) \<and> (levenshtein a b = 0) = (a = b)"
proof -
  have "(LEAST k. align a b k) = levenshtein a b"
    using levenshtein_least [of a b] by (intro Least_equality) simp_all
  moreover have "{k. align a b k} \<noteq> {}" using levenshtein_least [of a b] by auto
  ultimately show ?thesis by (simp add: levenshtein_zero_iff)
qed

end
