(* ===== verification/Query.thy ===== *)
theory Query
  imports Text Levenshtein
begin

text \<open>
  The filter query language of the web server, \<open>shspectr-web/src/domain/filter.rs\<close>, with the keyword
  table of \<open>shspectr-common/src/filter.rs\<close> that its documentation and completion use.
\<close>

section \<open>Filters\<close>

record 'a filter_value =
  fv_value :: 'a
  fv_negated :: bool

definition filter_value_new :: "'a \<Rightarrow> 'a filter_value" where
  "filter_value_new v = \<lparr>fv_value = v, fv_negated = False\<rparr>"

definition filter_value_negated :: "'a \<Rightarrow> 'a filter_value" where
  "filter_value_negated v = \<lparr>fv_value = v, fv_negated = True\<rparr>"

record event_filter =
  f_raw :: "string option"
  f_warnings :: "string list"
  f_user :: "string filter_value option"
  f_comm :: "string filter_value option"
  f_exit_code :: "i32 filter_value option"
  f_session_id :: "string filter_value option"
  f_pid :: "u32 filter_value option"
  f_ppid :: "u32 filter_value option"
  f_gid :: "u32 filter_value option"
  f_euid :: "u32 filter_value option"
  f_tty :: "u32 filter_value option"
  f_file :: "string filter_value option"
  f_cmd :: "string filter_value option"
  f_text :: "string option"

definition event_filter_default :: event_filter where
  "event_filter_default =
     \<lparr>f_raw = None, f_warnings = [], f_user = None, f_comm = None, f_exit_code = None,
      f_session_id = None, f_pid = None, f_ppid = None, f_gid = None, f_euid = None, f_tty = None,
      f_file = None, f_cmd = None, f_text = None\<rparr>"

definition event_filter_is_empty :: "event_filter \<Rightarrow> bool" where
  "event_filter_is_empty f \<longleftrightarrow>
     f_user f = None \<and> f_comm f = None \<and> f_exit_code f = None \<and> f_session_id f = None
     \<and> f_pid f = None \<and> f_ppid f = None \<and> f_gid f = None \<and> f_euid f = None \<and> f_tty f = None
     \<and> f_file f = None \<and> f_cmd f = None \<and> f_text f = None"

section \<open>Suggestions\<close>

definition KNOWN_KEYWORDS :: "string list" where
  "KNOWN_KEYWORDS = [''ppid'', ''pid'', ''user'', ''comm'', ''exit'', ''session'', ''gid'', ''euid'',
     ''tty'', ''file'', ''cmd'']"

definition common_prefix :: "string \<Rightarrow> string \<Rightarrow> nat" where
  "common_prefix s t = length (takeWhile (\<lambda>(a, b). a = b) (zip (str_chars s) (str_chars t)))"

text \<open>\<open>min_by_key\<close> returns the first of the least elements.\<close>

fun min_by_key :: "('a \<Rightarrow> nat \<times> int) \<Rightarrow> 'a list \<Rightarrow> 'a option" where
  "min_by_key key [] = None"
| "min_by_key key (x # xs) =
     (case min_by_key key xs of
        None \<Rightarrow> Some x
      | Some y \<Rightarrow>
          if fst (key x) < fst (key y) \<or> (fst (key x) = fst (key y) \<and> snd (key x) \<le> snd (key y))
          then Some x else Some y)"

definition keyword_distance :: "string \<Rightarrow> string \<Rightarrow> nat" where
  "keyword_distance s t = levenshtein (str_chars s) (str_chars t)"

definition suggest_keyword :: "string \<Rightarrow> string option" where
  "suggest_keyword unknown =
     map_option fst
       (min_by_key (\<lambda>(kw, d, neg_prefix). (d, neg_prefix))
         (List.map_filter
           (\<lambda>kw. let d = keyword_distance unknown kw
                 in if 0 < d \<and> d \<le> 2 then Some (kw, d, - int (common_prefix unknown kw)) else None)
           KNOWN_KEYWORDS))"

section \<open>Parsing\<close>

definition quoted :: "string \<Rightarrow> string" where
  "quoted s = CHR 0x22 # s @ [CHR 0x22]"

definition number_warning :: "string \<Rightarrow> string \<Rightarrow> string" where
  "number_warning key v = quoted key @ '' expects a number, got '' @ quoted v"

definition unknown_warning :: "string \<Rightarrow> string" where
  "unknown_warning key = ''Unknown filter keyword '' @ quoted key @
     (case suggest_keyword key of
        None \<Rightarrow> [] | Some suggestion \<Rightarrow> '' Did you mean '' @ quoted suggestion @ ''?'')"

definition warn :: "string \<Rightarrow> event_filter \<Rightarrow> event_filter" where
  "warn w f = f\<lparr>f_warnings := f_warnings f @ [w]\<rparr>"

definition wrap :: "bool \<Rightarrow> 'a \<Rightarrow> 'a filter_value" where
  "wrap negated v = (if negated then filter_value_negated v else filter_value_new v)"

text \<open>The \<open>match key\<close> of the loop: the new filter, or \<open>None\<close> for an unknown keyword.\<close>

definition apply_keyword :: "bool \<Rightarrow> string \<Rightarrow> string \<Rightarrow> event_filter \<Rightarrow> event_filter option" where
  "apply_keyword negated key v f =
     (if key = ''user'' then Some (f\<lparr>f_user := Some (wrap negated v)\<rparr>)
      else if key = ''comm'' then Some (f\<lparr>f_comm := Some (wrap negated v)\<rparr>)
      else if key = ''exit'' then
        Some (case parse_i32 v of Some code \<Rightarrow> f\<lparr>f_exit_code := Some (wrap negated code)\<rparr>
                                | None \<Rightarrow> warn (number_warning ''exit'' v) f)
      else if key = ''session'' then Some (f\<lparr>f_session_id := Some (wrap negated v)\<rparr>)
      else if key = ''pid'' then
        Some (case parse_u32 v of Some p \<Rightarrow> f\<lparr>f_pid := Some (wrap negated p)\<rparr>
                                | None \<Rightarrow> warn (number_warning ''pid'' v) f)
      else if key = ''ppid'' then
        Some (case parse_u32 v of Some p \<Rightarrow> f\<lparr>f_ppid := Some (wrap negated p)\<rparr>
                                | None \<Rightarrow> warn (number_warning ''ppid'' v) f)
      else if key = ''gid'' then
        Some (case parse_u32 v of Some g \<Rightarrow> f\<lparr>f_gid := Some (wrap negated g)\<rparr>
                                | None \<Rightarrow> warn (number_warning ''gid'' v) f)
      else if key = ''euid'' then
        Some (case parse_u32 v of Some e \<Rightarrow> f\<lparr>f_euid := Some (wrap negated e)\<rparr>
                                | None \<Rightarrow> warn (number_warning ''euid'' v) f)
      else if key = ''tty'' then
        Some (case parse_u32 v of Some t \<Rightarrow> f\<lparr>f_tty := Some (wrap negated t)\<rparr>
                                | None \<Rightarrow> warn (number_warning ''tty'' v) f)
      else if key = ''file'' then Some (f\<lparr>f_file := Some (wrap negated v)\<rparr>)
      else if key = ''cmd'' then Some (f\<lparr>f_cmd := Some (wrap negated v)\<rparr>)
      else None)"

definition parse_rest :: "string \<Rightarrow> bool \<Rightarrow> string \<Rightarrow> event_filter \<times> string list \<Rightarrow> event_filter \<times> string list"
where
  "parse_rest token negated rest st =
     (let (f, bare_words) = st
      in case split_once (CHR '':'') rest of
           None \<Rightarrow> (f, bare_words @ [token])
         | Some (key, v) \<Rightarrow>
             (case apply_keyword negated key v f of
                Some f \<Rightarrow> (f, bare_words)
              | None \<Rightarrow> (warn (unknown_warning key) f, bare_words @ [token])))"

definition parse_token :: "event_filter \<times> string list \<Rightarrow> string \<Rightarrow> event_filter \<times> string list" where
  "parse_token st token =
     (case token of
        c # stripped \<Rightarrow>
          if c = CHR ''!'' then
            (if stripped = [] \<or> hd stripped = CHR ''!'' \<or> CHR '':'' \<notin> set stripped
             then (fst st, snd st @ [token])
             else parse_rest token True stripped st)
          else parse_rest token False token st
      | [] \<Rightarrow> parse_rest token False token st)"

definition event_filter_parse :: "string \<Rightarrow> event_filter" where
  "event_filter_parse query =
     (let query = str_trim query
      in if query = [] then event_filter_default
         else let (f, bare_words) = foldl parse_token
                    (event_filter_default\<lparr>f_raw := Some query\<rparr>, []) (split_whitespace query)
              in if bare_words \<noteq> [] then f\<lparr>f_text := Some (str_join '' '' bare_words)\<rparr> else f)"

section \<open>The keyword table\<close>

datatype value_type = Number | Text | Glob

fun value_type_display :: "value_type \<Rightarrow> string" where
  "value_type_display Number = ''number''"
| "value_type_display Text = ''text''"
| "value_type_display Glob = ''glob''"

record filter_keyword_meta =
  fk_keyword :: string
  fk_description :: string
  fk_value_type :: value_type
  fk_example :: string
  fk_supports_negation :: bool

definition FILTER_KEYWORDS :: "filter_keyword_meta list" where
  "FILTER_KEYWORDS =
     [\<lparr>fk_keyword = ''pid'', fk_description = ''Process ID'', fk_value_type = Number,
       fk_example = ''pid:1234'', fk_supports_negation = True\<rparr>,
      \<lparr>fk_keyword = ''ppid'', fk_description = ''Parent process ID'', fk_value_type = Number,
       fk_example = ''ppid:1'', fk_supports_negation = True\<rparr>,
      \<lparr>fk_keyword = ''user'', fk_description = ''Username or UID'', fk_value_type = Text,
       fk_example = ''user:root'', fk_supports_negation = True\<rparr>,
      \<lparr>fk_keyword = ''comm'', fk_description = ''Kernel task name (supports * and ? globs)'',
       fk_value_type = Glob, fk_example = ''comm:bash'', fk_supports_negation = True\<rparr>,
      \<lparr>fk_keyword = ''cmd'', fk_description = ''Command name from path (supports * and ? globs)'',
       fk_value_type = Glob, fk_example = ''cmd:git'', fk_supports_negation = True\<rparr>,
      \<lparr>fk_keyword = ''exit'', fk_description = ''Exit code'', fk_value_type = Number,
       fk_example = ''exit:0'', fk_supports_negation = True\<rparr>,
      \<lparr>fk_keyword = ''session'', fk_description = ''Session ID (prefix match)'', fk_value_type = Text,
       fk_example = ''session:ox_abc'', fk_supports_negation = True\<rparr>,
      \<lparr>fk_keyword = ''gid'', fk_description = ''Group ID'', fk_value_type = Number,
       fk_example = ''gid:1000'', fk_supports_negation = True\<rparr>,
      \<lparr>fk_keyword = ''euid'', fk_description = ''Effective user ID'', fk_value_type = Number,
       fk_example = ''euid:0'', fk_supports_negation = True\<rparr>,
      \<lparr>fk_keyword = ''tty'', fk_description = ''TTY number (0 = no PTY)'', fk_value_type = Number,
       fk_example = ''tty:34816'', fk_supports_negation = True\<rparr>,
      \<lparr>fk_keyword = ''file'', fk_description = ''Executable path (supports * and ? globs)'',
       fk_value_type = Glob, fk_example = ''file:/usr/bin/*'', fk_supports_negation = True\<rparr>]"

section \<open>One token\<close>

text \<open>A token the whole query consists of: not empty and without white space.\<close>

definition single_token :: "string \<Rightarrow> bool" where
  "single_token s \<longleftrightarrow> s \<noteq> [] \<and> (\<forall>c \<in> set (str_chars s). \<not> is_white c)"

lemma single_token_split:
  assumes "single_token s"
  shows "str_trim s = s" "split_whitespace s = [s]"
proof -
  have ne: "str_chars s \<noteq> []" using assms concat_str_chars [of s] by (auto simp: single_token_def)
  have all: "\<forall>c \<in> set (str_chars s). \<not> is_white c" using assms by (simp add: single_token_def)
  have keep: "dropWhile is_white cs = cs" if "\<forall>c \<in> set cs. \<not> is_white c" for cs
    using that by (cases cs) auto
  have "trim_chars (str_chars s) = str_chars s"
    using keep [OF all] keep [of "rev (str_chars s)"] all by (simp add: trim_chars_def)
  then show "str_trim s = s" by (simp add: str_trim_def concat_str_chars)
  show "split_whitespace s = [s]"
    using split_words_nonwhite [OF ne all] by (simp add: split_whitespace_def concat_str_chars)
qed

lemma parse_single_token:
  assumes "single_token s"
  shows "event_filter_parse s =
    (let (f, bare_words) = parse_token (event_filter_default\<lparr>f_raw := Some s\<rparr>, []) s
     in if bare_words \<noteq> [] then f\<lparr>f_text := Some (str_join '' '' bare_words)\<rparr> else f)"
proof -
  have "s \<noteq> []" using assms by (simp add: single_token_def)
  then show ?thesis using single_token_split [OF assms] by (simp add: event_filter_parse_def)
qed

lemma parse_keyword_token:
  assumes "single_token ((if negated then ''!'' else []) @ key @ CHR '':'' # v)"
    and "CHR '':'' \<notin> set key" "key \<noteq> []" "hd key \<noteq> CHR ''!''"
    and "apply_keyword negated key v
      (event_filter_default\<lparr>f_raw := Some ((if negated then ''!'' else []) @ key @ CHR '':'' # v)\<rparr>) = Some f"
  shows "event_filter_parse ((if negated then ''!'' else []) @ key @ CHR '':'' # v) = f"
proof -
  have split: "split_once (CHR '':'') (key @ CHR '':'' # v) = Some (key, v)"
    using assms(2) by (simp add: split_once_Some)
  have "parse_token (event_filter_default\<lparr>f_raw := Some ((if negated then ''!'' else []) @ key @ CHR '':'' # v)\<rparr>, [])
      ((if negated then ''!'' else []) @ key @ CHR '':'' # v) = (f, [])"
    using assms(3-5) split by (cases key) (auto simp: parse_token_def parse_rest_def)
  then show ?thesis using parse_single_token [OF assms(1)] by simp
qed

lemma ascii_single_token:
  "s \<noteq> [] \<Longrightarrow> ascii s \<Longrightarrow> list_all (\<lambda>c. \<not> is_white [c]) s \<Longrightarrow> single_token s"
  by (simp add: single_token_def str_chars_ascii list_all_iff)

lemma digit_not_white: "is_digit c \<Longrightarrow> \<not> is_white [c]"
  by (auto simp: is_white_def white_space_def is_digit_def u8_of_char_def)

lemma dec_not_white: "list_all (\<lambda>c. \<not> is_white [c]) (dec n)"
  using dec_facts [of n] digit_not_white by (auto simp: list_all_iff)

lemma ascii_dec: "ascii (dec n)" using dec_facts by blast


section \<open>Which tokens are text\<close>

definition bare_token :: "string \<Rightarrow> bool" where
  "bare_token token =
     (let bang = (token \<noteq> [] \<and> hd token = CHR ''!'');
          rest = (if bang then tl token else token)
      in (bang \<and> (rest = [] \<or> hd rest = CHR ''!''))
         \<or> (case split_once (CHR '':'') rest of None \<Rightarrow> True | Some (key, _) \<Rightarrow> key \<notin> set KNOWN_KEYWORDS))"

lemma apply_keyword_known: "apply_keyword negated key v f = None \<longleftrightarrow> key \<notin> set KNOWN_KEYWORDS"
  by (simp add: apply_keyword_def KNOWN_KEYWORDS_def)

lemma apply_keyword_frame:
  assumes "apply_keyword negated key v f = Some f'"
  shows "f_text f' = f_text f \<and> f_raw f' = f_raw f"
  using assms by (auto simp: apply_keyword_def warn_def split: if_splits option.splits)

lemma parse_rest_words:
  "snd (parse_rest token negated rest (f, ws)) =
      ws @ (case split_once (CHR '':'') rest of
              None \<Rightarrow> [token] | Some (key, _) \<Rightarrow> if key \<notin> set KNOWN_KEYWORDS then [token] else [])
   \<and> f_text (fst (parse_rest token negated rest (f, ws))) = f_text f
   \<and> f_raw (fst (parse_rest token negated rest (f, ws))) = f_raw f"
proof (cases "split_once (CHR '':'') rest")
  case None
  then show ?thesis by (simp add: parse_rest_def)
next
  case (Some kv)
  obtain key v where kv: "kv = (key, v)" by (cases kv)
  show ?thesis
  proof (cases "apply_keyword negated key v f")
    case None
    with Some kv apply_keyword_known [of negated key v f] show ?thesis by (simp add: parse_rest_def warn_def)
  next
    case (Some f')
    with \<open>split_once (CHR '':'') rest = Some kv\<close> kv apply_keyword_known [of negated key v f]
      apply_keyword_frame [OF Some] show ?thesis by (simp add: parse_rest_def)
  qed
qed

lemma parse_token_words:
  "snd (parse_token (f, ws) token) = ws @ (if bare_token token then [token] else [])
   \<and> f_text (fst (parse_token (f, ws) token)) = f_text f
   \<and> f_raw (fst (parse_token (f, ws) token)) = f_raw f"
proof (cases token)
  case Nil
  then show ?thesis using parse_rest_words [of token False token f ws] by (simp add: parse_token_def bare_token_def)
next
  case (Cons c s)
  show ?thesis
  proof (cases "c = CHR ''!''")
    case False
    then show ?thesis
      using Cons parse_rest_words [of token False token f ws]
      by (auto simp: parse_token_def bare_token_def Let_def split: option.splits)
  next
    case True
    then show ?thesis
      using Cons parse_rest_words [of token True s f ws]
      by (auto simp: parse_token_def bare_token_def Let_def split_once_None [symmetric] split: option.splits)
  qed
qed

lemma parse_tokens_words:
  "snd (foldl parse_token (f, ws) tokens) = ws @ filter bare_token tokens
   \<and> f_text (fst (foldl parse_token (f, ws) tokens)) = f_text f
   \<and> f_raw (fst (foldl parse_token (f, ws) tokens)) = f_raw f"
proof (induction tokens arbitrary: f ws)
  case Nil
  show ?case by simp
next
  case (Cons token tokens)
  obtain f1 ws1 where 1: "parse_token (f, ws) token = (f1, ws1)" by (cases "parse_token (f, ws) token")
  with parse_token_words [of f ws token] Cons.IH [of f1 ws1] show ?case by simp
qed

section \<open>Properties\<close>

text \<open>
  C31: The free text of a parsed query is exactly its unrecognised tokens in order, joined by single
  spaces: tokens without a keyword, tokens with an unknown keyword, and malformed negations. Tokens
  with a known keyword never become text, whatever their value. A blank query is the empty filter.
\<close>

theorem query_text_is_bare_tokens:
  "if str_trim query = [] then event_filter_parse query = event_filter_default
   else (let bare = filter bare_token (split_whitespace (str_trim query))
         in f_text (event_filter_parse query) = (if bare = [] then None else Some (str_join '' '' bare))
            \<and> f_raw (event_filter_parse query) = Some (str_trim query))"
proof (cases "str_trim query = []")
  case True
  then show ?thesis by (simp add: event_filter_parse_def)
next
  case False
  let ?f0 = "event_filter_default\<lparr>f_raw := Some (str_trim query)\<rparr>"
  let ?toks = "split_whitespace (str_trim query)"
  obtain f ws where run: "foldl parse_token (?f0, []) ?toks = (f, ws)"
    by (cases "foldl parse_token (?f0, []) ?toks")
  have "ws = filter bare_token ?toks" "f_text f = None" "f_raw f = Some (str_trim query)"
    using parse_tokens_words [of ?f0 "[]" ?toks] run by (simp_all add: event_filter_default_def)
  with False run show ?thesis by (simp add: event_filter_parse_def Let_def)
qed

text \<open>
  Every 32-bit number, negated or not, survives the round trip through the query language:
  \<open>pid:<n>\<close> and \<open>exit:<n>\<close> (also negative) parse to exactly that filter, without warnings and
  without text.
\<close>

lemma numeric_query_roundtrip:
  "event_filter_parse ((if neg then ''!'' else []) @ ''pid'' @ CHR '':'' # dec (unat w)) =
      event_filter_default\<lparr>f_raw := Some ((if neg then ''!'' else []) @ ''pid'' @ CHR '':'' # dec (unat w)),
        f_pid := Some \<lparr>fv_value = w, fv_negated = neg\<rparr>\<rparr>
   \<and> event_filter_parse ((if neg then ''!'' else []) @ ''exit'' @ CHR '':'' # dec_int (sint i)) =
      event_filter_default\<lparr>f_raw := Some ((if neg then ''!'' else []) @ ''exit'' @ CHR '':'' # dec_int (sint i)),
        f_exit_code := Some \<lparr>fv_value = i, fv_negated = neg\<rparr>\<rparr>"
proof
  show "event_filter_parse ((if neg then ''!'' else []) @ ''pid'' @ CHR '':'' # dec (unat w)) =
      event_filter_default\<lparr>f_raw := Some ((if neg then ''!'' else []) @ ''pid'' @ CHR '':'' # dec (unat w)),
        f_pid := Some \<lparr>fv_value = w, fv_negated = neg\<rparr>\<rparr>"
    using dec_not_white [of "unat w"] ascii_dec [of "unat w"]
    by (intro parse_keyword_token ascii_single_token)
      (auto simp: apply_keyword_def parse_u32_dec wrap_def filter_value_new_def filter_value_negated_def
        is_white_def white_space_def u8_of_char_def)
next
  have "ascii (dec_int j)" "list_all (\<lambda>c. \<not> is_white [c]) (dec_int j)" for j
    using dec_not_white ascii_dec
    by (auto simp: dec_int_def u8_of_char_def is_white_def white_space_def)
  then show "event_filter_parse ((if neg then ''!'' else []) @ ''exit'' @ CHR '':'' # dec_int (sint i)) =
      event_filter_default\<lparr>f_raw := Some ((if neg then ''!'' else []) @ ''exit'' @ CHR '':'' # dec_int (sint i)),
        f_exit_code := Some \<lparr>fv_value = i, fv_negated = neg\<rparr>\<rparr>"
    by (intro parse_keyword_token ascii_single_token)
      (auto simp: apply_keyword_def parse_i32_dec wrap_def filter_value_new_def filter_value_negated_def
        is_white_def white_space_def u8_of_char_def)
qed

text \<open>The result of a \<open>min_by_key\<close>.\<close>

lemma min_by_key_None: "min_by_key key xs = None \<longleftrightarrow> xs = []"
  by (cases xs) (auto split: option.splits)

definition key_less :: "nat \<times> int \<Rightarrow> nat \<times> int \<Rightarrow> bool" where
  "key_less a b \<longleftrightarrow> fst a < fst b \<or> (fst a = fst b \<and> snd a < snd b)"

lemma min_by_key_Some:
  "min_by_key key xs = Some x \<Longrightarrow> x \<in> set xs \<and> (\<forall>y \<in> set xs. \<not> key_less (key y) (key x))"
proof (induction xs arbitrary: x)
  case Nil
  then show ?case by simp
next
  case (Cons a xs)
  show ?case
  proof (cases "min_by_key key xs")
    case None
    with Cons show ?thesis by (auto simp: min_by_key_None key_less_def)
  next
    case (Some y)
    with Cons.IH [OF Some] Cons.prems show ?thesis
      by (auto simp: key_less_def split: if_splits)
  qed
qed


text \<open>The keywords close enough to suggest, and when one is a better suggestion than another.\<close>

definition near_keywords :: "string \<Rightarrow> string set" where
  "near_keywords unknown =
     {kw \<in> set KNOWN_KEYWORDS. 0 < keyword_distance unknown kw \<and> keyword_distance unknown kw \<le> 2}"

definition better_keyword :: "string \<Rightarrow> string \<Rightarrow> string \<Rightarrow> bool" where
  "better_keyword unknown a b \<longleftrightarrow>
     keyword_distance unknown a < keyword_distance unknown b
     \<or> (keyword_distance unknown a = keyword_distance unknown b
        \<and> common_prefix unknown b < common_prefix unknown a)"

text \<open>
  C37: The suggestion for an unknown keyword is one of the known keywords at edit distance 1 or 2,
  and no other such keyword is closer or equally close with a longer common prefix; there is none
  exactly when no keyword is that close.
\<close>

theorem suggestion_is_closest:
  "case suggest_keyword unknown of
      None \<Rightarrow> near_keywords unknown = {}
    | Some kw \<Rightarrow> kw \<in> near_keywords unknown \<and> {a \<in> near_keywords unknown. better_keyword unknown a kw} = {}"
proof -
  let ?cand = "List.map_filter (\<lambda>kw. let d = keyword_distance unknown kw
      in if 0 < d \<and> d \<le> 2 then Some (kw, d, - int (common_prefix unknown kw)) else None) KNOWN_KEYWORDS"
  let ?key = "\<lambda>(kw :: string, d :: nat, neg_prefix :: int). (d, neg_prefix)"
  have cand: "set ?cand = (\<lambda>kw. (kw, keyword_distance unknown kw, - int (common_prefix unknown kw))) ` near_keywords unknown"
    by (auto simp: map_filter_def near_keywords_def Let_def image_iff)
  show ?thesis
  proof (cases "min_by_key ?key ?cand")
    case None
    then have "?cand = []" by (simp only: min_by_key_None)
    then have "set ?cand = {}" by simp
    with cand None show ?thesis by (simp add: suggest_keyword_def)
  next
    case (Some x)
    then obtain kw where x: "x = (kw, keyword_distance unknown kw, - int (common_prefix unknown kw))"
      "kw \<in> near_keywords unknown"
      using min_by_key_Some [OF Some] cand by auto
    have "\<not> better_keyword unknown a kw" if "a \<in> near_keywords unknown" for a
      using min_by_key_Some [OF Some] that unfolding cand x(1) better_keyword_def key_less_def by force
    with x Some show ?thesis by (simp add: suggest_keyword_def)
  qed
qed

definition example_ok :: "string \<Rightarrow> bool" where
  "example_ok q \<longleftrightarrow> (let f = event_filter_parse q
     in f_warnings f = [] \<and> f_text f = None \<and> \<not> event_filter_is_empty f)"

text \<open>The fields a filter sets, by the keyword that names them, with their polarity.\<close>

definition fields_set :: "event_filter \<Rightarrow> (string \<times> bool) list" where
  "fields_set f = List.map_filter (\<lambda>(k, negated). map_option (Pair k) negated)
     [(''user'', map_option fv_negated (f_user f)), (''comm'', map_option fv_negated (f_comm f)),
      (''exit'', map_option fv_negated (f_exit_code f)), (''session'', map_option fv_negated (f_session_id f)),
      (''pid'', map_option fv_negated (f_pid f)), (''ppid'', map_option fv_negated (f_ppid f)),
      (''gid'', map_option fv_negated (f_gid f)), (''euid'', map_option fv_negated (f_euid f)),
      (''tty'', map_option fv_negated (f_tty f)), (''file'', map_option fv_negated (f_file f)),
      (''cmd'', map_option fv_negated (f_cmd f))]"

text \<open>
  The type the table gives a keyword, and the values it takes: the exit code is signed, the other numbers
  are not.
\<close>

definition keyword_type :: "string \<Rightarrow> value_type option" where
  "keyword_type key = map_of (map (\<lambda>m. (fk_keyword m, fk_value_type m)) FILTER_KEYWORDS) key"

definition takes_value :: "string \<Rightarrow> string \<Rightarrow> bool" where
  "takes_value key v \<longleftrightarrow> keyword_type key = Some Number \<longrightarrow>
     (if key = ''exit'' then parse_i32 v \<noteq> None else parse_u32 v \<noteq> None)"

lemma keyword_types:
  "keyword_type = map_of [(''pid'', Number), (''ppid'', Number), (''user'', Text), (''comm'', Glob), (''cmd'', Glob),
     (''exit'', Number), (''session'', Text), (''gid'', Number), (''euid'', Number), (''tty'', Number), (''file'', Glob)]"
  by (rule ext) (simp add: keyword_type_def FILTER_KEYWORDS_def)

lemma parse_pair_token:
  fixes key v negated
  defines "token \<equiv> (if negated then ''!'' else []) @ key @ CHR '':'' # v"
  assumes "single_token token" "CHR '':'' \<notin> set key" "key \<noteq> []" "hd key \<noteq> CHR ''!''"
  shows "event_filter_parse token =
    (let f = event_filter_default\<lparr>f_raw := Some token\<rparr>
     in case apply_keyword negated key v f of
          Some f \<Rightarrow> f
        | None \<Rightarrow> (warn (unknown_warning key) f)\<lparr>f_text := Some token\<rparr>)"
proof -
  have split: "split_once (CHR '':'') (key @ CHR '':'' # v) = Some (key, v)"
    using assms(3) by (simp add: split_once_Some)
  have rest: "parse_rest w negated (key @ CHR '':'' # v) (f, []) = (case apply_keyword negated key v f of
      Some f \<Rightarrow> (f, []) | None \<Rightarrow> (warn (unknown_warning key) f, [w]))" for w f
    by (simp add: parse_rest_def split split: option.split)
  obtain a key' where key: "key = a # key'" "a \<noteq> CHR ''!''" using assms(4,5) by (cases key) auto
  have "parse_token (f, []) token = parse_rest token negated (key @ CHR '':'' # v) (f, [])" for f
    using key by (simp add: token_def parse_token_def)
  with rest parse_single_token [OF assms(2)] show ?thesis
    by (auto simp: Let_def split: option.splits)
qed

text \<open>What an arm of the parser does, for every keyword of the table.\<close>

lemma table_arm:
  assumes "f = event_filter_default\<lparr>f_raw := Some token\<rparr>"
  shows "if keyword_type key = None then apply_keyword negated key v f = None
    else \<exists>f'. apply_keyword negated key v f = Some f' \<and> f_text f' = None
        \<and> (if takes_value key v then f_warnings f' = [] \<and> fields_set f' = [(key, negated)]
           else f_warnings f' = [number_warning key v] \<and> fields_set f' = [])"
proof (cases "key \<in> set KNOWN_KEYWORDS")
  case False
  then have "keyword_type key = None" by (simp add: keyword_types KNOWN_KEYWORDS_def)
  with False show ?thesis by (simp add: apply_keyword_known)
next
  case True
  have wrap: "fv_negated (wrap negated x) = negated" for x :: 'x
    by (simp add: wrap_def filter_value_new_def filter_value_negated_def)
  note arm = assms apply_keyword_def fields_set_def event_filter_default_def warn_def wrap map_filter_simps
    keyword_types takes_value_def
  from True consider "key = ''ppid''" | "key = ''pid''" | "key = ''user''" | "key = ''comm''" | "key = ''exit''"
    | "key = ''session''" | "key = ''gid''" | "key = ''euid''" | "key = ''tty''" | "key = ''file''" | "key = ''cmd''"
    unfolding KNOWN_KEYWORDS_def list.set insert_iff empty_iff by metis
  then show ?thesis
  proof cases
    case 1 then show ?thesis by (cases "parse_u32 v") (simp_all add: arm)
  next
    case 2 then show ?thesis by (cases "parse_u32 v") (simp_all add: arm)
  next
    case 5 then show ?thesis by (cases "parse_i32 v") (simp_all add: arm)
  next
    case 7 then show ?thesis by (cases "parse_u32 v") (simp_all add: arm)
  next
    case 8 then show ?thesis by (cases "parse_u32 v") (simp_all add: arm)
  next
    case 9 then show ?thesis by (cases "parse_u32 v") (simp_all add: arm)
  qed (simp_all add: arm)
qed

lemma examples_parse:
  "list_all (\<lambda>m. example_ok (fk_example m) \<and> example_ok (CHR ''!'' # fk_example m)) FILTER_KEYWORDS"
proof -
  have *: "example_ok s" if "s \<noteq> []" "ascii s" "list_all (\<lambda>c. \<not> is_white [c]) s"
   "let st = parse_token (event_filter_default\<lparr>f_raw := Some s\<rparr>, []) s in
    snd st = [] \<and> f_warnings (fst st) = [] \<and> f_text (fst st) = None \<and> \<not> event_filter_is_empty (fst st)" for s
   using that(4) unfolding example_ok_def parse_single_token [OF ascii_single_token [OF that(1-3)]] Let_def split_def
   by (auto)
  show ?thesis
   by (simp add: FILTER_KEYWORDS_def)
      (intro conjI *; simp add: u8_of_char_def is_white_def white_space_def  parse_token_def parse_rest_def apply_keyword_def parse_u32_def parse_i32_def parse_signed_def parse_unsigned_def parse_digits_def is_digit_def digit_val_def event_filter_default_def event_filter_is_empty_def wrap_def)
qed

text \<open>
  C38: The keyword table that documents the language agrees with what the parser does. A query that is one
  token \<open>key:value\<close> or \<open>!key:value\<close> is taken as a filter exactly when the table lists the key, and then it
  is no free text: it sets the field of that keyword and no other, with the polarity written, unless the
  table types the keyword as a number and the value is none (a signed 32-bit number for \<open>exit\<close>, an unsigned
  one for the others), when it sets no field and warns of that. With any other key the token is kept as
  free text, with a warning of an unknown keyword. And every example of the table, plain and negated, parses
  to a filter without a warning and without free text.
\<close>

theorem keyword_table_matches_parser:
  fixes key v :: string and negated :: bool
  defines "token \<equiv> (if negated then ''!'' else []) @ key @ CHR '':'' # v"
  assumes "single_token token" "CHR '':'' \<notin> set key" "key \<noteq> []" "hd key \<noteq> CHR ''!''"
  shows "(let f = event_filter_parse token
      in if keyword_type key = None
         then f_text f = Some token \<and> f_warnings f = [unknown_warning key] \<and> fields_set f = []
         else f_text f = None
           \<and> (if takes_value key v then f_warnings f = [] \<and> fields_set f = [(key, negated)]
              else f_warnings f = [number_warning key v] \<and> fields_set f = []))
    \<and> list_all (\<lambda>m. example_ok (fk_example m) \<and> example_ok (CHR ''!'' # fk_example m)) FILTER_KEYWORDS"
proof
  let ?f = "event_filter_default\<lparr>f_raw := Some token\<rparr>"
  have none: "fields_set ((warn (unknown_warning key) ?f)\<lparr>f_text := Some token\<rparr>) = []"
    "f_warnings ((warn (unknown_warning key) ?f)\<lparr>f_text := Some token\<rparr>) = [unknown_warning key]"
    by (simp_all add: warn_def fields_set_def event_filter_default_def map_filter_simps)
  have parse: "event_filter_parse token = (case apply_keyword negated key v ?f of
      Some f \<Rightarrow> f | None \<Rightarrow> (warn (unknown_warning key) ?f)\<lparr>f_text := Some token\<rparr>)"
    using parse_pair_token [OF assms(2-) [unfolded token_def]] unfolding token_def Let_def .
  show "let f = event_filter_parse token
      in if keyword_type key = None
         then f_text f = Some token \<and> f_warnings f = [unknown_warning key] \<and> fields_set f = []
         else f_text f = None
           \<and> (if takes_value key v then f_warnings f = [] \<and> fields_set f = [(key, negated)]
              else f_warnings f = [number_warning key v] \<and> fields_set f = [])"
    using table_arm [OF refl, where token = token and key = key and negated = negated and v = v]
    unfolding Let_def parse by (cases "keyword_type key = None") (auto simp: none)
qed (rule examples_parse)

text \<open>A number, a value that is none, and a key the table does not list.\<close>

theorem keyword_table_matches_parser_witness:
  "fields_set (event_filter_parse ''!exit:-1'') = [(''exit'', True)]
   \<and> f_warnings (event_filter_parse ''pid:me'') = [number_warning ''pid'' ''me'']
   \<and> f_text (event_filter_parse ''uid:0'') = Some ''uid:0''"
proof -
  have token: "single_token ''!exit:-1''" "single_token ''pid:me''" "single_token ''uid:0''"
    by (intro ascii_single_token; simp add: u8_of_char_def is_white_def white_space_def)+
  note number = keyword_types takes_value_def parse_u32_def parse_i32_def parse_signed_def parse_unsigned_def
    parse_digits_def is_digit_def digit_val_def u8_of_char_def
  have takes: "takes_value ''exit'' ''-1''" "\<not> takes_value ''pid'' ''me''" by (simp_all add: number)
  have "fields_set (event_filter_parse ''!exit:-1'') = [(''exit'', True)]"
    using keyword_table_matches_parser [of True "''exit''" "''-1''", THEN conjunct1] token takes
    by (simp add: keyword_types Let_def)
  moreover have "f_warnings (event_filter_parse ''pid:me'') = [number_warning ''pid'' ''me'']"
    using keyword_table_matches_parser [of False "''pid''" "''me''", THEN conjunct1] token takes
    by (simp add: keyword_types Let_def)
  moreover have "f_text (event_filter_parse ''uid:0'') = Some ''uid:0''"
    using keyword_table_matches_parser [of False "''uid''" "''0''", THEN conjunct1] token
    by (simp add: keyword_types Let_def)
  ultimately show ?thesis by simp
qed

end
