(* ===== verification/Username.thy ===== *)
theory Username
  imports Text
begin

text \<open>
  User names, \<open>shspectr-web/src/presentation/web/username.rs\<close>. The cache is a hash map that is read
  from \<open>/etc/passwd\<close> once; \<open>load_passwd\<close> is its contents as a map. Iterating over it visits the
  entries in an order the library does not fix: the lookup by name takes the entries in that order,
  and \<open>iterates\<close> says that they are the map's.
\<close>

section \<open>The code\<close>

fun str_splitn :: "nat \<Rightarrow> char \<Rightarrow> string \<Rightarrow> string list" where
  "str_splitn 0 c s = []"
| "str_splitn (Suc 0) c s = [s]"
| "str_splitn (Suc (Suc n)) c s =
     (case split_once c s of None \<Rightarrow> [s] | Some (a, b) \<Rightarrow> a # str_splitn (Suc n) c b)"

definition passwd_entry :: "string \<Rightarrow> (u32 \<times> string) option" where
  "passwd_entry line =
     (let fields = str_splitn 4 (CHR '':'') line
      in if 3 \<le> length fields
         then map_option (\<lambda>uid. (uid, fields ! 0)) (parse_u32 (fields ! 2))
         else None)"

definition load_passwd :: "string option \<Rightarrow> (u32 \<rightharpoonup> string)" where
  "load_passwd file =
     (case file of
        None \<Rightarrow> Map.empty
      | Some contents \<Rightarrow>
          fold (\<lambda>line m. case passwd_entry line of None \<Rightarrow> m | Some (uid, name) \<Rightarrow> m(uid \<mapsto> name))
            (str_lines contents) Map.empty)"

type_synonym passwd_cache = "(u32 \<times> string) list"

definition iterates :: "passwd_cache \<Rightarrow> (u32 \<rightharpoonup> string) \<Rightarrow> bool" where
  "iterates cache m \<longleftrightarrow> distinct (map fst cache) \<and> map_of cache = m"

definition resolve_username :: "passwd_cache \<Rightarrow> string \<Rightarrow> u32 option" where
  "resolve_username cache name = map_option fst (find (\<lambda>(k, v). v = name) cache)"

definition resolve_uid :: "passwd_cache \<Rightarrow> u32 \<Rightarrow> string" where
  "resolve_uid cache uid = unwrap_or (dec (unat uid)) (map_of cache uid)"

section \<open>Facts\<close>

lemma load_passwd_fold:
  "fold (\<lambda>line m. case passwd_entry line of None \<Rightarrow> m | Some (uid, name) \<Rightarrow> m(uid \<mapsto> name)) ls m =
     m ++ map_of (rev (List.map_filter passwd_entry ls))"
  by (induction ls arbitrary: m)
    (auto simp: map_filter_def map_add_def fun_eq_iff split: option.splits)

lemma resolve_username_Some:
  assumes "iterates cache m" "resolve_username cache name = Some uid"
  shows "m uid = Some name"
proof -
  from assms(2) obtain v where "find (\<lambda>(k, v). v = name) cache = Some (uid, v)"
    by (auto simp: resolve_username_def)
  then have "(uid, name) \<in> set cache"
    unfolding find_Some_iff by (metis (mono_tags, lifting) case_prodD nth_mem)
  with assms(1) show ?thesis by (auto simp: iterates_def)
qed

lemma resolve_username_None:
  assumes "iterates cache m"
  shows "resolve_username cache name = None \<longleftrightarrow> name \<notin> ran m"
proof -
  have "ran m = snd ` set cache"
    using assms by (force simp: iterates_def ran_distinct)
  then show ?thesis by (force simp: resolve_username_def find_None_iff)
qed

section \<open>What a passwd file says\<close>

text \<open>
  The file by its format: lines of accounts, \<open>username:password:uid:rest\<close>, among lines with fewer than two
  colons. The last account of a user id is the one that counts.
\<close>

record passwd_account =
  pa_name :: string
  pa_password :: string
  pa_uid :: u32
  pa_rest :: string

definition account_line :: "passwd_account \<Rightarrow> string" where
  "account_line a = pa_name a @ '':'' @ pa_password a @ '':'' @ dec (unat (pa_uid a)) @ '':'' @ pa_rest a"

definition account_ok :: "passwd_account \<Rightarrow> bool" where
  "account_ok a \<longleftrightarrow> CHR '':'' \<notin> set (pa_name a) \<and> CHR '':'' \<notin> set (pa_password a)
     \<and> CHR 0x0A \<notin> set (pa_name a @ pa_password a @ pa_rest a)"

fun line_ok :: "passwd_account + string \<Rightarrow> bool" where
  "line_ok (Inl a) \<longleftrightarrow> account_ok a"
| "line_ok (Inr s) \<longleftrightarrow> count_list s (CHR '':'') < 2 \<and> CHR 0x0A \<notin> set s"

definition passwd_file :: "(passwd_account + string) list \<Rightarrow> string" where
  "passwd_file ls = concat (map (\<lambda>l. (case l of Inl a \<Rightarrow> account_line a | Inr s \<Rightarrow> s) @ [CHR 0x0A]) ls)"

fun name_in_file :: "(passwd_account + string) list \<Rightarrow> u32 \<Rightarrow> string option" where
  "name_in_file [] uid = None"
| "name_in_file (Inr _ # ls) uid = name_in_file ls uid"
| "name_in_file (Inl a # ls) uid =
     (case name_in_file ls uid of
        Some name \<Rightarrow> Some name | None \<Rightarrow> if pa_uid a = uid then Some (pa_name a) else None)"

lemma lines_of_rendered:
  assumes "\<forall>s \<in> set ss. CHR 0x0A \<notin> set s"
  shows "str_lines (concat (map (\<lambda>s. s @ [CHR 0x0A]) ss)) = map strip_cr ss"
proof -
  have step: "str_split c (s @ c # r) = s # str_split c r" if "c \<notin> set s" for s r and c :: char
    using that by (induction s) auto
  have "str_split (CHR 0x0A) (concat (map (\<lambda>s. s @ [CHR 0x0A]) ss)) = ss @ [[]]"
    using assms by (induction ss) (simp_all add: step)
  then show ?thesis by (simp add: str_lines_def)
qed

lemma str_splitn_step:
  "CHR '':'' \<notin> set s \<Longrightarrow> str_splitn (Suc (Suc n)) (CHR '':'') (s @ CHR '':'' # r) = s # str_splitn (Suc n) (CHR '':'') r"
  using split_once_Some [of "CHR '':''" "s @ CHR '':'' # r" s r] by simp

lemma str_splitn_count: "length (str_splitn n c s) \<le> Suc (count_list s c)"
proof (induction n c s rule: str_splitn.induct)
  case (3 n c s)
  show ?case
  proof (cases "split_once c s")
    case (Some ab)
    then obtain a b where ab: "ab = (a, b)" "s = a @ c # b" by (cases ab) (simp add: split_once_Some)
    have "length (str_splitn (Suc n) c b) \<le> Suc (count_list b c)" using 3 [OF Some ab(1) [symmetric]] by simp
    with Some ab show ?thesis by simp
  qed simp
qed simp_all

lemma strip_cr_account: "\<exists>r. strip_cr (account_line a) = account_line (a\<lparr>pa_rest := r\<rparr>)"
proof (cases "pa_rest a = []")
  case True
  then have "strip_cr (account_line a) = account_line a" by (simp add: strip_cr_def account_line_def)
  then show ?thesis using True by (intro exI [of _ "[]"]) (simp add: account_line_def)
next
  case False
  then have "strip_cr (account_line a) = account_line (a\<lparr>pa_rest := strip_cr (pa_rest a)\<rparr>)"
    by (simp add: strip_cr_def account_line_def butlast_append)
  then show ?thesis ..
qed

lemma account_entry:
  assumes "account_ok a"
  shows "passwd_entry (strip_cr (account_line a)) = Some (pa_uid a, pa_name a)"
proof -
  obtain r where r: "strip_cr (account_line a) = account_line (a\<lparr>pa_rest := r\<rparr>)" using strip_cr_account by blast
  have "CHR '':'' \<notin> set (dec (unat (pa_uid a)))" using dec_facts digit_not_sign by (force simp: list_all_iff)
  then have "str_splitn 4 (CHR '':'') (account_line (a\<lparr>pa_rest := r\<rparr>)) = [pa_name a, pa_password a, dec (unat (pa_uid a)), r]"
    using assms unfolding account_ok_def account_line_def numeral_eq_Suc
    by (simp add: str_splitn_step [where n = 0, simplified] str_splitn_step numeral_eq_Suc del: str_splitn.simps(3))
  then show ?thesis by (simp add: r passwd_entry_def Let_def parse_u32_dec)
qed

lemma no_entry:
  assumes "count_list s (CHR '':'') < 2"
  shows "passwd_entry (strip_cr s) = None"
proof -
  have "count_list (strip_cr s) (CHR '':'') \<le> count_list s (CHR '':'')"
    by (cases s rule: rev_cases) (simp_all add: strip_cr_def)
  then have "length (str_splitn 4 (CHR '':'') (strip_cr s)) < 3"
    using assms str_splitn_count [of 4 "CHR '':''" "strip_cr s"] by simp
  then show ?thesis by (simp add: passwd_entry_def)
qed

lemma load_rendered:
  assumes "\<forall>l \<in> set ls. line_ok l"
  shows "load_passwd (Some (passwd_file ls)) = name_in_file ls"
proof -
  let ?text = "\<lambda>l. case l of Inl a \<Rightarrow> account_line a | Inr s \<Rightarrow> s"
  have "CHR 0x0A \<notin> set (?text l)" if "line_ok l" for l
  proof (cases l)
    case (Inl a)
    have "CHR 0x0A \<notin> set (dec n)" for n using dec_facts [of n] by (auto simp: list_all_iff is_digit_def u8_of_char_def)
    with Inl that show ?thesis by (auto simp: account_ok_def account_line_def)
  qed (use that in auto)
  then have "str_lines (passwd_file ls) = map strip_cr (map ?text ls)"
    using assms lines_of_rendered [of "map ?text ls"] by (simp add: passwd_file_def comp_def)
  moreover have "map_of (rev (List.map_filter passwd_entry (map strip_cr (map ?text ls)))) uid = name_in_file ls uid" for uid
    using assms
  proof (induction ls)
    case (Cons l ls)
    then show ?case
      by (cases l) (auto simp: map_filter_simps account_entry no_entry map_add_def split: option.split)
  qed (simp add: map_filter_simps)
  ultimately show ?thesis by (simp add: load_passwd_def load_passwd_fold fun_eq_iff)
qed

text \<open>
  C39: For a passwd file of account lines, \<open>username:password:uid:rest\<close>, among lines with fewer than two
  colons, and whatever the order in which the hash map is iterated: a user id shows the username of the last
  account line with that id, and its number when it has no account; and a name resolves to a user id that
  shows exactly this name, and to nothing exactly when no user id shows it by its last account line.
\<close>

theorem passwd_resolution:
  assumes "\<forall>l \<in> set ls. line_ok l" "iterates cache (load_passwd (Some (passwd_file ls)))"
  shows "resolve_uid cache uid = (case name_in_file ls uid of None \<Rightarrow> dec (unat uid) | Some shown \<Rightarrow> shown)
    \<and> (case resolve_username cache name of
         None \<Rightarrow> \<forall>u. name_in_file ls u \<noteq> Some name
       | Some u \<Rightarrow> name_in_file ls u = Some name \<and> resolve_uid cache u = name)"
proof -
  have it: "iterates cache (name_in_file ls)" using assms(2) unfolding load_rendered [OF assms(1)] .
  then have uid: "resolve_uid cache u = (case name_in_file ls u of None \<Rightarrow> dec (unat u) | Some shown \<Rightarrow> shown)" for u
    by (simp add: iterates_def resolve_uid_def split: option.split)
  show ?thesis
    using uid resolve_username_Some [OF it, of name] resolve_username_None [OF it, of name]
    by (auto simp: ran_def split: option.split)
qed

definition sample_passwd :: "(passwd_account + string) list" where
  "sample_passwd =
     [Inl \<lparr>pa_name = ''root'', pa_password = ''x'', pa_uid = 0, pa_rest = ''0:root:/root:/bin/sh''\<rparr>, Inr ''bad line'',
      Inl \<lparr>pa_name = ''app'', pa_password = ''x'', pa_uid = 7, pa_rest = ''7''\<rparr>,
      Inl \<lparr>pa_name = ''web'', pa_password = ''x'', pa_uid = 7, pa_rest = ''7''\<rparr>]"

text \<open>Two accounts share a user id: the later one names it, and the earlier name does not resolve.\<close>

theorem passwd_resolution_witness:
  "load_passwd (Some (''root:x:0:0:root:/root:/bin/sh'' @ CHR 0x0A # ''bad line'' @ CHR 0x0A # ''app:x:7:7'' @ CHR 0x0A #
       ''web:x:7:7'' @ [CHR 0x0A])) = map_of [(0, ''root''), (7, ''web'')]
   \<and> resolve_uid [(0, ''root''), (7, ''web'')] 7 = ''web'' \<and> resolve_uid [(0, ''root''), (7, ''web'')] 9 = ''9''
   \<and> resolve_username [(0, ''root''), (7, ''web'')] ''app'' = None"
proof -
  let ?cache = "[(0, ''root''), (7, ''web'')]"
  have ok: "\<forall>l \<in> set sample_passwd. line_ok l" by (simp add: sample_passwd_def account_ok_def)
  have dec: "dec 0 = ''0''" "dec 7 = ''7''" "dec 9 = ''9''" by code_simp+
  have names: "name_in_file sample_passwd = map_of ?cache" by (rule ext) (simp add: sample_passwd_def)
  have written: "passwd_file sample_passwd = ''root:x:0:0:root:/root:/bin/sh'' @ CHR 0x0A # ''bad line'' @ CHR 0x0A #
      ''app:x:7:7'' @ CHR 0x0A # ''web:x:7:7'' @ [CHR 0x0A]"
    by (simp add: sample_passwd_def passwd_file_def account_line_def dec)
  have load: "load_passwd (Some (passwd_file sample_passwd)) = map_of ?cache" unfolding load_rendered [OF ok] names ..
  then have it: "iterates ?cache (load_passwd (Some (passwd_file sample_passwd)))" by (simp add: iterates_def)
  have "resolve_uid ?cache 7 = ''web''" "resolve_uid ?cache 9 = ''9''"
    using passwd_resolution [OF ok it, of 7 "''app''"] passwd_resolution [OF ok it, of 9 "''app''"]
    by (simp_all add: names dec)
  moreover have "resolve_username ?cache ''app'' = None"
    using passwd_resolution [OF ok it, of 0 "''app''"] by (auto simp: names split: option.splits if_splits)
  ultimately show ?thesis using load unfolding written by simp
qed

end
