(* ===== verification/Where.thy ===== *)
theory Where
  imports Sql Query Username Wire
begin

text \<open>
  The WHERE clause of the event repository, \<open>shspectr-web/src/infrastructure/repositories/event.rs\<close>:
  \<open>add_exact\<close>, \<open>add_like\<close> and \<open>build_where_clause\<close>, which collect conditions and positional
  parameters, and the meaning of a filter that the clause implements.
\<close>

section \<open>Conditions and parameters\<close>

type_synonym where_state = "sql_cond list \<times> sql_value list"

definition push :: "sql_cond \<Rightarrow> sql_value list \<Rightarrow> where_state \<Rightarrow> where_state" where
  "push c vs st = (fst st @ [c], snd st @ vs)"

definition sql_u32 :: "u32 \<Rightarrow> sql_value" where
  "sql_u32 w = VInt (uint w)"

definition sql_i32 :: "i32 \<Rightarrow> sql_value" where
  "sql_i32 w = VInt (sint w)"

definition add_exact :: "('a \<Rightarrow> sql_value) \<Rightarrow> string \<Rightarrow> 'a filter_value \<Rightarrow> bool \<Rightarrow> where_state \<Rightarrow> where_state" where
  "add_exact to_sql column fv nullable st =
     (let idx = length (snd st) + 1;
          cond = (if fv_negated fv
            then if nullable then Parens (AnyOf [ColNull column, ColNe column idx]) else ColNe column idx
            else ColEq column idx)
      in push cond [to_sql (fv_value fv)] st)"

text \<open>The loop over the alternatives: each adds a part and a parameter.\<close>

fun like_parts :: "string \<Rightarrow> bool \<Rightarrow> string list \<Rightarrow> nat \<Rightarrow> sql_cond list" where
  "like_parts column negated [] idx = []"
| "like_parts column negated (alt # alts) idx =
     (if negated then ColNotLike column idx else ColLike column idx)
       # like_parts column negated alts (idx + 1)"

definition add_like :: "string \<Rightarrow> string \<Rightarrow> bool \<Rightarrow> bool \<Rightarrow> where_state \<Rightarrow> where_state" where
  "add_like column pattern negated nullable st =
     (let alternatives = str_split (CHR ''|'') pattern in
      if length alternatives = 1
      then let idx = length (snd st) + 1;
               cond = (if negated
                 then if nullable then Parens (AnyOf [ColNull column, ColNotLike column idx])
                      else ColNotLike column idx
                 else ColLike column idx)
           in push cond [VText pattern] st
      else let parts = like_parts column negated alternatives (length (snd st) + 1);
               combined = (if negated then AllOf parts else AnyOf parts);
               cond = (if negated \<and> nullable then Parens (AnyOf [ColNull column, Parens combined])
                       else Parens combined)
           in push cond (map VText alternatives) st)"

text \<open>\<open>if let Some(ref fv) = field\<close>.\<close>

definition if_some :: "'a option \<Rightarrow> ('a \<Rightarrow> 's \<Rightarrow> 's) \<Rightarrow> 's \<Rightarrow> 's" where
  "if_some x f st = (case x of None \<Rightarrow> st | Some v \<Rightarrow> f v st)"

definition cmd_pattern :: "string \<Rightarrow> string" where
  "cmd_pattern v = str_join ''|'' (map (\<lambda>alt. ''%/'' @ glob_to_like_pattern alt) (str_split (CHR ''|'') v))"

definition user_uid :: "passwd_cache \<Rightarrow> string \<Rightarrow> u32 option" where
  "user_uid cache v = (case parse_u32 v of Some uid \<Rightarrow> Some uid | None \<Rightarrow> resolve_username cache v)"

definition add_user :: "passwd_cache \<Rightarrow> string filter_value \<Rightarrow> where_state \<Rightarrow> where_state" where
  "add_user cache fv st =
     (case user_uid cache (fv_value fv) of
        None \<Rightarrow> st
      | Some uid \<Rightarrow> add_exact sql_u32 ''uid'' \<lparr>fv_value = uid, fv_negated = fv_negated fv\<rparr> False st)"

definition add_text :: "string \<Rightarrow> where_state \<Rightarrow> where_state" where
  "add_text text st =
     (let idx = length (snd st) + 1
      in push (Parens (AnyOf [ColLike ''comm'' idx, ColLike ''filename'' idx, ColLike ''argv'' idx]))
           [VText (''%'' @ escape_like_pattern text @ ''%'')] st)"

definition where_conditions :: "passwd_cache \<Rightarrow> event_filter \<Rightarrow> where_state" where
  "where_conditions cache f =
     (let st = push (ColIs ''event_type'' (uint (event_type_as_wire Exec))) [] ([], []);
          st = if_some (f_comm f) (\<lambda>fv. add_like ''comm'' (glob_to_like_pattern (fv_value fv)) (fv_negated fv) True) st;
          st = if_some (f_exit_code f) (\<lambda>fv. add_exact sql_i32 ''exit_code'' fv True) st;
          st = if_some (f_session_id f) (\<lambda>fv. add_like ''session_id'' (escape_like_pattern (fv_value fv) @ ''%'')
                 (fv_negated fv) False) st;
          st = if_some (f_pid f) (\<lambda>fv. add_exact sql_u32 ''pid'' fv False) st;
          st = if_some (f_ppid f) (\<lambda>fv. add_exact sql_u32 ''ppid'' fv False) st;
          st = if_some (f_gid f) (\<lambda>fv. add_exact sql_u32 ''gid'' fv False) st;
          st = if_some (f_euid f) (\<lambda>fv. add_exact sql_u32 ''euid'' fv False) st;
          st = if_some (f_tty f) (\<lambda>fv. add_exact sql_u32 ''tty_nr'' fv True) st;
          st = if_some (f_file f) (\<lambda>fv. add_like ''filename'' (glob_to_like_pattern (fv_value fv)) (fv_negated fv) True) st;
          st = if_some (f_cmd f) (\<lambda>fv. add_like ''filename'' (cmd_pattern (fv_value fv)) (fv_negated fv) True) st;
          st = if_some (f_user f) (add_user cache) st
      in if_some (f_text f) add_text st)"

text \<open>The text of the clause, and the parameters bound to it.\<close>

definition build_where_clause :: "passwd_cache \<Rightarrow> event_filter \<Rightarrow> string \<times> sql_value list" where
  "build_where_clause cache f =
     (let (conditions, params) = where_conditions cache f
      in (if conditions = [] then [] else ''WHERE '' @ render (AllOf conditions), params))"

definition selects :: "where_state \<Rightarrow> event_row \<Rightarrow> bool" where
  "selects st r \<longleftrightarrow> eval_cond (col_value r) (snd st) (AllOf (fst st)) = Some True"

section \<open>What the clause selects\<close>

definition negatable :: "'a filter_value option \<Rightarrow> ('a \<Rightarrow> bool) \<Rightarrow> bool" where
  "negatable m matches =
     (case m of None \<Rightarrow> True | Some fv \<Rightarrow> fv_negated fv \<noteq> matches (fv_value fv))"

definition has_text :: "(string \<Rightarrow> bool) \<Rightarrow> string option \<Rightarrow> bool" where
  "has_text p x = (case x of None \<Rightarrow> False | Some s \<Rightarrow> p s)"

definition any_alternative :: "(string \<Rightarrow> string \<Rightarrow> bool) \<Rightarrow> string \<Rightarrow> string \<Rightarrow> bool" where
  "any_alternative m v s \<longleftrightarrow> list_ex (\<lambda>alt. m alt s) (str_split (CHR ''|'') v)"

text \<open>A component of a path that follows a slash matches to the end.\<close>

definition tails :: "'a list \<Rightarrow> 'a list list" where
  "tails xs = map (\<lambda>n. drop n xs) [0..<Suc (length xs)]"

definition after_slash :: "string \<Rightarrow> string \<Rightarrow> bool" where
  "after_slash alt s \<longleftrightarrow>
     list_ex (\<lambda>t. case t of [] \<Rightarrow> False | x # rest \<Rightarrow> x = ''/'' \<and> glob (str_chars alt) rest) (tails (str_chars s))"

text \<open>All but the last alternative of a session match whole ids, the last one a prefix.\<close>

definition starts_folded :: "string \<Rightarrow> string \<Rightarrow> bool" where
  "starts_folded p s \<longleftrightarrow> take (length (folded p)) (folded s) = folded p"

definition session_matches :: "string \<Rightarrow> string \<Rightarrow> bool" where
  "session_matches v s \<longleftrightarrow>
     (let alts = str_split (CHR ''|'') v
      in list_ex (\<lambda>a. folded a = folded s) (butlast alts) \<or> starts_folded (last alts) s)"

definition contains_folded :: "string \<Rightarrow> string \<Rightarrow> bool" where
  "contains_folded text s \<longleftrightarrow>
     list_ex (\<lambda>t. take (length (folded text)) t = folded text) (tails (folded s))"

definition filter_accepts :: "passwd_cache \<Rightarrow> event_filter \<Rightarrow> event_row \<Rightarrow> bool" where
  "filter_accepts cache f r \<longleftrightarrow>
     er_event_type r = int_u32 (event_type_as_wire Exec)
     \<and> negatable (f_comm f) (\<lambda>v. has_text (any_alternative glob_match v) (er_comm r))
     \<and> negatable (f_exit_code f) (\<lambda>v. er_exit_code r = Some (sint v))
     \<and> negatable (f_session_id f) (\<lambda>v. session_matches v (er_session_id r))
     \<and> negatable (f_pid f) (\<lambda>v. er_pid r = int_u32 v)
     \<and> negatable (f_ppid f) (\<lambda>v. er_ppid r = int_u32 v)
     \<and> negatable (f_gid f) (\<lambda>v. er_gid r = int_u32 v)
     \<and> negatable (f_euid f) (\<lambda>v. er_euid r = int_u32 v)
     \<and> negatable (f_tty f) (\<lambda>v. er_tty_nr r = Some (int_u32 v))
     \<and> negatable (f_file f) (\<lambda>v. has_text (any_alternative glob_match v) (er_filename r))
     \<and> negatable (f_cmd f) (\<lambda>v. has_text (any_alternative after_slash v) (er_filename r))
     \<and> (case f_user f of None \<Rightarrow> True | Some fv \<Rightarrow>
          (case user_uid cache (fv_value fv) of None \<Rightarrow> True
           | Some uid \<Rightarrow> fv_negated fv \<noteq> (er_uid r = int_u32 uid)))
     \<and> (case f_text f of None \<Rightarrow> True | Some t \<Rightarrow>
          has_text (contains_folded t) (er_comm r) \<or> has_text (contains_folded t) (er_filename r)
          \<or> has_text (contains_folded t) (er_argv r))"

section \<open>Building keeps what is there\<close>

text \<open>
  \<open>adds st st' p\<close>: the step keeps the clause well-formed (every placeholder bound, every condition
  closed) and narrows the selection by \<open>p\<close>.
\<close>

definition good_where :: "where_state \<Rightarrow> bool" where
  "good_where st \<longleftrightarrow> list_all (\<lambda>c. params_upto (length (snd st)) c \<and> closed_cond c) (fst st)"

definition adds :: "where_state \<Rightarrow> where_state \<Rightarrow> (event_row \<Rightarrow> bool) \<Rightarrow> bool" where
  "adds st st' p \<longleftrightarrow> (good_where st \<longrightarrow> good_where st' \<and> (\<forall>r. selects st' r \<longleftrightarrow> selects st r \<and> p r))"

lemma adds_trans: "adds a b p \<Longrightarrow> adds b c q \<Longrightarrow> adds a c (\<lambda>r. p r \<and> q r)"
  by (auto simp: adds_def)

lemma adds_push:
  assumes "\<And>m. m = length (snd st) \<Longrightarrow> params_upto (m + length vs) c \<and> closed_cond c"
    "\<And>r. eval_cond (col_value r) (snd st @ vs) c = Some True \<longleftrightarrow> p r"
  shows "adds st (push c vs st) p"
  unfolding adds_def
proof (intro impI conjI allI)
  assume good: "good_where st"
  then show "good_where (push c vs st)"
    using assms(1) by (auto simp: good_where_def push_def list_all_iff intro: params_upto_mono)
  fix r
  have "eval_cond (col_value r) (snd st @ vs) x = eval_cond (col_value r) (snd st) x" if "x \<in> set (fst st)" for x
    using good that by (intro eval_cond_more_params) (simp add: good_where_def list_all_iff)
  then show "selects (push c vs st) r \<longleftrightarrow> selects st r \<and> p r"
    using assms(2) by (auto simp: selects_def push_def)
qed

lemma adds_if_some:
  assumes "\<And>v. x = Some v \<Longrightarrow> adds st (f v st) (p v)"
  shows "adds st (if_some x f st) (\<lambda>r. case x of None \<Rightarrow> True | Some v \<Rightarrow> p v r)"
  using assms by (cases x) (auto simp: if_some_def adds_def)

lemma adds_exact:
  assumes "\<And>r. col_value r column = VNull \<Longrightarrow> nullable" "\<And>v. to_sql v \<noteq> VNull"
  shows "adds st (add_exact to_sql column fv nullable st)
     (\<lambda>r. fv_negated fv \<noteq> (col_value r column = to_sql (fv_value fv)))"
  unfolding add_exact_def Let_def
  by (rule adds_push) (use assms assms(2) [symmetric] in \<open>auto simp: compare3_def\<close>)


lemma like_parts_ok:
  "list_all (\<lambda>c. params_upto (idx - 1 + length alts) c \<and> closed_cond c) (like_parts column neg alts idx)"
  if "1 \<le> idx"
  using that
proof (induction alts arbitrary: idx)
  case Nil
  then show ?case by simp
next
  case (Cons a alts)
  from Cons.IH [of "idx + 1"] Cons.prems show ?case by (simp add: algebra_simps)
qed

lemma eval_like_parts:
  "map (eval_cond row (ps @ map VText alts)) (like_parts column neg alts (Suc (length ps))) =
     map (\<lambda>a. if neg then map_option Not (like3 (row column) (VText a)) else like3 (row column) (VText a)) alts"
proof (induction alts arbitrary: ps)
  case Nil
  show ?case by simp
next
  case (Cons a alts)
  from Cons.IH [of "ps @ [VText a]"] show ?case by simp
qed

lemma eval_AnyOf_pair:
  "eval_cond row ps (AnyOf [a, b]) = Some True \<longleftrightarrow> eval_cond row ps a = Some True \<or> eval_cond row ps b = Some True"
  by auto

lemma eval_AnyOf_triple:
  "eval_cond row ps (AnyOf [a, b, c]) = Some True \<longleftrightarrow>
     eval_cond row ps a = Some True \<or> eval_cond row ps b = Some True \<or> eval_cond row ps c = Some True"
  by auto

definition like_value :: "string \<Rightarrow> sql_value \<Rightarrow> bool" where
  "like_value pattern v =
     (case v of VText s \<Rightarrow> list_ex (\<lambda>a. sql_like a s) (str_split (CHR ''|'') pattern) | _ \<Rightarrow> False)"

lemma like_value_single:
  "length (str_split (CHR ''|'') pattern) = 1 \<Longrightarrow> str_split (CHR ''|'') pattern = [pattern]"
  using str_join_split [of "CHR ''|''" pattern]
  by (cases "str_split (CHR ''|'') pattern" rule: list.exhaust) (auto simp: length_Suc_conv)

lemma like_alternatives:
  fixes ps :: "sql_value list" and pattern :: string
  assumes "col_value r column = VNull \<or> (\<exists>s. col_value r column = VText s)"
  defines "alts \<equiv> str_split (CHR ''|'') pattern"
  shows "eval_cond (col_value r) (ps @ map VText alts) (AllOf (like_parts column True alts (Suc (length ps)))) = Some True \<longleftrightarrow>
      (\<exists>s. col_value r column = VText s) \<and> \<not> like_value pattern (col_value r column)"
    and "eval_cond (col_value r) (ps @ map VText alts) (AnyOf (like_parts column False alts (Suc (length ps)))) = Some True \<longleftrightarrow>
      like_value pattern (col_value r column)"
proof -
  let ?eval = "eval_cond (col_value r) (ps @ map VText alts)"
  let ?parts = "\<lambda>negated. like_parts column negated alts (Suc (length ps))"
  have ev: "?eval ` set (?parts negated) =
     (\<lambda>a. if negated then map_option Not (like3 (col_value r column) (VText a))
          else like3 (col_value r column) (VText a)) ` set alts" for negated
    using arg_cong [OF eval_like_parts [of "col_value r" ps alts column negated], of set] by simp
  have "(\<forall>x \<in> set (?parts True). ?eval x = Some True) \<longleftrightarrow> (\<forall>y \<in> ?eval ` set (?parts True). y = Some True)" by simp
  also have "\<dots> \<longleftrightarrow> (\<forall>a \<in> set alts. map_option Not (like3 (col_value r column) (VText a)) = Some True)"
    unfolding ev by simp
  also have "\<dots> \<longleftrightarrow> (\<exists>s. col_value r column = VText s) \<and> \<not> like_value pattern (col_value r column)"
    using assms(1) str_split_ne [of "CHR ''|''" pattern]
    by (auto simp: alts_def like_value_def list_ex_iff split: sql_value.splits)
  finally show "?eval (AllOf (?parts True)) = Some True \<longleftrightarrow>
      (\<exists>s. col_value r column = VText s) \<and> \<not> like_value pattern (col_value r column)" by simp
  have "(\<exists>x \<in> set (?parts False). ?eval x = Some True) \<longleftrightarrow> (\<exists>y \<in> ?eval ` set (?parts False). y = Some True)" by blast
  also have "\<dots> \<longleftrightarrow> (\<exists>a \<in> set alts. like3 (col_value r column) (VText a) = Some True)"
    unfolding ev by force
  also have "\<dots> \<longleftrightarrow> like_value pattern (col_value r column)"
    using assms(1) by (auto simp: alts_def like_value_def list_ex_iff split: sql_value.splits)
  finally show "?eval (AnyOf (?parts False)) = Some True \<longleftrightarrow> like_value pattern (col_value r column)"
    unfolding eval_cond.simps three_valued_True set_map by blast
qed

lemma adds_like_single:
  assumes "\<And>r. col_value r column = VNull \<and> nullable \<or> (\<exists>s. col_value r column = VText s)"
    and single: "length (str_split (CHR ''|'') pattern) = 1"
  shows "adds st (add_like column pattern negated nullable st)
     (\<lambda>r. negated \<noteq> like_value pattern (col_value r column))"
proof -
  note alts = like_value_single [OF single]
  let ?idx = "Suc (length (snd st))"
  let ?cond = "if negated then if nullable then Parens (AnyOf [ColNull column, ColNotLike column ?idx])
      else ColNotLike column ?idx else ColLike column ?idx"
  have "add_like column pattern negated nullable st = push ?cond [VText pattern] st"
    by (simp add: add_like_def Let_def alts)
  also have "adds st \<dots> (\<lambda>r. negated \<noteq> like_value pattern (col_value r column))"
  proof (rule adds_push)
    fix r
    show "eval_cond (col_value r) (snd st @ [VText pattern]) ?cond = Some True \<longleftrightarrow>
        negated \<noteq> like_value pattern (col_value r column)"
      using assms(1) [of r] by (auto simp: like_value_def alts)
  qed simp
  finally show ?thesis .
qed

lemma adds_like_alternatives:
  assumes "\<And>r. col_value r column = VNull \<and> nullable \<or> (\<exists>s. col_value r column = VText s)"
    and several: "length (str_split (CHR ''|'') pattern) \<noteq> 1"
  shows "adds st (add_like column pattern negated nullable st)
     (\<lambda>r. negated \<noteq> like_value pattern (col_value r column))"
proof -
  let ?alts = "str_split (CHR ''|'') pattern"
  let ?parts = "like_parts column negated ?alts (Suc (length (snd st)))"
  have ok: "list_all (\<lambda>c. params_upto (length (snd st) + length ?alts) c \<and> closed_cond c) ?parts"
    using like_parts_ok [of "Suc (length (snd st))" ?alts] by simp
  let ?cond = "if negated \<and> nullable
      then Parens (AnyOf [ColNull column, Parens (if negated then AllOf ?parts else AnyOf ?parts)])
      else Parens (if negated then AllOf ?parts else AnyOf ?parts)"
  have "add_like column pattern negated nullable st = push ?cond (map VText ?alts) st"
    using several by (simp add: add_like_def Let_def)
  also have "adds st \<dots> (\<lambda>r. negated \<noteq> like_value pattern (col_value r column))"
  proof (rule adds_push)
    fix m assume "m = length (snd st)"
    with ok show "params_upto (m + length (map VText ?alts)) ?cond \<and> closed_cond ?cond"
      by (simp add: list_all_iff)
  next
    fix r
    have null: "\<not> like_value pattern VNull" by (simp add: like_value_def)
    have "col_value r column = VNull \<or> (\<exists>s. col_value r column = VText s)" using assms(1) [of r] by blast
    note true = like_alternatives [OF this, where ps = "snd st" and pattern = pattern]
    show "eval_cond (col_value r) (snd st @ map VText ?alts) ?cond = Some True \<longleftrightarrow>
        negated \<noteq> like_value pattern (col_value r column)"
      using true assms(1) [of r] null
      by (cases negated; cases nullable) (auto simp: eval_AnyOf_pair simp del: eval_cond.simps(9,10))
  qed
  finally show ?thesis .
qed

lemma adds_like:
  assumes "\<And>r. col_value r column = VNull \<and> nullable \<or> (\<exists>s. col_value r column = VText s)"
  shows "adds st (add_like column pattern negated nullable st)
     (\<lambda>r. negated \<noteq> like_value pattern (col_value r column))"
  using adds_like_single [OF assms] adds_like_alternatives [OF assms] by blast


section \<open>The patterns\<close>

lemma valid_alternatives:
  "valid_string v \<Longrightarrow> a \<in> set (str_split (CHR ''|'') v) \<Longrightarrow> valid_string a"
  using valid_str_split [of v "CHR ''|''"] by (simp add: u8_of_char_def)

lemma like_value_glob:
  "valid_string v \<Longrightarrow> like_value (glob_to_like_pattern v) (opt_text x) = has_text (any_alternative glob_match v) x"
proof (cases x)
  case (Some s)
  assume v: "valid_string v"
  have "sql_like (glob_to_like_pattern a) s = glob_match a s" if "a \<in> set (str_split (CHR ''|'') v)" for a
    using valid_alternatives [OF v that] by (rule glob_pattern_meaning)
  then show ?thesis
    by (simp add: Some like_value_def has_text_def any_alternative_def str_split_glob list_ex_iff)
qed (simp add: like_value_def has_text_def)

text \<open>A slash is only equal to itself.\<close>

lemma fold_slash: "c \<noteq> [] \<Longrightarrow> fold_char c = ''/'' \<longleftrightarrow> c = ''/''"
proof -
  have upper: "char_of_u8 (b + 32) \<noteq> CHR ''/''" if "0x41 \<le> b" "b \<le> 0x5A" for b :: u8
  proof
    assume "char_of_u8 (b + 32) = CHR ''/''"
    then have "b + 32 = u8_of_char (CHR ''/'')" by (metis u8_of_char_of_u8)
    then have "b = 15" by (simp add: u8_of_char_def algebra_simps)
    with that show False by simp
  qed
  show "fold_char c = ''/'' \<longleftrightarrow> c = ''/''"
  proof
    assume "fold_char c = ''/''"
    then obtain d where "c = [d]"
      "(if 0x41 \<le> u8_of_char d \<and> u8_of_char d \<le> 0x5A then char_of_u8 (u8_of_char d + 32) else d) = CHR ''/''"
      by (auto simp: fold_char_def Let_def map_eq_Cons_conv)
    with upper show "c = ''/''" by (auto split: if_splits)
  qed (simp add: fold_char_def Let_def u8_of_char_def)
qed

lemma tails_iff: "t \<in> set (tails xs) \<longleftrightarrow> (\<exists>a. xs = a @ t)"
proof
  assume "t \<in> set (tails xs)"
  then obtain n where "t = drop n xs" unfolding tails_def set_map by blast
  then have "xs = take n xs @ t" by simp
  then show "\<exists>a. xs = a @ t" by blast
next
  assume "\<exists>a. xs = a @ t"
  then obtain a where "xs = a @ t" by blast
  then have "t = drop (length a) xs" "length a \<in> set [0..<Suc (length xs)]" by auto
  then show "t \<in> set (tails xs)" unfolding tails_def set_map by blast
qed

lemma sql_like_cmd:
  assumes "valid_string a"
  shows "sql_like (''%/'' @ glob_to_like_pattern a) s \<longleftrightarrow> after_slash a s"
proof -
  have "str_chars (''%/'' @ glob_to_like_pattern a) = ''%'' # ''/'' # concat (map (on_char glob_byte) (str_chars a))"
    using str_chars_ascii_append [of "''%/''" "glob_to_like_pattern a"] str_chars_glob [OF assms]
    by (simp add: u8_of_char_def)
  then have "sql_like (''%/'' @ glob_to_like_pattern a) s \<longleftrightarrow>
      (\<exists>s1 s2. str_chars s = s1 @ s2 \<and> like (''/'' # concat (map (on_char glob_byte) (str_chars a))) s2)"
    by (simp add: sql_like_def like_percent)
  also have "\<dots> \<longleftrightarrow> (\<exists>s1 s2. str_chars s = s1 @ s2 \<and>
      (case s2 of [] \<Rightarrow> False | x # rest \<Rightarrow> x = ''/'' \<and> glob (str_chars a) rest))"
  proof -
    have "like (''/'' # concat (map (on_char glob_byte) (str_chars a))) s2 =
        (case s2 of [] \<Rightarrow> False | x # rest \<Rightarrow> x = ''/'' \<and> glob (str_chars a) rest)"
      if "str_chars s = s1 @ s2" for s1 s2
    proof (cases s2)
      case Nil
      then show ?thesis by (simp add: like_simps(4) BACKSLASH_def)
    next
      case (Cons x rest)
      have x: "x \<noteq> []" using str_chars_nonempty [of x s] that Cons by simp
      have slash: "fold_char ''/'' = ''/''" by (simp add: fold_slash)
      have "fold_char x = fold_char ''/'' \<longleftrightarrow> x = ''/''" unfolding slash using x by (rule fold_slash)
      then show ?thesis using Cons by (simp add: like_simps(4) BACKSLASH_def like_glob)
    qed
    then show ?thesis by metis
  qed
  also have "\<dots> \<longleftrightarrow> after_slash a s"
    unfolding after_slash_def list_ex_iff Bex_def tails_iff by blast
  finally show ?thesis .
qed

lemma alternatives_cmd:
  "str_split (CHR ''|'') (cmd_pattern v) = map (\<lambda>alt. ''%/'' @ glob_to_like_pattern alt) (str_split (CHR ''|'') v)"
proof -
  have "CHR ''|'' \<notin> set (glob_to_like_pattern a)" if "a \<in> set (str_split (CHR ''|'') v)" for a
  proof -
    have "CHR ''|'' \<notin> set a" using that str_split_no_sep by fast
    then have "str_split (CHR ''|'') (glob_to_like_pattern a) = [glob_to_like_pattern a]"
      by (simp add: str_split_glob str_split_none)
    then show ?thesis using str_split_no_sep [of "CHR ''|''" "glob_to_like_pattern a"] by simp
  qed
  then show ?thesis
    unfolding cmd_pattern_def using str_split_ne by (intro str_split_join) auto
qed

lemma like_value_cmd:
  "valid_string v \<Longrightarrow> like_value (cmd_pattern v) (opt_text x) = has_text (any_alternative after_slash v) x"
proof (cases x)
  case (Some s)
  assume v: "valid_string v"
  have "sql_like (''%/'' @ glob_to_like_pattern a) s = after_slash a s"
    if "a \<in> set (str_split (CHR ''|'') v)" for a
    using valid_alternatives [OF v that] by (rule sql_like_cmd)
  then show ?thesis
    by (simp add: Some like_value_def has_text_def any_alternative_def list_ex_iff alternatives_cmd)
qed (simp add: like_value_def has_text_def)

lemma sql_like_literal: "valid_string a \<Longrightarrow> sql_like (escape_like_pattern a) s \<longleftrightarrow> folded a = folded s"
  using like_escaped_append [of "str_chars a" "[]" "str_chars s"]
  by (auto simp: sql_like_def str_chars_escape folded_def)

lemma like_prefix_iff:
  "(\<exists>s1 s2. xs = s1 @ s2 \<and> map f s1 = ys) \<longleftrightarrow> take (length ys) (map f xs) = ys"
proof
  assume "take (length ys) (map f xs) = ys"
  then have "xs = take (length ys) xs @ drop (length ys) xs \<and> map f (take (length ys) xs) = ys"
    by (simp add: take_map)
  then show "\<exists>s1 s2. xs = s1 @ s2 \<and> map f s1 = ys" by blast
qed auto

lemma percent_char: "str_chars ''%'' = [''%'']"
  by (simp add: str_chars_ascii u8_of_char_def)

lemma sql_like_starts:
  assumes "valid_string a"
  shows "sql_like (escape_like_pattern a @ ''%'') s \<longleftrightarrow> starts_folded a s"
proof -
  have "str_chars (escape_like_pattern a @ ''%'') = concat (map (on_char escape_byte) (str_chars a)) @ [''%'']"
    using assms by (simp add: str_chars_append valid_escape str_chars_escape percent_char)
  then show ?thesis
    using like_prefix_iff [of "str_chars s" fold_char "folded a"]
    by (simp add: sql_like_def like_escaped_append like_percent_end starts_folded_def folded_def)
qed

lemma like_value_session:
  assumes "valid_string v"
  shows "like_value (escape_like_pattern v @ ''%'') (VText s) = session_matches v s"
proof -
  let ?alts = "str_split (CHR ''|'') v"
  have ne: "?alts \<noteq> []" by (rule str_split_ne)
  have parts: "str_split (CHR ''|'') (escape_like_pattern v @ ''%'') =
      map escape_like_pattern (butlast ?alts) @ [escape_like_pattern (last ?alts) @ ''%'']"
    using ne by (subst str_split_append) (simp_all add: str_split_escape map_butlast last_map)
  have "valid_string a" if "a \<in> set (butlast ?alts) \<or> a = last ?alts" for a
    using that ne by (intro valid_alternatives [OF assms]) (auto dest: in_set_butlastD)
  then have "sql_like (escape_like_pattern (last ?alts) @ ''%'') s = starts_folded (last ?alts) s"
    "a \<in> set (butlast ?alts) \<Longrightarrow> sql_like (escape_like_pattern a) s \<longleftrightarrow> folded a = folded s" for a
    by (simp_all add: sql_like_starts sql_like_literal)
  then show ?thesis
    by (auto simp: like_value_def parts session_matches_def Let_def list_ex_iff)
qed

lemma sql_like_contains:
  assumes "valid_string t"
  shows "sql_like (''%'' @ escape_like_pattern t @ ''%'') s \<longleftrightarrow> contains_folded t s"
proof -
  have "str_chars (''%'' @ escape_like_pattern t @ ''%'') =
      ''%'' # concat (map (on_char escape_byte) (str_chars t)) @ [''%'']"
    using str_chars_ascii_append [of "''%''" "escape_like_pattern t @ ''%''"] assms
    by (simp add: str_chars_append valid_escape str_chars_escape percent_char u8_of_char_def)
  then have "sql_like (''%'' @ escape_like_pattern t @ ''%'') s \<longleftrightarrow>
      (\<exists>s0 s1. str_chars s = s0 @ s1 \<and> take (length (folded t)) (map fold_char s1) = folded t)"
    using like_prefix_iff [of _ fold_char "folded t"]
    by (simp add: sql_like_def like_percent like_escaped_append like_percent_end folded_def)
  also have "\<dots> \<longleftrightarrow> contains_folded t s"
  proof -
    have "contains_folded t s \<longleftrightarrow> (\<exists>a u. map fold_char (str_chars s) = a @ u \<and> take (length (folded t)) u = folded t)"
      unfolding contains_folded_def list_ex_iff Bex_def tails_iff folded_def by blast
    also have "\<dots> \<longleftrightarrow> (\<exists>s0 s1. str_chars s = s0 @ s1 \<and> take (length (folded t)) (map fold_char s1) = folded t)"
      by (fastforce simp: map_eq_append_conv)
    finally show ?thesis by simp
  qed
  finally show ?thesis .
qed


section \<open>The clause selects what the filter means\<close>

text \<open>The strings of a filter are Rust strings.\<close>

definition valid_filter :: "event_filter \<Rightarrow> bool" where
  "valid_filter f \<longleftrightarrow>
     list_all (\<lambda>m. case m of None \<Rightarrow> True | Some fv \<Rightarrow> valid_string (fv_value fv))
       [f_comm f, f_session_id f, f_file f, f_cmd f]
     \<and> (case f_text f of None \<Rightarrow> True | Some t \<Rightarrow> valid_string t)"

lemma col_value_columns [simp]:
  "col_value r ''event_type'' = VInt (er_event_type r)" "col_value r ''id'' = VInt (er_id r)"
  "col_value r ''comm'' = opt_text (er_comm r)" "col_value r ''filename'' = opt_text (er_filename r)"
  "col_value r ''argv'' = opt_text (er_argv r)" "col_value r ''session_id'' = VText (er_session_id r)"
  "col_value r ''exit_code'' = opt_int (er_exit_code r)" "col_value r ''tty_nr'' = opt_int (er_tty_nr r)"
  "col_value r ''pid'' = VInt (er_pid r)" "col_value r ''ppid'' = VInt (er_ppid r)"
  "col_value r ''uid'' = VInt (er_uid r)" "col_value r ''gid'' = VInt (er_gid r)"
  "col_value r ''euid'' = VInt (er_euid r)" "col_value r ''timestamp'' = VText (er_timestamp r)"
  by (simp_all add: col_value_def)

lemma opt_text_cases: "opt_text x = VNull \<or> (\<exists>s. opt_text x = VText s)"
  by (cases x) simp_all

lemma opt_eq_simps [simp]: "opt_int x = VInt i \<longleftrightarrow> x = Some i" "VNull \<noteq> VInt i"
  by (cases x) simp_all

lemma adds_u32: "column \<in> {''pid'', ''ppid'', ''gid'', ''euid'', ''uid''} \<Longrightarrow>
  adds st (add_exact sql_u32 column fv False st)
     (\<lambda>r. fv_negated fv \<noteq> (col_value r column = VInt (uint (fv_value fv))))"
  using adds_exact [of column False sql_u32 st fv] by (auto simp: sql_u32_def)

lemma adds_nullable:
  "adds st (add_exact sql_i32 ''exit_code'' fv True st) (\<lambda>r. fv_negated fv \<noteq> (er_exit_code r = Some (sint (fv_value fv))))"
  "adds st (add_exact sql_u32 ''tty_nr'' gv True st) (\<lambda>r. fv_negated gv \<noteq> (er_tty_nr r = Some (uint (fv_value gv))))"
  using adds_exact [of "''exit_code''" True sql_i32 st fv] adds_exact [of "''tty_nr''" True sql_u32 st gv]
  by (simp_all add: sql_u32_def sql_i32_def)

lemma adds_text_column:
  "column \<in> {''comm'', ''filename''} \<Longrightarrow>
   adds st (add_like column pattern neg True st) (\<lambda>r. neg \<noteq> like_value pattern (col_value r column))"
  by (intro adds_like) (use opt_text_cases in \<open>metis col_value_columns(3,4) insert_iff singletonD\<close>)

lemma adds_user:
  "adds st (add_user cache fv st) (\<lambda>r. case user_uid cache (fv_value fv) of None \<Rightarrow> True
     | Some uid \<Rightarrow> fv_negated fv \<noteq> (er_uid r = int_u32 uid))"
proof (cases "user_uid cache (fv_value fv)")
  case None
  then show ?thesis by (simp add: add_user_def adds_def)
next
  case (Some uid)
  then show ?thesis
    using adds_u32 [of "''uid''" st "\<lparr>fv_value = uid, fv_negated = fv_negated fv\<rparr>"]
    by (simp add: add_user_def int_u32_def)
qed

lemma adds_text:
  assumes "valid_string t"
  shows "adds st (add_text t st) (\<lambda>r. has_text (contains_folded t) (er_comm r)
     \<or> has_text (contains_folded t) (er_filename r) \<or> has_text (contains_folded t) (er_argv r))"
proof -
  have like: "like3 (opt_text x) (VText (''%'' @ escape_like_pattern t @ ''%'')) = Some True \<longleftrightarrow>
      has_text (contains_folded t) x" for x
    using sql_like_contains [OF assms] by (cases x) (simp_all add: has_text_def)
  show ?thesis
    unfolding add_text_def Let_def
    by (rule adds_push) (use like in \<open>simp_all add: eval_AnyOf_triple del: eval_cond.simps(9,10)\<close>)
qed


lemma adds_field:
  "(\<And>fv. m = Some fv \<Longrightarrow> adds st (g fv st) (\<lambda>r. fv_negated fv \<noteq> q (fv_value fv) r)) \<Longrightarrow>
   adds st (if_some m g st) (\<lambda>r. negatable m (\<lambda>v. q v r))"
  by (cases m) (simp_all add: if_some_def negatable_def adds_def)

lemma adds_comm:
  assumes "valid_filter f"
  shows "adds st (if_some (f_comm f) (\<lambda>fv. add_like ''comm'' (glob_to_like_pattern (fv_value fv)) (fv_negated fv) True) st)
     (\<lambda>r. negatable (f_comm f) (\<lambda>v. has_text (any_alternative glob_match v) (er_comm r)))"
proof (rule adds_field)
  fix fv assume "f_comm f = Some fv"
  with assms have "valid_string (fv_value fv)" by (simp add: valid_filter_def)
  then show "adds st (add_like ''comm'' (glob_to_like_pattern (fv_value fv)) (fv_negated fv) True st)
      (\<lambda>r. fv_negated fv \<noteq> has_text (any_alternative glob_match (fv_value fv)) (er_comm r))"
    using adds_text_column [of "''comm''" st "glob_to_like_pattern (fv_value fv)" "fv_negated fv"]
    by (simp add: like_value_glob)
qed

lemma adds_file:
  assumes "valid_filter f"
  shows "adds st (if_some (f_file f) (\<lambda>fv. add_like ''filename'' (glob_to_like_pattern (fv_value fv)) (fv_negated fv) True) st)
     (\<lambda>r. negatable (f_file f) (\<lambda>v. has_text (any_alternative glob_match v) (er_filename r)))"
proof (rule adds_field)
  fix fv assume "f_file f = Some fv"
  with assms have "valid_string (fv_value fv)" by (simp add: valid_filter_def)
  then show "adds st (add_like ''filename'' (glob_to_like_pattern (fv_value fv)) (fv_negated fv) True st)
      (\<lambda>r. fv_negated fv \<noteq> has_text (any_alternative glob_match (fv_value fv)) (er_filename r))"
    using adds_text_column [of "''filename''" st "glob_to_like_pattern (fv_value fv)" "fv_negated fv"]
    by (simp add: like_value_glob)
qed

lemma adds_cmd:
  assumes "valid_filter f"
  shows "adds st (if_some (f_cmd f) (\<lambda>fv. add_like ''filename'' (cmd_pattern (fv_value fv)) (fv_negated fv) True) st)
     (\<lambda>r. negatable (f_cmd f) (\<lambda>v. has_text (any_alternative after_slash v) (er_filename r)))"
proof (rule adds_field)
  fix fv assume "f_cmd f = Some fv"
  with assms have "valid_string (fv_value fv)" by (simp add: valid_filter_def)
  then show "adds st (add_like ''filename'' (cmd_pattern (fv_value fv)) (fv_negated fv) True st)
      (\<lambda>r. fv_negated fv \<noteq> has_text (any_alternative after_slash (fv_value fv)) (er_filename r))"
    using adds_text_column [of "''filename''" st "cmd_pattern (fv_value fv)" "fv_negated fv"]
    by (simp add: like_value_cmd)
qed

lemma adds_session:
  assumes "valid_filter f"
  shows "adds st (if_some (f_session_id f)
       (\<lambda>fv. add_like ''session_id'' (escape_like_pattern (fv_value fv) @ ''%'') (fv_negated fv) False) st)
     (\<lambda>r. negatable (f_session_id f) (\<lambda>v. session_matches v (er_session_id r)))"
proof (rule adds_field)
  fix fv assume "f_session_id f = Some fv"
  with assms have "valid_string (fv_value fv)" by (simp add: valid_filter_def)
  then show "adds st (add_like ''session_id'' (escape_like_pattern (fv_value fv) @ ''%'') (fv_negated fv) False st)
      (\<lambda>r. fv_negated fv \<noteq> session_matches (fv_value fv) (er_session_id r))"
    using adds_like [of "''session_id''" False st "escape_like_pattern (fv_value fv) @ ''%''" "fv_negated fv"]
    by (simp add: like_value_session)
qed

lemma adds_number:
  "column \<in> {''pid'', ''ppid'', ''gid'', ''euid'', ''uid''} \<Longrightarrow>
   adds st (if_some m (\<lambda>fv. add_exact sql_u32 column fv False) st)
     (\<lambda>r. negatable m (\<lambda>v. col_value r column = VInt (uint v)))"
  by (rule adds_field) (rule adds_u32)

lemma adds_nullable_number:
  "adds st (if_some m (\<lambda>fv. add_exact sql_i32 ''exit_code'' fv True) st)
     (\<lambda>r. negatable m (\<lambda>v. er_exit_code r = Some (sint v)))"
  "adds st (if_some k (\<lambda>fv. add_exact sql_u32 ''tty_nr'' fv True) st)
     (\<lambda>r. negatable k (\<lambda>v. er_tty_nr r = Some (uint v)))"
  by (rule adds_field, rule adds_nullable)+

lemma adds_user_field:
  "adds st (if_some (f_user f) (add_user cache) st)
     (\<lambda>r. case f_user f of None \<Rightarrow> True | Some fv \<Rightarrow>
        (case user_uid cache (fv_value fv) of None \<Rightarrow> True
         | Some uid \<Rightarrow> fv_negated fv \<noteq> (er_uid r = int_u32 uid)))"
  by (rule adds_if_some) (rule adds_user)

lemma adds_start:
  "adds ([], []) (push (ColIs ''event_type'' (uint (event_type_as_wire Exec))) [] ([], []))
     (\<lambda>r. er_event_type r = int_u32 (event_type_as_wire Exec))"
  by (rule adds_push) (auto simp: compare3_def int_u32_def)

lemma adds_free_text:
  "valid_filter f \<Longrightarrow> adds st (if_some (f_text f) add_text st)
     (\<lambda>r. case f_text f of None \<Rightarrow> True | Some t \<Rightarrow> has_text (contains_folded t) (er_comm r)
        \<or> has_text (contains_folded t) (er_filename r) \<or> has_text (contains_folded t) (er_argv r))"
  by (rule adds_if_some) (auto simp: valid_filter_def intro: adds_text)

lemma where_conditions_adds:
  assumes "valid_filter f"
  shows "adds ([], []) (where_conditions cache f) (filter_accepts cache f)"
proof -
  note number = adds_number [where column = "''pid''" and m = "f_pid f"]
    adds_number [where column = "''ppid''" and m = "f_ppid f"]
    adds_number [where column = "''gid''" and m = "f_gid f"]
    adds_number [where column = "''euid''" and m = "f_euid f"]
  note nullable = adds_nullable_number(1) [where m = "f_exit_code f"]
    adds_nullable_number(2) [where k = "f_tty f"]
  note chain = adds_trans [OF adds_trans [OF adds_trans [OF adds_trans [OF adds_trans [OF adds_trans
     [OF adds_trans [OF adds_trans [OF adds_trans [OF adds_trans [OF adds_trans [OF adds_trans
     [OF adds_start adds_comm [OF assms]] nullable(1)] adds_session [OF assms]]
     number(1)] number(2)] number(3)] number(4)] nullable(2)] adds_file [OF assms]] adds_cmd [OF assms]]
     adds_user_field [where f = f and cache = cache]] adds_free_text [OF assms]]
  then show ?thesis
    unfolding where_conditions_def Let_def filter_accepts_def [abs_def] int_u32_def by simp
qed

lemma where_selects:
  assumes "valid_filter f"
  shows "good_where (where_conditions cache f)" "selects (where_conditions cache f) r = filter_accepts cache f r"
proof -
  have "good_where ([], [])" "selects ([], []) r" for r
    by (simp_all add: good_where_def selects_def)
  then show "good_where (where_conditions cache f)" "selects (where_conditions cache f) r = filter_accepts cache f r"
    using where_conditions_adds [OF assms, of cache] by (simp_all add: adds_def)
qed

text \<open>The clause is never empty: it always restricts the event type.\<close>

lemma nonempty_steps:
  "fst (push c vs st) \<noteq> []"
  "fst (add_exact to_sql column fv nullable st) \<noteq> []"
  "fst (add_like column pattern neg nullable st) \<noteq> []"
  "fst (add_text text st) \<noteq> []"
  "fst st \<noteq> [] \<Longrightarrow> fst (add_user cache u st) \<noteq> []"
  by (simp_all add: push_def add_exact_def add_like_def add_text_def add_user_def Let_def split: option.split)

lemma nonempty_if_some:
  "fst st \<noteq> [] \<Longrightarrow> (\<And>v st. fst st \<noteq> [] \<Longrightarrow> fst (g v st) \<noteq> []) \<Longrightarrow> fst (if_some m g st) \<noteq> []"
  by (cases m) (simp_all add: if_some_def)

lemma where_conditions_ne: "fst (where_conditions cache f) \<noteq> []"
  unfolding where_conditions_def Let_def
  by (intro nonempty_if_some nonempty_steps)

text \<open>
  The clause the repository builds selects exactly the rows that \<open>filter_accepts\<close> describes, and all its
  placeholders are bound. Theory \<open>Documented\<close> compares this with what the query language promises.
\<close>

lemma where_clause_meaning:
  assumes "valid_filter f"
  shows "selects (where_conditions cache f) r = filter_accepts cache f r
    \<and> list_all (\<lambda>c. params_upto (length (snd (where_conditions cache f))) c \<and> closed_cond c)
         (fst (where_conditions cache f))
    \<and> build_where_clause cache f =
        (''WHERE '' @ render (AllOf (fst (where_conditions cache f))), snd (where_conditions cache f))"
  using where_selects [OF assms, of cache] where_conditions_ne [of cache f]
  by (simp add: good_where_def build_where_clause_def split_beta)

definition sample_event_row :: event_row where
  "sample_event_row =
     \<lparr>er_id = 1, er_session_id = ''ox_k7m3qx9p'', er_event_type = 0, er_timestamp = ''2024-01-01 00:00:00'',
      er_pid = 7, er_ppid = 1, er_uid = 0, er_gid = 0, er_euid = 0, er_comm = Some ''sh'',
      er_tty_nr = Some 0, er_execution_id = 42, er_filename = Some ''/bin/ls'', er_argv = Some ''[]'',
      er_fd = None, er_data = None, er_data_len = None, er_byte_count = None, er_exit_code = None\<rparr>"

end
