(* ===== verification/Listing.thy ===== *)
theory Listing
  imports Text
begin

text \<open>Sorting and pagination of lists, \<open>shspectr-web/src/domain/listing.rs\<close>.\<close>

section \<open>Sort order\<close>

datatype sort_direction = Asc | Desc

fun direction_as_sql :: "sort_direction \<Rightarrow> string" where
  "direction_as_sql Asc = ''ASC''"
| "direction_as_sql Desc = ''DESC''"

fun direction_toggle :: "sort_direction \<Rightarrow> sort_direction" where
  "direction_toggle Asc = Desc"
| "direction_toggle Desc = Asc"

fun direction_display :: "sort_direction \<Rightarrow> string" where
  "direction_display Asc = ''asc''"
| "direction_display Desc = ''desc''"

datatype event_sort_key = Timestamp | Comm | ExitCode

fun sort_key_column :: "event_sort_key \<Rightarrow> string" where
  "sort_key_column Timestamp = ''timestamp''"
| "sort_key_column Comm = ''comm''"
| "sort_key_column ExitCode = ''exit_code''"

definition sort_key_display :: "event_sort_key \<Rightarrow> string" where
  "sort_key_display k = sort_key_column k"

lemma direction_toggle_toggle [simp]: "direction_toggle (direction_toggle d) = d"
  by (cases d) simp_all

section \<open>Requests\<close>

record list_request =
  lr_page :: u32
  lr_page_size :: u32
  lr_sort :: event_sort_key
  lr_direction :: sort_direction

definition list_request_default :: list_request where
  "list_request_default = \<lparr>lr_page = 1, lr_page_size = 25, lr_sort = Timestamp, lr_direction = Desc\<rparr>"

text \<open>
  \<open>saturating_sub\<close>, then a 32-bit multiplication: it wraps in a release build (a debug build
  panics instead).
\<close>

definition saturating_sub_u32 :: "u32 \<Rightarrow> u32 \<Rightarrow> u32" where
  "saturating_sub_u32 a b = (if b \<le> a then a - b else 0)"

definition list_request_offset :: "list_request \<Rightarrow> u32" where
  "list_request_offset req = saturating_sub_u32 (lr_page req) 1 * lr_page_size req"

lemma saturating_sub_one: "unat (saturating_sub_u32 a 1) = unat a - 1"
proof (cases "a = 0")
  case True
  then show ?thesis by (simp add: saturating_sub_u32_def)
next
  case False
  then have "1 \<le> a" by (simp add: word_le_nat_alt Suc_le_eq unat_gt_0)
  then show ?thesis by (simp add: saturating_sub_u32_def unat_sub)
qed

lemma offset_exact:
  assumes "(unat (lr_page req) - 1) * unat (lr_page_size req) < 2 ^ 32"
  shows "unat (list_request_offset req) = (unat (lr_page req) - 1) * unat (lr_page_size req)"
  using assms by (simp add: list_request_offset_def unat_word_ariths saturating_sub_one)

text \<open>The page number is not bounded by the API, so the product can wrap to an earlier page.\<close>

lemma offset_wraps:
  "list_request_offset \<lparr>lr_page = 0x4000001, lr_page_size = 64, lr_sort = s, lr_direction = d\<rparr> = 0"
  by (simp add: list_request_offset_def saturating_sub_u32_def)

section \<open>Pages\<close>

record 'a page =
  pg_items :: "'a list"
  pg_page :: u32
  pg_page_size :: u32
  pg_total_items :: u64

definition div_ceil :: "nat \<Rightarrow> nat \<Rightarrow> nat" where
  "div_ceil a b = (a + b - 1) div b"

definition total_pages :: "'a page \<Rightarrow> u32" where
  "total_pages p =
     (if pg_total_items p = 0 then 1
      else let pages = div_ceil (unat (pg_total_items p)) (unat (pg_page_size p))
           in if pages < 2 ^ 32 then of_nat pages else - 1)"

definition page_has_next :: "'a page \<Rightarrow> bool" where
  "page_has_next p \<longleftrightarrow> pg_page p < total_pages p"

definition page_has_prev :: "'a page \<Rightarrow> bool" where
  "page_has_prev p \<longleftrightarrow> 1 < pg_page p"

lemma div_ceil_covers: "0 < b \<Longrightarrow> a \<le> div_ceil a b * b"
proof -
  assume b: "0 < b"
  then have "a + b - 1 < (div_ceil a b + 1) * b"
    unfolding div_ceil_def using div_less_iff_less_mult [OF b, of "a + b - 1" "(a + b - 1) div b + 1"] by simp
  then show "a \<le> div_ceil a b * b" using b by simp
qed

lemma div_ceil_least: "0 < b \<Longrightarrow> a \<le> n * b \<Longrightarrow> div_ceil a b \<le> n"
proof -
  assume "0 < b" "a \<le> n * b"
  then have "a + b - 1 < (n + 1) * b" by simp
  then have "(a + b - 1) div b < n + 1" using \<open>0 < b\<close> by (simp add: div_less_iff_less_mult)
  then show ?thesis by (simp add: div_ceil_def)
qed

lemma unat_total_pages:
  assumes "0 < unat (pg_page_size p)" "div_ceil (unat (pg_total_items p)) (unat (pg_page_size p)) < 2 ^ 32"
  shows "unat (total_pages p) = max 1 (div_ceil (unat (pg_total_items p)) (unat (pg_page_size p)))"
proof (cases "pg_total_items p = 0")
  case True
  then show ?thesis using assms(1) by (simp add: total_pages_def div_ceil_def)
next
  case False
  then have "0 < unat (pg_total_items p)" by (simp add: unat_gt_0)
  then have "1 \<le> div_ceil (unat (pg_total_items p)) (unat (pg_page_size p))"
    using div_ceil_covers [OF assms(1), of "unat (pg_total_items p)"]
    by (cases "div_ceil (unat (pg_total_items p)) (unat (pg_page_size p))") auto
  then show ?thesis
    using False assms(2) by (simp add: total_pages_def unat_of_nat take_bit_nat_def)
qed

text \<open>Cutting a list into consecutive pages loses nothing and repeats nothing.\<close>

lemma concat_pages: "concat (map (\<lambda>k. take s (drop (k * s) xs)) [0..<n]) = take (n * s) xs"
proof (induction n)
  case 0
  show ?case by simp
next
  case (Suc n)
  then show ?case by (simp add: add.commute [of s] take_add)
qed

end
