(* ===== verification/Repository.thy ===== *)
theory Repository
  imports Where Listing "HOL-Library.Multiset"
begin

text \<open>
  The event repository, \<open>shspectr-web/src/infrastructure/repositories/event.rs\<close> behind the trait of
  \<open>shspectr-web/src/domain/repositories.rs\<close>, with the domain types of \<open>domain/event.rs\<close>. Its queries
  run on the database of the theory \<open>Database\<close>. A statement that SQLite does not answer, and a
  connection pool that has no connection to give, are errors like those of reading a row.
\<close>

section \<open>Domain types\<close>

record event_summary =
  es_id :: int
  es_timestamp :: string
  es_session_id :: string
  es_event_type :: event_type
  es_execution_id :: u64
  es_pid :: u32
  es_ppid :: u32
  es_uid :: u32
  es_euid :: u32
  es_comm :: "string option"
  es_filename :: "string option"
  es_argv :: "string option"
  es_exit_code :: "i32 option"

record io_chunk =
  ic_timestamp :: string
  ic_data :: string
  ic_byte_count :: u64

record child_process =
  cp_id :: int
  cp_pid :: u32
  cp_comm :: "string option"
  cp_filename :: "string option"
  cp_argv :: "string option"
  cp_exit_code :: "i32 option"
  cp_has_io :: bool

record parent_process =
  pp_id :: int
  pp_comm :: "string option"
  pp_filename :: "string option"
  pp_argv :: "string option"

record event_detail =
  ed_summary :: event_summary
  ed_gid :: u32
  ed_tty_nr :: "u32 option"
  ed_fd :: "u32 option"
  ed_data :: "string option"
  ed_data_len :: "u32 option"
  ed_byte_count :: "u64 option"
  ed_stdin_data :: "io_chunk list"
  ed_stdout_data :: "io_chunk list"
  ed_children :: "child_process list"
  ed_parent :: "parent_process option"

section \<open>Reading columns\<close>

text \<open>
  A statement: its text, and the parameters bound to it. A connection answers it from the database as it is
  then, or not at all (\<open>None\<close>): it can fail while it is prepared (SQLite limits how deep an expression
  nests), while it is bound, or at any row (SQLite limits the length of a LIKE pattern). The statements of
  one request need not see the same database, because the collector writes while the server reads. The
  order in which the parts of a failed answer were computed does not matter: no row of it is used.
\<close>

record sql_query =
  sq_text :: string
  sq_params :: "sql_value list"

type_synonym connection = "sql_query \<Rightarrow> database option"

datatype repo_error =
    NoConnection
  | QueryFailed sql_query
  | IntegralValueOutOfRange nat int
  | UnknownEventType u32

definition run_query :: "connection \<Rightarrow> sql_query \<Rightarrow> repo_error + database" where
  "run_query conn q = ok_or (QueryFailed q) (conn q)"

text \<open>A connection that answers every statement, from one database.\<close>

definition steady :: "database \<Rightarrow> connection" where
  "steady db = (\<lambda>q. Some db)"

lemma run_query_steady [simp]: "run_query (steady db) q = Inr db"
  by (simp add: run_query_def steady_def)

definition get_u32 :: "nat \<Rightarrow> int \<Rightarrow> repo_error + u32" where
  "get_u32 idx i = (if 0 \<le> i \<and> i < 2 ^ 32 then Inr (word_of_int i) else Inl (IntegralValueOutOfRange idx i))"

definition get_i32 :: "nat \<Rightarrow> int \<Rightarrow> repo_error + i32" where
  "get_i32 idx i =
     (if - (2 ^ 31) \<le> i \<and> i < 2 ^ 31 then Inr (word_of_int i) else Inl (IntegralValueOutOfRange idx i))"

definition get_u64 :: "nat \<Rightarrow> int \<Rightarrow> repo_error + u64" where
  "get_u64 idx i = (if 0 \<le> i \<and> i < 2 ^ 64 then Inr (word_of_int i) else Inl (IntegralValueOutOfRange idx i))"

definition get_opt :: "(int \<Rightarrow> repo_error + 'a) \<Rightarrow> int option \<Rightarrow> repo_error + 'a option" where
  "get_opt g x = (case x of None \<Rightarrow> Inr None | Some i \<Rightarrow> bind_result (g i) (\<lambda>v. Inr (Some v)))"

definition get_event_type :: "int \<Rightarrow> repo_error + event_type" where
  "get_event_type i =
     bind_result (get_u32 3 i) (\<lambda>w. ok_or (UnknownEventType w) (event_type_from_wire w))"

definition row_to_summary :: "event_row \<Rightarrow> repo_error + event_summary" where
  "row_to_summary r =
     bind_result (get_event_type (er_event_type r)) (\<lambda>event_type.
     bind_result (get_u64 4 (er_execution_id r)) (\<lambda>execution_id.
     bind_result (get_u32 5 (er_pid r)) (\<lambda>pid.
     bind_result (get_u32 6 (er_ppid r)) (\<lambda>ppid.
     bind_result (get_u32 7 (er_uid r)) (\<lambda>uid.
     bind_result (get_u32 8 (er_euid r)) (\<lambda>euid.
     bind_result (get_opt (get_i32 12) (er_exit_code r)) (\<lambda>exit_code.
       Inr \<lparr>es_id = er_id r, es_timestamp = er_timestamp r, es_session_id = er_session_id r,
         es_event_type = event_type, es_execution_id = execution_id, es_pid = pid, es_ppid = ppid,
         es_uid = uid, es_euid = euid, es_comm = er_comm r, es_filename = er_filename r,
         es_argv = er_argv r, es_exit_code = exit_code\<rparr>)))))))"

text \<open>\<open>collect::<Result<Vec<_>, _>>()\<close>: the first error, or all values.\<close>

fun collect_results :: "('e + 'a) list \<Rightarrow> 'e + 'a list" where
  "collect_results [] = Inr []"
| "collect_results (r # rs) =
     bind_result r (\<lambda>v. bind_result (collect_results rs) (\<lambda>vs. Inr (v # vs)))"

section \<open>Lists\<close>

text \<open>
  \<open>ORDER BY column direction, id DESC\<close>: for the descending direction both keys descend, which is
  the ascending order of both, reversed.
\<close>

definition order_rows :: "event_sort_key \<Rightarrow> sort_direction \<Rightarrow> event_row list \<Rightarrow> event_row list" where
  "order_rows k d rows =
     (case d of
        Asc \<Rightarrow> sort_key (\<lambda>r. (col_value r (sort_key_column k), - er_id r)) rows
      | Desc \<Rightarrow> rev (sort_key (\<lambda>r. (col_value r (sort_key_column k), er_id r)) rows))"

definition SUMMARY_COLUMNS :: string where
  "SUMMARY_COLUMNS = ''id, timestamp, session_id, event_type, execution_id, pid, ppid, uid, euid, comm, filename, argv, exit_code''"

definition count_query :: "string \<times> sql_value list \<Rightarrow> sql_query" where
  "count_query clause =
     \<lparr>sq_text = ''SELECT COUNT('' @ [CHR ''*''] @ '') FROM events '' @ fst clause, sq_params = snd clause\<rparr>"

definition page_query :: "string \<times> sql_value list \<Rightarrow> list_request \<Rightarrow> sql_query" where
  "page_query clause req =
     \<lparr>sq_text = ''SELECT '' @ SUMMARY_COLUMNS @ '' FROM events '' @ fst clause @ '' ORDER BY ''
        @ sort_key_column (lr_sort req) @ '' '' @ direction_as_sql (lr_direction req) @ '', id DESC LIMIT ''
        @ placeholder (length (snd clause) + 1) @ '' OFFSET '' @ placeholder (length (snd clause) + 2),
      sq_params = snd clause @ [VInt (int_u32 (lr_page_size req)), VInt (int_u32 (list_request_offset req))]\<rparr>"

definition repo_list :: "passwd_cache \<Rightarrow> connection option \<Rightarrow> list_request \<Rightarrow> event_filter
    \<Rightarrow> repo_error + event_summary page" where
  "repo_list cache pool req f =
     bind_result (ok_or NoConnection pool) (\<lambda>conn.
     let where_clause = build_where_clause cache f;
         matching = (\<lambda>db. filter (selects (where_conditions cache f)) (db_events db));
         limit = unat (lr_page_size req);
         offset = unat (list_request_offset req) in
     bind_result (run_query conn (count_query where_clause)) (\<lambda>db.
     let total_items = of_nat (length (matching db)) in
     bind_result (run_query conn (page_query where_clause req)) (\<lambda>db.
     let rows = take limit (drop offset (order_rows (lr_sort req) (lr_direction req) (matching db))) in
     bind_result (collect_results (map row_to_summary rows)) (\<lambda>items.
       Inr \<lparr>pg_items = items, pg_page = lr_page req, pg_page_size = lr_page_size req,
         pg_total_items = total_items\<rparr>))))"

definition since_clause :: "passwd_cache \<Rightarrow> event_filter \<Rightarrow> int \<Rightarrow> where_state" where
  "since_clause cache f after_id =
     (let st = where_conditions cache f
      in push (ColGt ''id'' (length (snd st) + 1)) [VInt after_id] st)"

definition LIVE_LIMIT :: nat where "LIVE_LIMIT = 100"

definition since_query :: "string \<times> sql_value list \<Rightarrow> int \<Rightarrow> sql_query" where
  "since_query clause after_id =
     (let id_condition = ''id > '' @ placeholder (length (snd clause) + 1);
          full_where = (if fst clause = [] then ''WHERE '' @ id_condition
                        else fst clause @ '' AND '' @ id_condition)
      in \<lparr>sq_text = ''SELECT '' @ SUMMARY_COLUMNS @ '' FROM events '' @ full_where @ '' ORDER BY id ASC LIMIT 100'',
          sq_params = snd clause @ [VInt after_id]\<rparr>)"

definition repo_list_since :: "passwd_cache \<Rightarrow> connection option \<Rightarrow> int \<Rightarrow> event_filter
    \<Rightarrow> repo_error + event_summary list" where
  "repo_list_since cache pool after_id f =
     bind_result (ok_or NoConnection pool) (\<lambda>conn.
     bind_result (run_query conn (since_query (build_where_clause cache f) after_id)) (\<lambda>db.
       let clause = since_clause cache f after_id;
           matching = filter (selects clause) (db_events db)
       in collect_results (map row_to_summary (take LIVE_LIMIT (sort_key er_id matching)))))"

definition max_id_query :: sql_query where
  "max_id_query = \<lparr>sq_text = ''SELECT COALESCE(MAX(id), 0) FROM events'', sq_params = []\<rparr>"

definition repo_max_event_id :: "connection option \<Rightarrow> repo_error + int" where
  "repo_max_event_id pool =
     bind_result (ok_or NoConnection pool) (\<lambda>conn.
     bind_result (run_query conn max_id_query) (\<lambda>db.
       Inr (case map er_id (db_events db) of [] \<Rightarrow> 0 | i # is \<Rightarrow> foldl max i is)))"

section \<open>Detail\<close>

definition is_io_row :: "event_row \<Rightarrow> bool" where
  "is_io_row r \<longleftrightarrow> er_event_type r = int_u32 (event_type_as_wire Read)
     \<or> er_event_type r = int_u32 (event_type_as_wire Write)"

definition io_values :: "event_row \<Rightarrow> repo_error + string \<times> u32 option \<times> string option \<times> u64 option" where
  "io_values r =
     bind_result (get_opt (get_u32 1) (er_fd r)) (\<lambda>fd.
     bind_result (get_opt (get_u64 3) (er_byte_count r)) (\<lambda>byte_count.
       Inr (er_timestamp r, fd, er_data r, byte_count)))"

definition add_chunk :: "event_detail \<Rightarrow> string \<times> u32 option \<times> string option \<times> u64 option \<Rightarrow> event_detail" where
  "add_chunk detail v =
     (case v of (timestamp, fd, data, byte_count) \<Rightarrow>
        let chunk = \<lparr>ic_timestamp = timestamp, ic_data = unwrap_or [] data,
              ic_byte_count = unwrap_or 0 byte_count\<rparr>
        in if fd = Some 0 then detail\<lparr>ed_stdin_data := ed_stdin_data detail @ [chunk]\<rparr>
           else if fd = Some 1 \<or> fd = Some 2 then detail\<lparr>ed_stdout_data := ed_stdout_data detail @ [chunk]\<rparr>
           else detail)"

fun add_chunks :: "event_detail \<Rightarrow> event_row list \<Rightarrow> repo_error + event_detail" where
  "add_chunks detail [] = Inr detail"
| "add_chunks detail (r # rs) = bind_result (io_values r) (\<lambda>v. add_chunks (add_chunk detail v) rs)"

definition belongs_to :: "event_summary \<Rightarrow> event_row \<Rightarrow> bool" where
  "belongs_to s r \<longleftrightarrow> er_session_id r = es_session_id s \<and> er_pid r = int_u32 (es_pid s)
     \<and> er_execution_id r = uint (es_execution_id s)"

definition io_query :: "event_summary \<Rightarrow> sql_query" where
  "io_query s =
     \<lparr>sq_text = ''SELECT timestamp, fd, data, byte_count FROM events WHERE session_id = ?1 AND pid = ?2 AND execution_id = ?3 AND event_type IN (?4, ?5) ORDER BY id ASC'',
      sq_params = [VText (es_session_id s), VInt (int_u32 (es_pid s)), VInt (uint (es_execution_id s)),
        VInt (int_u32 (event_type_as_wire Read)), VInt (int_u32 (event_type_as_wire Write))]\<rparr>"

definition fetch_io_chunks :: "connection \<Rightarrow> event_detail \<Rightarrow> repo_error + event_detail" where
  "fetch_io_chunks conn detail =
     bind_result (run_query conn (io_query (ed_summary detail))) (\<lambda>db.
       add_chunks detail
         (sort_key er_id (filter (\<lambda>r. belongs_to (ed_summary detail) r \<and> is_io_row r) (db_events db))))"

definition has_io :: "database \<Rightarrow> event_row \<Rightarrow> bool" where
  "has_io db e \<longleftrightarrow>
     list_ex (\<lambda>io. er_session_id io = er_session_id e \<and> er_pid io = er_pid e
       \<and> er_execution_id io = er_execution_id e \<and> is_io_row io) (db_events db)"

definition row_to_child :: "database \<Rightarrow> event_row \<Rightarrow> repo_error + child_process" where
  "row_to_child db e =
     bind_result (get_u32 1 (er_pid e)) (\<lambda>pid.
     bind_result (get_opt (get_i32 5) (er_exit_code e)) (\<lambda>exit_code.
       Inr \<lparr>cp_id = er_id e, cp_pid = pid, cp_comm = er_comm e, cp_filename = er_filename e,
         cp_argv = er_argv e, cp_exit_code = exit_code, cp_has_io = has_io db e\<rparr>))"

definition children_query :: "event_summary \<Rightarrow> sql_query" where
  "children_query s =
     \<lparr>sq_text = ''SELECT e.id, e.pid, e.comm, e.filename, e.argv, e.exit_code, EXISTS(SELECT 1 FROM events io WHERE io.session_id = e.session_id AND io.pid = e.pid AND io.execution_id = e.execution_id AND io.event_type IN (?3, ?4) LIMIT 1) as has_io FROM events e WHERE e.session_id = ?1 AND e.ppid = ?2 AND e.event_type = ?5 ORDER BY e.id ASC'',
      sq_params = [VText (es_session_id s), VInt (int_u32 (es_pid s)), VInt (int_u32 (event_type_as_wire Read)),
        VInt (int_u32 (event_type_as_wire Write)), VInt (int_u32 (event_type_as_wire Exec))]\<rparr>"

definition fetch_children :: "connection \<Rightarrow> event_detail \<Rightarrow> repo_error + child_process list" where
  "fetch_children conn detail =
     bind_result (run_query conn (children_query (ed_summary detail))) (\<lambda>db.
       collect_results (map (row_to_child db) (sort_key er_id (filter (\<lambda>e.
         er_session_id e = es_session_id (ed_summary detail)
         \<and> er_ppid e = int_u32 (es_pid (ed_summary detail))
         \<and> er_event_type e = int_u32 (event_type_as_wire Exec)) (db_events db)))))"

definition parent_query :: "event_summary \<Rightarrow> sql_query" where
  "parent_query s =
     \<lparr>sq_text = ''SELECT id, comm, filename, argv FROM events WHERE session_id = ?1 AND pid = ?2 AND event_type = ?3 ORDER BY id DESC LIMIT 1'',
      sq_params = [VText (es_session_id s), VInt (int_u32 (es_ppid s)), VInt (int_u32 (event_type_as_wire Exec))]\<rparr>"

definition fetch_parent :: "connection \<Rightarrow> event_detail \<Rightarrow> repo_error + parent_process option" where
  "fetch_parent conn detail =
     bind_result (run_query conn (parent_query (ed_summary detail))) (\<lambda>db.
       Inr (case rev (sort_key er_id (filter (\<lambda>r.
         er_session_id r = es_session_id (ed_summary detail)
         \<and> er_pid r = int_u32 (es_ppid (ed_summary detail))
         \<and> er_event_type r = int_u32 (event_type_as_wire Exec)) (db_events db))) of
        [] \<Rightarrow> None
      | r # _ \<Rightarrow> Some \<lparr>pp_id = er_id r, pp_comm = er_comm r, pp_filename = er_filename r, pp_argv = er_argv r\<rparr>))"

definition row_to_detail :: "event_row \<Rightarrow> repo_error + event_detail" where
  "row_to_detail r =
     bind_result (get_event_type (er_event_type r)) (\<lambda>event_type.
     bind_result (get_u64 4 (er_execution_id r)) (\<lambda>execution_id.
     bind_result (get_u32 5 (er_pid r)) (\<lambda>pid.
     bind_result (get_u32 6 (er_ppid r)) (\<lambda>ppid.
     bind_result (get_u32 7 (er_uid r)) (\<lambda>uid.
     bind_result (get_u32 9 (er_euid r)) (\<lambda>euid.
     bind_result (get_opt (get_i32 13) (er_exit_code r)) (\<lambda>exit_code.
     bind_result (get_u32 8 (er_gid r)) (\<lambda>gid.
     bind_result (get_opt (get_u32 14) (er_tty_nr r)) (\<lambda>tty_nr.
     bind_result (get_opt (get_u32 15) (er_fd r)) (\<lambda>fd.
     bind_result (get_opt (get_u32 17) (er_data_len r)) (\<lambda>data_len.
     bind_result (get_opt (get_u64 18) (er_byte_count r)) (\<lambda>byte_count.
       Inr \<lparr>ed_summary = \<lparr>es_id = er_id r, es_timestamp = er_timestamp r, es_session_id = er_session_id r,
              es_event_type = event_type, es_execution_id = execution_id, es_pid = pid, es_ppid = ppid,
              es_uid = uid, es_euid = euid, es_comm = er_comm r, es_filename = er_filename r,
              es_argv = er_argv r, es_exit_code = exit_code\<rparr>,
            ed_gid = gid, ed_tty_nr = tty_nr, ed_fd = fd, ed_data = er_data r, ed_data_len = data_len,
            ed_byte_count = byte_count, ed_stdin_data = [], ed_stdout_data = [], ed_children = [],
            ed_parent = None\<rparr>))))))))))))"

definition detail_query :: "int \<Rightarrow> sql_query" where
  "detail_query i =
     \<lparr>sq_text = ''SELECT id, timestamp, session_id, event_type, execution_id, pid, ppid, uid, gid, euid, comm, filename, argv, exit_code, tty_nr, fd, data, data_len, byte_count FROM events WHERE id = ?1'',
      sq_params = [VInt i]\<rparr>"

definition repo_get_detail :: "connection option \<Rightarrow> int \<Rightarrow> repo_error + event_detail option" where
  "repo_get_detail pool i =
     bind_result (ok_or NoConnection pool) (\<lambda>conn.
     bind_result (run_query conn (detail_query i)) (\<lambda>db.
       case find (\<lambda>r. er_id r = i) (db_events db) of
         None \<Rightarrow> Inr None
       | Some r \<Rightarrow>
           bind_result (row_to_detail r) (\<lambda>detail.
           bind_result (fetch_io_chunks conn detail) (\<lambda>detail.
           bind_result (fetch_children conn detail) (\<lambda>children.
             let detail = detail\<lparr>ed_children := children\<rparr> in
           bind_result (fetch_parent conn detail) (\<lambda>parent.
             Inr (Some (detail\<lparr>ed_parent := parent\<rparr>))))))))"

section \<open>Readable rows\<close>

definition i32_range :: "int \<Rightarrow> bool" where
  "i32_range i \<longleftrightarrow> - (2 ^ 31) \<le> i \<and> i < 2 ^ 31"

definition u32_range :: "int \<Rightarrow> bool" where
  "u32_range i \<longleftrightarrow> 0 \<le> i \<and> i < 2 ^ 32"

definition opt_in :: "(int \<Rightarrow> bool) \<Rightarrow> int option \<Rightarrow> bool" where
  "opt_in p x = (case x of None \<Rightarrow> True | Some i \<Rightarrow> p i)"

definition readable_row :: "event_row \<Rightarrow> bool" where
  "readable_row r \<longleftrightarrow>
     is_ok (get_event_type (er_event_type r))
     \<and> 0 \<le> er_execution_id r \<and> er_execution_id r \<le> I64_MAX
     \<and> u32_range (er_pid r) \<and> u32_range (er_ppid r) \<and> u32_range (er_uid r) \<and> u32_range (er_gid r)
     \<and> u32_range (er_euid r) \<and> opt_in u32_range (er_tty_nr r) \<and> opt_in u32_range (er_fd r)
     \<and> opt_in u32_range (er_data_len r) \<and> opt_in (\<lambda>i. 0 \<le> i \<and> i \<le> I64_MAX) (er_byte_count r)
     \<and> opt_in i32_range (er_exit_code r)"

lemma get_u32_range: "u32_range i \<Longrightarrow> get_u32 n i = Inr (word_of_int i)"
  by (simp add: get_u32_def u32_range_def)

lemma get_u32_ok [simp]: "get_u32 n (int_u32 w) = Inr w"
  using int_u32_bounds [of w] by (simp add: get_u32_def int_u32_def)

lemma get_u64_range: "0 \<le> i \<Longrightarrow> i \<le> I64_MAX \<Longrightarrow> get_u64 n i = Inr (word_of_int i)"
  by (simp add: get_u64_def I64_MAX_def)

lemma get_i32_range: "i32_range i \<Longrightarrow> get_i32 n i = Inr (word_of_int i)"
  by (simp add: get_i32_def i32_range_def)

lemma get_event_type_ok [simp]: "get_event_type (int_u32 (event_type_as_wire t)) = Inr t"
  by (simp add: get_event_type_def)

lemma get_opt_u32: "opt_in u32_range x \<Longrightarrow> get_opt (get_u32 n) x = Inr (map_option word_of_int x)"
  by (cases x) (simp_all add: get_opt_def opt_in_def get_u32_range)

lemma get_opt_i32: "opt_in i32_range x \<Longrightarrow> get_opt (get_i32 n) x = Inr (map_option word_of_int x)"
  by (cases x) (simp_all add: get_opt_def opt_in_def get_i32_range)

lemma get_opt_u64:
  "opt_in (\<lambda>i. 0 \<le> i \<and> i \<le> I64_MAX) x \<Longrightarrow> get_opt (get_u64 n) x = Inr (map_option word_of_int x)"
  by (cases x) (simp_all add: get_opt_def opt_in_def get_u64_range)

lemmas get_values = get_u32_range get_u64_range get_opt_u32 get_opt_i32 get_opt_u64

lemma is_okE: "is_ok r \<Longrightarrow> (\<And>v. r = Inr v \<Longrightarrow> P) \<Longrightarrow> P"
  by (cases r) simp_all

lemma readable_summary: "readable_row r \<Longrightarrow> is_ok (row_to_summary r)"
  by (auto simp: readable_row_def row_to_summary_def get_values elim!: is_okE)

lemma readable_detail: "readable_row r \<Longrightarrow> is_ok (row_to_detail r)"
  by (auto simp: readable_row_def row_to_detail_def get_values elim!: is_okE)

lemma readable_io_values: "readable_row r \<Longrightarrow> is_ok (io_values r)"
  by (auto simp: readable_row_def io_values_def get_values)

lemma readable_child: "readable_row r \<Longrightarrow> is_ok (row_to_child conn r)"
  by (auto simp: readable_row_def row_to_child_def get_values)

lemma collect_results_Inr: "collect_results rs = Inr vs \<longleftrightarrow> rs = map Inr vs"
proof (induction rs arbitrary: vs)
  case Nil
  then show ?case by auto
next
  case (Cons r rs)
  then show ?case by (cases r; cases vs) (auto simp: bind_result_Inr_iff)
qed

lemma collect_results_ok: "\<forall>r \<in> set rs. is_ok r \<Longrightarrow> \<exists>vs. collect_results rs = Inr vs"
proof (induction rs)
  case (Cons r rs)
  then show ?case by (cases r) auto
qed simp


section \<open>Order\<close>

definition order_before :: "event_sort_key \<Rightarrow> sort_direction \<Rightarrow> event_row \<Rightarrow> event_row \<Rightarrow> bool" where
  "order_before k d a b \<longleftrightarrow>
     (let x = col_value a (sort_key_column k); y = col_value b (sort_key_column k)
      in (if d = Asc then x < y else y < x) \<or> (x = y \<and> er_id b < er_id a))"

lemma mset_order_rows [simp]: "mset (order_rows k d rows) = mset rows"
  by (cases d) (simp_all add: order_rows_def)

lemma distinct_map_pairs: "distinct (map f xs) \<longleftrightarrow> sorted_wrt (\<lambda>a b. f a \<noteq> f b) xs"
  by (induction xs) auto

lemma sorted_wrt_both: "sorted_wrt P xs \<Longrightarrow> sorted_wrt Q xs \<Longrightarrow> sorted_wrt (\<lambda>a b. P a b \<and> Q a b) xs"
  by (induction xs) auto

lemma sorted_key_pairs: "sorted_wrt (\<lambda>a b. f a \<le> f b) (sort_key f xs)" for f :: "'a \<Rightarrow> 'b :: linorder"
  using sorted_sort_key [of f xs] by (simp add: sorted_map)

lemma order_rows_sorted:
  assumes "distinct (map er_id rows)"
  shows "sorted_wrt (order_before k d) (order_rows k d rows)"
proof -
  let ?c = "\<lambda>r. col_value r (sort_key_column k)"
  have ids: "sorted_wrt (\<lambda>a b. er_id a \<noteq> er_id b) (sort_key g rows)" for g :: "event_row \<Rightarrow> sql_value \<times> int"
  proof -
    have "mset (map er_id (sort_key g rows)) = mset (map er_id rows)" by simp
    then have "distinct (map er_id (sort_key g rows))" using assms by (metis mset_eq_imp_distinct_iff)
    then show ?thesis by (simp only: distinct_map_pairs)
  qed
  show ?thesis
  proof (cases d)
    case Asc
    show ?thesis
      unfolding order_rows_def Asc sort_direction.case
      by (rule sorted_wrt_mono_rel [rotated, OF sorted_wrt_both [OF sorted_key_pairs ids]])
        (auto simp: order_before_def Let_def)
  next
    case Desc
    show ?thesis
      unfolding order_rows_def Desc sort_direction.case sorted_wrt_rev
      by (rule sorted_wrt_mono_rel [rotated, OF sorted_wrt_both [OF sorted_key_pairs ids]])
        (auto simp: order_before_def Let_def)
  qed
qed

section \<open>Pages\<close>

lemma filter_selects:
  "valid_filter f \<Longrightarrow> filter (selects (where_conditions cache f)) rows = filter (filter_accepts cache f) rows"
  by (simp add: where_selects cong: filter_cong)

definition page_request :: "nat \<Rightarrow> u32 \<Rightarrow> event_sort_key \<Rightarrow> sort_direction \<Rightarrow> list_request" where
  "page_request n s k d = \<lparr>lr_page = of_nat n, lr_page_size = s, lr_sort = k, lr_direction = d\<rparr>"

definition ordered_matches :: "passwd_cache \<Rightarrow> database \<Rightarrow> event_filter \<Rightarrow> event_sort_key \<Rightarrow> sort_direction
    \<Rightarrow> event_row list" where
  "ordered_matches cache db f k d = order_rows k d (filter (filter_accepts cache f) (db_events db))"

lemma set_order_rows [simp]: "set (order_rows k d rows) = set rows"
  using mset_order_rows [of k d rows] by (metis set_mset_mset)

lemma length_order_rows [simp]: "length (order_rows k d rows) = length rows"
  using mset_order_rows [of k d rows] by (metis size_mset)

lemma repo_list_page:
  assumes "valid_filter f" "map row_to_summary (ordered_matches cache db f k d) = map Inr vs"
    "1 \<le> n" "n < 2 ^ 32" "(n - 1) * unat s < 2 ^ 32"
  shows "repo_list cache (Some (steady db)) (page_request n s k d) f =
     Inr \<lparr>pg_items = take (unat s) (drop ((n - 1) * unat s) vs), pg_page = of_nat n, pg_page_size = s,
       pg_total_items = of_nat (length vs)\<rparr>"
proof -
  have n: "unat (of_nat n :: u32) = n" using assms(4) by (simp add: unat_of_nat take_bit_nat_def)
  then have off: "unat (list_request_offset (page_request n s k d)) = (n - 1) * unat s"
    using offset_exact [of "page_request n s k d"] assms(5) by (simp add: page_request_def)
  have len: "length (filter (filter_accepts cache f) (db_events db)) = length vs"
    using arg_cong [OF assms(2), of length] by (simp add: ordered_matches_def)
  have "map row_to_summary (take a (drop b (ordered_matches cache db f k d))) = map Inr (take a (drop b vs))" for a b
    using assms(2) by (metis drop_map take_map)
  then have "collect_results (map row_to_summary (take a (drop b (ordered_matches cache db f k d)))) =
      Inr (take a (drop b vs))" for a b
    by (simp only: collect_results_Inr)
  then show ?thesis
    using off len
    by (simp add: repo_list_def filter_selects [OF assms(1)] ordered_matches_def Let_def page_request_def)
qed

lemma page_bounds:
  assumes "0 < s" "m + s < 2 ^ 32" "n < Suc (max 1 (div_ceil m s))"
  shows "n < 2 ^ 32" "(n - 1) * s < 2 ^ 32"
proof -
  have "div_ceil m s * s \<le> m + s - 1" by (simp add: div_ceil_def)
  then have "div_ceil m s * s \<le> m + s" by linarith
  then have "max 1 (div_ceil m s) * s \<le> m + s" by (simp add: max_def)
  moreover have "n * s \<le> max 1 (div_ceil m s) * s" using assms(3) by (intro mult_le_mono1) simp
  moreover have "n \<le> n * s" using assms(1) by simp
  ultimately have "n * s \<le> m + s" "n \<le> m + s" by linarith+
  then show "n < 2 ^ 32" "(n - 1) * s < 2 ^ 32" using assms(2) by (auto simp: diff_mult_distrib)
qed


lemma collect_all:
  assumes "\<forall>r \<in> set rows. is_ok (g r)"
  obtains vs where "map g rows = map Inr vs"
proof -
  have "\<exists>vs. collect_results (map g rows) = Inr vs" using assms by (intro collect_results_ok) auto
  then show ?thesis using that by (auto simp: collect_results_Inr)
qed

lemma set_ordered_matches: "set (ordered_matches cache db f k d) \<subseteq> set (db_events db)"
  by (auto simp: ordered_matches_def)

text \<open>The slices of a list for \<open>N\<close> pages that cover it make the list again.\<close>

lemma concat_page_slices:
  fixes vs :: "'a list"
  assumes "0 < m"
  defines "N \<equiv> max 1 (div_ceil (length vs) m)"
  shows "concat (map (\<lambda>n. take m (drop ((n - 1) * m) vs)) [1..<Suc N]) = vs"
proof -
  have "map (\<lambda>n. take m (drop ((n - 1) * m) vs)) [Suc 0..<Suc N] = map (\<lambda>j. take m (drop (j * m) vs)) [0..<N]"
    by (simp only: map_Suc_upt [symmetric] map_map comp_def diff_Suc_1)
  then have "concat (map (\<lambda>n. take m (drop ((n - 1) * m) vs)) [1..<Suc N]) = take (N * m) vs"
    using concat_pages [of m vs N] by (simp del: upt_Suc)
  moreover have "length vs \<le> N * m"
    using div_ceil_covers [OF assms(1), of "length vs"] mult_le_mono1 [of "div_ceil (length vs) m" N m]
    unfolding N_def by (meson max.cobounded2 order_trans)
  ultimately show ?thesis by simp
qed

lemma ordered_summaries:
  assumes "list_all readable_row (db_events db)"
  shows "\<exists>vs. map row_to_summary (ordered_matches cache db f k d) = map Inr vs \<and> length vs \<le> length (db_events db)
    \<and> length (ordered_matches cache db f k d) = length vs"
proof -
  have "\<forall>r \<in> set (ordered_matches cache db f k d). is_ok (row_to_summary r)"
    using assms set_ordered_matches [of cache db f k d] readable_summary by (auto simp: list_all_iff)
  then obtain vs where vs: "map row_to_summary (ordered_matches cache db f k d) = map Inr vs" by (rule collect_all)
  then have "length (ordered_matches cache db f k d) = length vs" by (metis length_map)
  moreover from this have "length vs \<le> length (db_events db)"
    unfolding ordered_matches_def length_order_rows by (metis length_filter_le)
  ultimately show ?thesis using vs by blast
qed

text \<open>
  C12: The pages of the event list partition the matching events: on a database with readable rows, and a
  connection that answers every query from it,
  asking for page 1 up to the number of pages that every page itself reports always succeeds, and
  putting the pages together gives each event that the filter accepts exactly once, in the requested
  order (the sort column with NULL first, newest event first among equals). Every page reports the number
  of all matching events.
\<close>

theorem pages_partition_matches:
  assumes "valid_filter f" "wf_database db" "list_all readable_row (db_events db)"
    "0 < unat s" "length (db_events db) + unat s < 2 ^ 32"
  shows "\<exists>rows pages.
      mset rows = mset (filter (filter_accepts cache f) (db_events db))
    \<and> sorted_wrt (order_before k d) rows
    \<and> map (\<lambda>n. repo_list cache (Some (steady db)) (page_request n s k d) f) [1..<Suc (length pages)] = map Inr pages
    \<and> map row_to_summary rows = map Inr (concat (map pg_items pages))
    \<and> list_all (\<lambda>p. pg_total_items p = of_nat (length rows) \<and> total_pages p = of_nat (length pages)) pages"
proof -
  let ?rows = "ordered_matches cache db f k d"
  obtain vs where vs: "map row_to_summary ?rows = map Inr vs" and len: "length ?rows = length vs"
      and m: "length vs + unat s < 2 ^ 32"
    using ordered_summaries [OF assms(3), of cache f k d] assms(5) by force
  define N where "N = max 1 (div_ceil (length vs) (unat s))"
  define page where "page n = \<lparr>pg_items = take (unat s) (drop ((n - 1) * unat s) vs), pg_page = of_nat n :: u32,
      pg_page_size = s, pg_total_items = of_nat (length vs) :: u64\<rparr>" for n
  have pages: "repo_list cache (Some (steady db)) (page_request n s k d) f = Inr (page n)" if "n \<in> set [1..<Suc N]" for n
    using that page_bounds [OF assms(4) m, of n] unfolding page_def N_def
    by (intro repo_list_page [OF assms(1) vs]) auto
  have count: "unat (of_nat (length vs) :: u64) = length vs"
    using m by (simp add: unat_of_nat take_bit_nat_def)
  have N32: "N < 2 ^ 32" using page_bounds(1) [OF assms(4) m, of N] by (simp add: N_def)
  have total: "total_pages (page n) = of_nat N" for n
  proof (rule word_unat_eq_iff [THEN iffD2])
    have "div_ceil (length vs) (unat s) < 2 ^ 32" using N32 by (simp add: N_def)
    then have "unat (total_pages (page n)) = N"
      using unat_total_pages [of "page n"] assms(4) count by (simp add: page_def N_def)
    then show "unat (total_pages (page n)) = unat (of_nat N :: u32)"
      using N32 by (simp add: unat_of_nat take_bit_nat_def)
  qed
  have all: "concat (map pg_items (map page [1..<Suc N])) = vs"
    using concat_page_slices [OF assms(4), of vs] by (simp add: page_def comp_def N_def del: upt_Suc)
  have "distinct (map er_id (filter (filter_accepts cache f) (db_events db)))"
    using wf_ids_distinct [OF assms(2)] by (rule distinct_map_filter)
  then have "sorted_wrt (order_before k d) ?rows" unfolding ordered_matches_def by (rule order_rows_sorted)
  moreover have "map (\<lambda>n. repo_list cache (Some (steady db)) (page_request n s k d) f) [1..<Suc N] = map Inr (map page [1..<Suc N])"
    using pages by (simp del: upt_Suc)
  moreover have "list_all (\<lambda>p. pg_total_items p = of_nat (length ?rows) \<and> total_pages p = of_nat N) (map page [1..<Suc N])"
    using total len by (auto simp: list_all_iff page_def simp del: upt_Suc)
  ultimately show ?thesis
    using vs all by (intro exI [of _ ?rows] exI [of _ "map page [1..<Suc N]"])
      (simp add: ordered_matches_def del: upt_Suc map_map)
qed


definition sample_web_db :: database where
  "sample_web_db = \<lparr>db_fk = False, db_sessions = [], db_events = [sample_event_row], db_seq = 1\<rparr>"

lemma sample_web_db_ok:
  "wf_database sample_web_db" "list_all readable_row (db_events sample_web_db)"
  "valid_filter event_filter_default"
  by (simp_all add: sample_web_db_def wf_database_def I64_MAX_def readable_row_def sample_event_row_def
      get_event_type_def get_u32_def event_type_from_wire_def u32_range_def opt_in_def valid_filter_def
      event_filter_default_def)

lemma default_accepts_exec: "filter_accepts cache event_filter_default r \<longleftrightarrow> er_event_type r = 0"
  by (simp add: filter_accepts_def event_filter_default_def negatable_def int_u32_def)

theorem pages_partition_matches_witness:
  "\<exists>rows pages. map (\<lambda>n. repo_list [] (Some (steady sample_web_db)) (page_request n 25 Timestamp Desc) event_filter_default)
      [1..<Suc (length pages)] = map Inr pages
    \<and> rows = [sample_event_row] \<and> map row_to_summary rows = map Inr (concat (map pg_items pages))"
proof -
  have "0 < unat (25 :: u32)" "length (db_events sample_web_db) + unat (25 :: u32) < 2 ^ 32"
    by (simp_all add: sample_web_db_def)
  from pages_partition_matches [OF sample_web_db_ok(3,1,2) this, of "[]" Timestamp Desc]
  obtain rows pages where *: "mset rows = mset (filter (filter_accepts [] event_filter_default) (db_events sample_web_db))"
    "map (\<lambda>n. repo_list [] (Some (steady sample_web_db)) (page_request n 25 Timestamp Desc) event_filter_default)
      [1..<Suc (length pages)] = map Inr pages"
    "map row_to_summary rows = map Inr (concat (map pg_items pages))"
    by blast
  have "mset rows = {#sample_event_row#}"
    unfolding *(1) by (simp add: sample_web_db_def default_accepts_exec sample_event_row_def)
  then have "rows = [sample_event_row]" by simp
  with *(2,3) show ?thesis by blast
qed

section \<open>Events after an id\<close>

lemma since_selects:
  assumes "valid_filter f"
  shows "selects (since_clause cache f a) r \<longleftrightarrow> a < er_id r \<and> filter_accepts cache f r"
proof -
  have "adds (where_conditions cache f) (since_clause cache f a) (\<lambda>r. a < er_id r)"
    unfolding since_clause_def Let_def
    by (rule adds_push) (auto simp: compare3_def less_sql_value_def)
  with where_selects [OF assms, of cache] show ?thesis by (auto simp: adds_def)
qed

lemma wf_events_sorted: "wf_database db \<Longrightarrow> sort_key er_id (filter p (db_events db)) = filter p (db_events db)"
proof -
  assume "wf_database db"
  then have "sorted (map er_id (db_events db))" by (simp add: wf_database_def strict_sorted_imp_sorted)
  then have "sorted (map er_id (filter p (db_events db)))" by (rule sorted_filter)
  then show ?thesis by (rule sort_key_id_if_sorted)
qed

definition matches_after :: "passwd_cache \<Rightarrow> database \<Rightarrow> event_filter \<Rightarrow> int \<Rightarrow> event_row list" where
  "matches_after cache db f a = filter (\<lambda>r. a < er_id r \<and> filter_accepts cache f r) (db_events db)"

lemma list_since_batch:
  assumes "valid_filter f" "wf_database db" "list_all readable_row (db_events db)"
  shows "\<exists>items. repo_list_since cache (Some (steady db)) a f = Inr items
    \<and> map row_to_summary (take LIVE_LIMIT (matches_after cache db f a)) = map Inr items"
proof -
  have rows: "sort_key er_id (filter (selects (since_clause cache f a)) (db_events db)) = matches_after cache db f a"
    unfolding matches_after_def wf_events_sorted [OF assms(2)]
    by (simp add: since_selects [OF assms(1)] cong: filter_cong)
  have "\<forall>r \<in> set (take LIVE_LIMIT (matches_after cache db f a)). is_ok (row_to_summary r)"
    using assms(3) readable_summary by (auto simp: matches_after_def list_all_iff dest!: in_set_takeD)
  then obtain vs where "map row_to_summary (take LIVE_LIMIT (matches_after cache db f a)) = map Inr vs"
    by (rule collect_all)
  then show ?thesis
    by (simp add: repo_list_since_def Let_def rows collect_results_Inr)
qed

lemma summary_id: "row_to_summary r = Inr s \<Longrightarrow> es_id s = er_id r"
  by (auto simp: row_to_summary_def bind_result_Inr_iff)

lemma summary_ids: "map row_to_summary rows = map Inr items \<Longrightarrow> map es_id items = map er_id rows"
proof (induction rows arbitrary: items)
  case (Cons r rows)
  then show ?case by (cases items) (auto dest: summary_id)
qed simp

lemma max_event_id_max:
  assumes "repo_max_event_id (Some (steady db)) = Inr m" "r \<in> set (db_events db)"
  shows "er_id r \<le> m"
proof -
  obtain x xs where "db_events db = x # xs" using assms(2) by (cases "db_events db") auto
  then have "m = Max (er_id ` set (db_events db))"
    using assms(1) by (simp add: repo_max_event_id_def foldl_max)
  then show ?thesis using assms(2) by simp
qed


section \<open>The detail of an event\<close>

definition same_execution :: "event_row \<Rightarrow> event_row \<Rightarrow> bool" where
  "same_execution r x \<longleftrightarrow> er_session_id x = er_session_id r \<and> er_pid x = er_pid r
     \<and> er_execution_id x = er_execution_id r"

definition exec_in_session :: "event_row \<Rightarrow> event_row \<Rightarrow> bool" where
  "exec_in_session r x \<longleftrightarrow> er_session_id x = er_session_id r \<and> er_event_type x = int_u32 (event_type_as_wire Exec)"

definition chunk_of :: "event_row \<Rightarrow> io_chunk" where
  "chunk_of r = \<lparr>ic_timestamp = er_timestamp r, ic_data = unwrap_or [] (er_data r),
     ic_byte_count = (case er_byte_count r of None \<Rightarrow> 0 | Some n \<Rightarrow> word_of_int n)\<rparr>"

lemma io_values_readable:
  "readable_row r \<Longrightarrow> io_values r =
     Inr (er_timestamp r, map_option word_of_int (er_fd r), er_data r, map_option word_of_int (er_byte_count r))"
  by (simp add: readable_row_def io_values_def get_values)

lemma int_u32_of_int: "u32_range i \<Longrightarrow> int_u32 (word_of_int i) = i"
  by (simp add: u32_range_def int_u32_def uint_word_of_int_eq take_bit_int_eq_self)

lemma word_of_small: "u32_range i \<Longrightarrow> u32_range j \<Longrightarrow> (word_of_int i :: u32) = word_of_int j \<longleftrightarrow> i = j"
  by (metis int_u32_of_int)

lemma fd_is:
  "opt_in u32_range fd \<Longrightarrow> map_option word_of_int fd = Some (0 :: u32) \<longleftrightarrow> fd = Some 0"
  "opt_in u32_range fd \<Longrightarrow> map_option word_of_int fd = Some (1 :: u32) \<longleftrightarrow> fd = Some 1"
  "opt_in u32_range fd \<Longrightarrow> map_option word_of_int fd = Some (2 :: u32) \<longleftrightarrow> fd = Some 2"
  using word_of_small [of _ 0] word_of_small [of _ 1] word_of_small [of _ 2]
  by (cases fd; simp add: opt_in_def u32_range_def)+

lemma add_chunk_readable:
  assumes "readable_row r"
  shows "add_chunk d (er_timestamp r, map_option word_of_int (er_fd r), er_data r, map_option word_of_int (er_byte_count r)) =
     d\<lparr>ed_stdin_data := ed_stdin_data d @ (if er_fd r = Some 0 then [chunk_of r] else []),
       ed_stdout_data := ed_stdout_data d @ (if er_fd r = Some 1 \<or> er_fd r = Some 2 then [chunk_of r] else [])\<rparr>"
proof -
  have fd: "opt_in u32_range (er_fd r)" using assms by (simp add: readable_row_def)
  have c: "unwrap_or (0 :: u64) (map_option word_of_int (er_byte_count r)) = ic_byte_count (chunk_of r)"
    by (cases "er_byte_count r") (simp_all add: chunk_of_def)
  have chunk: "\<lparr>ic_timestamp = er_timestamp r, ic_data = unwrap_or [] (er_data r),
      ic_byte_count = ic_byte_count (chunk_of r)\<rparr> = chunk_of r" by (simp add: chunk_of_def)
  show ?thesis
    unfolding add_chunk_def Let_def prod.case c chunk fd_is [OF fd] by simp
qed

lemma add_chunks_readable:
  "list_all readable_row rs \<Longrightarrow> add_chunks d rs = Inr (d\<lparr>
     ed_stdin_data := ed_stdin_data d @ map chunk_of (filter (\<lambda>r. er_fd r = Some 0) rs),
     ed_stdout_data := ed_stdout_data d @ map chunk_of (filter (\<lambda>r. er_fd r = Some 1 \<or> er_fd r = Some 2) rs)\<rparr>)"
proof (induction rs arbitrary: d)
  case Nil
  show ?case by simp
next
  case (Cons r rs)
  then have r: "readable_row r" and rs: "list_all readable_row rs" by simp_all
  show ?case
    by (simp add: io_values_readable [OF r] add_chunk_readable [OF r] Cons.IH [OF rs] del: Collect_disj_eq)
qed

lemma readable_belongs:
  assumes "readable_row r" "row_to_summary r = Inr s"
  shows "belongs_to s x \<longleftrightarrow> same_execution r x" "int_u32 (es_pid s) = er_pid r" "int_u32 (es_ppid s) = er_ppid r"
    "es_session_id s = er_session_id r"
proof -
  have ranges: "0 \<le> er_execution_id r" "er_execution_id r \<le> I64_MAX" "u32_range (er_pid r)" "u32_range (er_ppid r)"
    "u32_range (er_uid r)" "u32_range (er_euid r)" "opt_in i32_range (er_exit_code r)"
    using assms(1) by (simp_all add: readable_row_def)
  have fields: "es_pid s = word_of_int (er_pid r)" "es_ppid s = word_of_int (er_ppid r)"
    "es_session_id s = er_session_id r" "es_execution_id s = word_of_int (er_execution_id r)"
    using assms(2) by (auto simp: row_to_summary_def get_u64_range [OF ranges(1,2)]
        get_u32_range [OF ranges(3)] get_u32_range [OF ranges(4)] get_u32_range [OF ranges(5)]
        get_u32_range [OF ranges(6)] get_opt_i32 [OF ranges(7)] bind_result_Inr_iff)
  have "uint (word_of_int (er_execution_id r) :: u64) = er_execution_id r"
    using ranges(1,2) unfolding uint_word_of_int_eq by (intro take_bit_int_eq_self) (simp_all add: I64_MAX_def)
  then show "belongs_to s x \<longleftrightarrow> same_execution r x" "int_u32 (es_pid s) = er_pid r"
    "int_u32 (es_ppid s) = er_ppid r" "es_session_id s = er_session_id r"
    unfolding belongs_to_def same_execution_def fields int_u32_of_int [OF ranges(3)] int_u32_of_int [OF ranges(4)]
    by simp_all
qed

lemma detail_summary:
  "readable_row r \<Longrightarrow> row_to_detail r = Inr d \<Longrightarrow>
   row_to_summary r = Inr (ed_summary d) \<and> ed_stdin_data d = [] \<and> ed_stdout_data d = []"
  by (auto simp: readable_row_def row_to_detail_def row_to_summary_def get_values elim!: is_okE)

lemma row_to_detail_id: "row_to_detail r = Inr d \<Longrightarrow> es_id (ed_summary d) = er_id r"
  by (auto simp: row_to_detail_def bind_result_Inr_iff)

lemma add_chunk_summary: "ed_summary (add_chunk d v) = ed_summary d"
  by (cases v) (simp add: add_chunk_def Let_def)

lemma add_chunks_summary: "add_chunks d rs = Inr d' \<Longrightarrow> ed_summary d' = ed_summary d"
  by (induction rs arbitrary: d) (auto simp: bind_result_Inr_iff add_chunk_summary)

lemma detail_id:
  assumes "repo_get_detail pool i = Inr (Some d)"
  shows "es_id (ed_summary d) = i"
proof -
  obtain conn r d0 d1 and db :: database where r: "find (\<lambda>r. er_id r = i) (db_events db) = Some r"
    and "row_to_detail r = Inr d0" "fetch_io_chunks conn d0 = Inr d1" "ed_summary d = ed_summary d1"
    using assms by (auto simp: repo_get_detail_def bind_result_Inr_iff Let_def split: option.splits)
  then have "es_id (ed_summary d) = er_id r"
    by (auto simp: fetch_io_chunks_def bind_result_Inr_iff dest!: add_chunks_summary row_to_detail_id)
  then show ?thesis using r by (simp add: find_Some_iff) blast
qed

lemma child_values:
  "readable_row e \<Longrightarrow> row_to_child conn e = Inr c \<Longrightarrow> cp_id c = er_id e \<and> cp_has_io c = has_io conn e"
  by (auto simp: readable_row_def row_to_child_def get_values)

lemma children_values:
  "list_all readable_row es \<Longrightarrow> map (row_to_child conn) es = map Inr cs \<Longrightarrow>
   map cp_id cs = map er_id es \<and> map cp_has_io cs = map (has_io conn) es"
proof (induction es arbitrary: cs)
  case (Cons e es)
  then show ?case by (cases cs) (auto dest: child_values)
qed simp

lemma find_by_id:
  assumes "wf_database db" "r \<in> set (db_events db)"
  shows "find (\<lambda>x. er_id x = er_id r) (db_events db) = Some r"
proof -
  obtain x where x: "find (\<lambda>x. er_id x = er_id r) (db_events db) = Some x"
    using assms(2) by (cases "find (\<lambda>x. er_id x = er_id r) (db_events db)") (auto simp: find_None_iff)
  then have "x \<in> set (db_events db)" "er_id x = er_id r" unfolding find_Some_iff by auto
  then have "x = r" using wf_ids_distinct [OF assms(1)] assms(2) by (metis distinct_map inj_on_def)
  with x show ?thesis by simp
qed


lemma parent_is_newest:
  assumes "wf_database db"
  shows "case rev (sort_key er_id (filter p (db_events db))) of
      [] \<Rightarrow> filter p (db_events db) = []
    | x # _ \<Rightarrow> er_id x = Max (er_id ` set (filter p (db_events db)))"
proof -
  let ?rows = "filter p (db_events db)"
  have id: "sort_key er_id ?rows = ?rows" using assms by (rule wf_events_sorted)
  show ?thesis
  proof (cases ?rows rule: rev_cases)
    case Nil
    then show ?thesis by (simp add: id)
  next
    case (snoc ys x)
    have "sorted (map er_id ?rows)" by (metis id sorted_sort_key)
    then have "\<forall>i \<in> er_id ` set ?rows. i \<le> er_id x" unfolding snoc by (auto simp: sorted_append)
    moreover have "er_id x \<in> er_id ` set ?rows" unfolding snoc by simp
    ultimately have "Max (er_id ` set ?rows) = er_id x" by (intro Max_eqI) auto
    then show ?thesis unfolding id unfolding snoc by simp
  qed
qed

lemma execution_detail:
  assumes "wf_database db" "list_all readable_row (db_events db)" "r \<in> set (db_events db)"
  shows "\<exists>d. repo_get_detail (Some (steady db)) (er_id r) = Inr (Some d)
    \<and> row_to_summary r = Inr (ed_summary d)
    \<and> ed_stdin_data d = map chunk_of
        (filter (\<lambda>x. same_execution r x \<and> is_io_row x \<and> er_fd x = Some 0) (db_events db))
    \<and> ed_stdout_data d = map chunk_of
        (filter (\<lambda>x. same_execution r x \<and> is_io_row x \<and> (er_fd x = Some 1 \<or> er_fd x = Some 2)) (db_events db))
    \<and> map cp_id (ed_children d) =
        map er_id (filter (\<lambda>e. exec_in_session r e \<and> er_ppid e = er_pid r) (db_events db))
    \<and> map cp_has_io (ed_children d) =
        map (has_io db) (filter (\<lambda>e. exec_in_session r e \<and> er_ppid e = er_pid r) (db_events db))
    \<and> (case ed_parent d of
         None \<Rightarrow> filter (\<lambda>x. exec_in_session r x \<and> er_pid x = er_ppid r) (db_events db) = []
       | Some p \<Rightarrow> pp_id p =
           Max (er_id ` set (filter (\<lambda>x. exec_in_session r x \<and> er_pid x = er_ppid r) (db_events db))))"
proof -
  have r: "readable_row r" using assms(2,3) by (simp add: list_all_iff)
  obtain d0 where d0: "row_to_detail r = Inr d0" using readable_detail [OF r] by (rule is_okE)
  then have sum: "row_to_summary r = Inr (ed_summary d0)" and empty: "ed_stdin_data d0 = []" "ed_stdout_data d0 = []"
    using detail_summary [OF r] by auto
  note own = readable_belongs [OF r sum]
  let ?io = "filter (\<lambda>x. same_execution r x \<and> is_io_row x) (db_events db)"
  define d1 where "d1 = d0\<lparr>ed_stdin_data := map chunk_of (filter (\<lambda>r. er_fd r = Some 0) ?io),
    ed_stdout_data := map chunk_of (filter (\<lambda>r. er_fd r = Some 1 \<or> er_fd r = Some 2) ?io)\<rparr>"
  have "list_all readable_row ?io" using assms(2) by (auto simp: list_all_iff)
  from add_chunks_readable [OF this, of d0] have io: "fetch_io_chunks (steady db) d0 = Inr d1"
    unfolding fetch_io_chunks_def run_query_steady bind_result_simps wf_events_sorted [OF assms(1)] own(1) empty d1_def by simp
  have d1: "ed_summary d1 = ed_summary d0" and d2: "ed_summary (d1\<lparr>ed_children := cs\<rparr>) = ed_summary d0" for cs
    by (simp_all add: d1_def)
  let ?ch = "filter (\<lambda>e. exec_in_session r e \<and> er_ppid e = er_pid r) (db_events db)"
  have ch_rows: "filter (\<lambda>e. er_session_id e = es_session_id (ed_summary d1) \<and> er_ppid e = int_u32 (es_pid (ed_summary d1))
      \<and> er_event_type e = int_u32 (event_type_as_wire Exec)) (db_events db) = ?ch"
    by (rule filter_cong) (auto simp: own d1 d2 exec_in_session_def)
  have ch_ok: "list_all readable_row ?ch" using assms(2) by (auto simp: list_all_iff)
  then have "\<forall>e \<in> set ?ch. is_ok (row_to_child db e)" using readable_child by (auto simp: list_all_iff)
  then obtain cs where cs: "map (row_to_child db) ?ch = map Inr cs" by (rule collect_all)
  have children: "fetch_children (steady db) d1 = Inr cs"
    unfolding fetch_children_def run_query_steady bind_result_simps ch_rows wf_events_sorted [OF assms(1)] using cs by (simp only: collect_results_Inr)
  let ?p = "\<lambda>x. exec_in_session r x \<and> er_pid x = er_ppid r"
  define d2 where "d2 = d1\<lparr>ed_children := cs\<rparr>"
  have p_rows: "filter (\<lambda>x. er_session_id x = es_session_id (ed_summary d2) \<and> er_pid x = int_u32 (es_ppid (ed_summary d2))
      \<and> er_event_type x = int_u32 (event_type_as_wire Exec)) (db_events db) = filter ?p (db_events db)"
    by (rule filter_cong) (auto simp: own d2 d2_def exec_in_session_def)
  define q where "q = (case rev (sort_key er_id (filter ?p (db_events db))) of [] \<Rightarrow> None
      | r # _ \<Rightarrow> Some \<lparr>pp_id = er_id r, pp_comm = er_comm r, pp_filename = er_filename r, pp_argv = er_argv r\<rparr>)"
  have q: "fetch_parent (steady db) d2 = Inr q"
    unfolding fetch_parent_def run_query_steady bind_result_simps p_rows q_def ..
  have parent: "case q of None \<Rightarrow> filter ?p (db_events db) = []
      | Some q \<Rightarrow> pp_id q = Max (er_id ` set (filter ?p (db_events db)))"
    using parent_is_newest [OF assms(1), of ?p] unfolding q_def by (auto split: list.splits)
  have "repo_get_detail (Some (steady db)) (er_id r) = Inr (Some (d2\<lparr>ed_parent := q\<rparr>))"
    using q by (simp add: repo_get_detail_def Let_def find_by_id [OF assms(1,3)] d0 io children d2_def)
  with sum parent children_values [OF ch_ok cs] show ?thesis
    by (intro exI [of _ "d2\<lparr>ed_parent := q\<rparr>"]) (simp add: d2_def d1_def conj_ac)
qed

text \<open>
  C30: The detail of a stored event succeeds when the rows are readable and the connection answers every
  query from the database, and consists of the event's
  summary, the captured input and output of exactly its execution (same session, process and execution
  id; descriptor 0 as input, 1 and 2 as output, in order of the event ids), the exec events of the
  session whose parent is the event's process, with whether they have captured data themselves, and the
  newest exec event of the parent process in the session, or none when there is none.
\<close>

theorem detail_collects_execution:
  assumes "wf_database db" "list_all readable_row (db_events db)" "r \<in> set (db_events db)"
  shows "\<exists>d. repo_get_detail (Some (steady db)) (er_id r) = Inr (Some d)
    \<and> row_to_summary r = Inr (ed_summary d)
    \<and> ed_stdin_data d = map chunk_of
        (filter (\<lambda>x. same_execution r x \<and> is_io_row x \<and> er_fd x = Some 0) (db_events db))
    \<and> ed_stdout_data d = map chunk_of
        (filter (\<lambda>x. same_execution r x \<and> is_io_row x \<and> (er_fd x = Some 1 \<or> er_fd x = Some 2)) (db_events db))
    \<and> map cp_id (ed_children d) =
        map er_id (filter (\<lambda>e. exec_in_session r e \<and> er_ppid e = er_pid r) (db_events db))
    \<and> map cp_has_io (ed_children d) =
        map (has_io db) (filter (\<lambda>e. exec_in_session r e \<and> er_ppid e = er_pid r) (db_events db))
    \<and> (case ed_parent d of
         None \<Rightarrow> filter (\<lambda>x. exec_in_session r x \<and> er_pid x = er_ppid r) (db_events db) = []
       | Some p \<Rightarrow> pp_id p =
           Max (er_id ` set (filter (\<lambda>x. exec_in_session r x \<and> er_pid x = er_ppid r) (db_events db))))"
  using assms by (rule execution_detail)

theorem detail_collects_execution_witness:
  "\<exists>d. repo_get_detail (Some (steady sample_web_db)) 1 = Inr (Some d) \<and> es_pid (ed_summary d) = 7 \<and> ed_stdin_data d = []"
proof -
  have "sample_event_row \<in> set (db_events sample_web_db)" by (simp add: sample_web_db_def)
  from detail_collects_execution [OF sample_web_db_ok(1,2) this]
  obtain d where "repo_get_detail (Some (steady sample_web_db)) (er_id sample_event_row) = Inr (Some d)"
    "row_to_summary sample_event_row = Inr (ed_summary d)"
    "ed_stdin_data d = map chunk_of (filter (\<lambda>x. same_execution sample_event_row x \<and> is_io_row x \<and> er_fd x = Some 0)
      (db_events sample_web_db))" by blast
  moreover have "row_to_summary sample_event_row = Inr s \<Longrightarrow> es_pid s = 7" for s
    by (auto simp: row_to_summary_def sample_event_row_def get_u32_def get_u64_def get_opt_def get_event_type_def
        bind_result_Inr_iff)
  ultimately show ?thesis by (intro exI [of _ d]) (simp add: sample_web_db_def sample_event_row_def)
qed

end
