(* ===== verification/Presentation.thy ===== *)
theory Presentation
  imports Repository
begin

text \<open>
  The view models of events, \<open>shspectr-web/src/presentation/web/event.rs\<close>.

  \<open>web_env\<close> holds what these functions call outside the repository: the cached user names, the JSON
  parser for an array of strings (\<open>serde_json\<close>; \<open>None\<close> is its error) and the ANSI converter
  (\<open>ansi_to_html\<close>; \<open>None\<close> is its error). A slice of a string at a byte that does not start a character
  panics: an operation that can panic returns \<open>None\<close> then.
\<close>

record web_env =
  we_passwd :: passwd_cache
  we_json :: "string \<Rightarrow> string list option"
  we_ansi :: "string \<Rightarrow> string option"

section \<open>Strings\<close>

definition EM_DASH :: string where "EM_DASH = [CHR 0xE2, CHR 0x80, CHR 0x94]"
definition ELLIPSIS :: string where "ELLIPSIS = [CHR 0xE2, CHR 0x80, CHR 0xA6]"

definition strip_prefix :: "string \<Rightarrow> string \<Rightarrow> string option" where
  "strip_prefix p s = (if take (length p) s = p then Some (drop (length p) s) else None)"

fun rfind :: "char \<Rightarrow> string \<Rightarrow> nat option" where
  "rfind c [] = None"
| "rfind c (x # xs) =
     (case rfind c xs of Some i \<Rightarrow> Some (Suc i) | None \<Rightarrow> if x = c then Some 0 else None)"

definition is_char_boundary :: "string \<Rightarrow> nat \<Rightarrow> bool" where
  "is_char_boundary s i \<longleftrightarrow> i = 0 \<or> i = length s \<or> (i < length s \<and> \<not> utf8_cont (u8_of_char (s ! i)))"

text \<open>\<open>&s[..n]\<close>.\<close>

definition slice_to :: "nat \<Rightarrow> string \<Rightarrow> string option" where
  "slice_to n s = (if is_char_boundary s n then Some (take n s) else None)"

definition all_digits :: "string \<Rightarrow> bool" where
  "all_digits n \<longleftrightarrow> n \<noteq> [] \<and> list_all is_digit n"

section \<open>Events\<close>

definition exit_code_display :: "i32 option \<Rightarrow> string \<times> string" where
  "exit_code_display code =
     (case code of
        Some c \<Rightarrow> if c = 0 then (''0'', ''text-green-400'') else (dec_int (sint c), ''text-red-400'')
      | None \<Rightarrow> (EM_DASH, ''text-gray-500''))"

definition MAX_ARGS_DISPLAY_LEN :: nat where "MAX_ARGS_DISPLAY_LEN = 40"

definition is_fd_path :: "string \<Rightarrow> bool" where
  "is_fd_path path =
     (case strip_prefix ''/proc/'' path of
        Some rest \<Rightarrow>
          (case map_option snd (split_once (CHR ''/'') rest) of
             None \<Rightarrow> False
           | Some tail \<Rightarrow> (case strip_prefix ''fd/'' tail of None \<Rightarrow> False | Some n \<Rightarrow> all_digits n))
      | None \<Rightarrow>
          (case strip_prefix ''/dev/fd/'' path of
             Some rest \<Rightarrow> all_digits rest
           | None \<Rightarrow> False))"

definition parsed_argv :: "web_env \<Rightarrow> string option \<Rightarrow> string list option" where
  "parsed_argv env argv = (case argv of None \<Rightarrow> None | Some a \<Rightarrow> we_json env a)"

definition parse_argv0 :: "web_env \<Rightarrow> string option \<Rightarrow> string option" where
  "parse_argv0 env argv =
     (case parsed_argv env argv of
        Some (a # _) \<Rightarrow> if a \<noteq> [] then Some a else None
      | _ \<Rightarrow> None)"

definition parse_args_tail :: "web_env \<Rightarrow> event_summary \<Rightarrow> string" where
  "parse_args_tail env s =
     (case parsed_argv env (es_argv s) of
        Some argv \<Rightarrow> if 1 < length argv then str_join '' '' (tl argv) else []
      | None \<Rightarrow> [])"

definition truncate_chars :: "string \<Rightarrow> nat \<Rightarrow> string" where
  "truncate_chars s max_len =
     (if length (str_chars s) \<le> max_len then s
      else concat (take (max_len - 1) (str_chars s)) @ ELLIPSIS)"

record event_summary_view =
  ev_id :: int
  ev_timestamp :: string
  ev_session_id_short :: string
  ev_session_id :: string
  ev_user :: string
  ev_comm :: string
  ev_command_name :: string
  ev_command_dir :: string
  ev_command_args :: string
  ev_command_full :: string
  ev_exit_code :: string
  ev_exit_code_class :: string
  ev_uid :: u32
  ev_exit_code_raw :: "i32 option"

definition nonempty_filename :: "event_summary \<Rightarrow> string option" where
  "nonempty_filename s =
     (case es_filename s of Some f \<Rightarrow> if f \<noteq> [] then Some f else None | None \<Rightarrow> None)"

text \<open>
  The fallback of \<open>full_path\<close> is the text of the column \<open>argv\<close> itself (\<open>.and(s.argv.as_deref())\<close>),
  not the first argument.
\<close>

definition display_path :: "web_env \<Rightarrow> event_summary \<Rightarrow> string" where
  "display_path env s =
     (case nonempty_filename s of
        Some f \<Rightarrow> f
      | None \<Rightarrow> (case parse_argv0 env (es_argv s) of None \<Rightarrow> [] | Some _ \<Rightarrow> unwrap_or [] (es_argv s)))"

definition command_parts :: "web_env \<Rightarrow> string \<Rightarrow> event_summary \<Rightarrow> string \<times> string" where
  "command_parts env comm s =
     (if (case nonempty_filename s of None \<Rightarrow> False | Some f \<Rightarrow> is_fd_path f)
      then (unwrap_or [] (nonempty_filename s),
            (case parse_argv0 env (es_argv s) of
               None \<Rightarrow> comm
             | Some a \<Rightarrow> last (str_split (CHR ''/'') a)))
      else let full_path = display_path env s
           in case rfind (CHR ''/'') full_path of
                Some i \<Rightarrow> (take i full_path @ ''/'', drop (i + 1) full_path)
              | None \<Rightarrow> ([], if full_path = [] then comm else full_path))"

definition event_summary_view_from :: "web_env \<Rightarrow> event_summary \<Rightarrow> event_summary_view option" where
  "event_summary_view_from env s =
     (let comm = unwrap_or EM_DASH (es_comm s);
          (command_dir, command_name) = command_parts env comm s;
          command_args = truncate_chars (parse_args_tail env s) MAX_ARGS_DISPLAY_LEN;
          command_full = (if command_args = [] then command_name else command_name @ '' '' @ command_args);
          (exit_code, exit_code_class) = exit_code_display (es_exit_code s)
      in map_option (\<lambda>session_id_short.
           \<lparr>ev_id = es_id s, ev_timestamp = hd (str_split (CHR ''.'') (es_timestamp s)),
            ev_session_id_short = session_id_short, ev_session_id = es_session_id s,
            ev_user = resolve_uid (we_passwd env) (es_uid s), ev_comm = comm,
            ev_command_name = command_name, ev_command_dir = command_dir,
            ev_command_args = command_args, ev_command_full = command_full,
            ev_exit_code = exit_code, ev_exit_code_class = exit_code_class, ev_uid = es_uid s,
            ev_exit_code_raw = es_exit_code s\<rparr>)
         (if 10 < length (es_session_id s)
          then map_option (\<lambda>p. p @ ELLIPSIS) (slice_to 10 (es_session_id s))
          else Some (es_session_id s)))"

section \<open>Details\<close>

text \<open>The first of: the parsed arguments, the file, the name.\<close>

definition joined_argv :: "web_env \<Rightarrow> string option \<Rightarrow> string option" where
  "joined_argv env argv =
     (case parsed_argv env argv of
        Some a \<Rightarrow> if a \<noteq> [] then Some (str_join '' '' a) else None
      | None \<Rightarrow> None)"

definition build_command_string :: "web_env \<Rightarrow> event_summary \<Rightarrow> string" where
  "build_command_string env s =
     (case joined_argv env (es_argv s) of Some c \<Rightarrow> c
      | None \<Rightarrow> (case es_filename s of Some f \<Rightarrow> f | None \<Rightarrow> unwrap_or [] (es_comm s)))"

definition build_child_command_string :: "web_env \<Rightarrow> child_process \<Rightarrow> string" where
  "build_child_command_string env c =
     (case joined_argv env (cp_argv c) of Some s \<Rightarrow> s
      | None \<Rightarrow> (case cp_filename c of Some f \<Rightarrow> f | None \<Rightarrow> unwrap_or [] (cp_comm c)))"

record child_process_view =
  cv_id :: int
  cv_pid :: u32
  cv_command :: string
  cv_exit_code :: string
  cv_exit_code_class :: string
  cv_has_io :: bool

record parent_process_view =
  pv_id :: int
  pv_command :: string

definition child_process_view_from :: "web_env \<Rightarrow> child_process \<Rightarrow> child_process_view" where
  "child_process_view_from env c =
     (let (exit_code, exit_code_class) = exit_code_display (cp_exit_code c)
      in \<lparr>cv_id = cp_id c, cv_pid = cp_pid c, cv_command = build_child_command_string env c,
          cv_exit_code = exit_code, cv_exit_code_class = exit_code_class, cv_has_io = cp_has_io c\<rparr>)"

definition parent_process_view_from :: "web_env \<Rightarrow> parent_process \<Rightarrow> parent_process_view" where
  "parent_process_view_from env p =
     \<lparr>pv_id = pp_id p,
      pv_command = (case joined_argv env (pp_argv p) of Some c \<Rightarrow> c
        | None \<Rightarrow> (case pp_filename p of Some f \<Rightarrow> f | None \<Rightarrow> unwrap_or [] (pp_comm p)))\<rparr>"

definition html_escape :: "string \<Rightarrow> string" where
  "html_escape raw =
     str_replace (CHR ''>'') ''&gt;'' (str_replace (CHR ''<'') ''&lt;'' (str_replace (CHR ''&'') ''&amp;'' raw))"

definition ansi_to_html :: "web_env \<Rightarrow> string \<Rightarrow> string" where
  "ansi_to_html env raw = (case we_ansi env raw of Some html \<Rightarrow> html | None \<Rightarrow> html_escape raw)"

definition tty_display :: "u32 option \<Rightarrow> string" where
  "tty_display tty_nr =
     (case tty_nr of
        Some nr \<Rightarrow>
          if 0 < nr
          then (let major = drop_bit 8 nr AND 0xFF; minor = nr AND 0xFF
                in if major = 136 then ''pts/'' @ dec (unat minor)
                   else dec (unat major) @ ''/'' @ dec (unat minor))
          else EM_DASH
      | None \<Rightarrow> EM_DASH)"

record event_detail_view =
  dv_id :: int
  dv_session_id :: string
  dv_pid :: string
  dv_ppid :: string
  dv_uid :: string
  dv_euid :: string
  dv_gid :: string
  dv_tty :: string
  dv_full_command :: string
  dv_event_type :: event_type
  dv_timestamp :: string
  dv_exit_code :: string
  dv_has_stdin :: bool
  dv_stdin_html :: string
  dv_stdin_bytes :: u64
  dv_has_stdout :: bool
  dv_stdout_html :: string
  dv_stdout_bytes :: u64
  dv_uid_raw :: u32
  dv_euid_raw :: u32
  dv_tty_nr_raw :: "u32 option"
  dv_exit_code_raw :: "i32 option"
  dv_children :: "child_process_view list"
  dv_parent :: "parent_process_view option"

definition named_uid :: "web_env \<Rightarrow> u32 \<Rightarrow> string" where
  "named_uid env uid = resolve_uid (we_passwd env) uid @ '' ('' @ dec (unat uid) @ '')''"

definition chunks_text :: "io_chunk list \<Rightarrow> string" where
  "chunks_text cs = concat (map ic_data cs)"

text \<open>The sum of the byte counts wraps at 64 bits (in a debug build it panics instead).\<close>

definition event_detail_view_from :: "web_env \<Rightarrow> event_detail \<Rightarrow> event_detail_view" where
  "event_detail_view_from env d =
     (let s = ed_summary d
      in \<lparr>dv_id = es_id s, dv_session_id = es_session_id s, dv_pid = dec (unat (es_pid s)),
          dv_ppid = dec (unat (es_ppid s)), dv_uid = named_uid env (es_uid s),
          dv_euid = named_uid env (es_euid s), dv_gid = dec (unat (ed_gid d)),
          dv_tty = tty_display (ed_tty_nr d), dv_full_command = build_command_string env s,
          dv_event_type = es_event_type s, dv_timestamp = es_timestamp s,
          dv_exit_code = (case es_exit_code s of None \<Rightarrow> EM_DASH | Some c \<Rightarrow> dec_int (sint c)),
          dv_has_stdin = (ed_stdin_data d \<noteq> []),
          dv_stdin_html = ansi_to_html env (chunks_text (ed_stdin_data d)),
          dv_stdin_bytes = sum_list (map ic_byte_count (ed_stdin_data d)),
          dv_has_stdout = (ed_stdout_data d \<noteq> []),
          dv_stdout_html = ansi_to_html env (chunks_text (ed_stdout_data d)),
          dv_stdout_bytes = sum_list (map ic_byte_count (ed_stdout_data d)),
          dv_uid_raw = es_uid s, dv_euid_raw = es_euid s,
          dv_tty_nr_raw = (case ed_tty_nr d of Some nr \<Rightarrow> if 0 < nr then Some nr else None | None \<Rightarrow> None),
          dv_exit_code_raw = es_exit_code s,
          dv_children = map (child_process_view_from env) (ed_children d),
          dv_parent = map_option (parent_process_view_from env) (ed_parent d)\<rparr>)"


section \<open>Facts\<close>

lemma rfind_None: "rfind c s = None \<longleftrightarrow> c \<notin> set s"
proof (induction s)
  case (Cons x s)
  then show ?case by (cases "rfind c s") auto
qed simp

lemma rfind_Some: "rfind c s = Some i \<Longrightarrow> i < length s \<and> s ! i = c \<and> c \<notin> set (drop (Suc i) s)"
  by (induction s arbitrary: i) (auto simp: rfind_None split: option.splits if_splits)

lemma rfind_split:
  assumes "rfind c s = Some i"
  shows "(take i s @ [c]) @ drop (i + 1) s = s"
  using rfind_Some [OF assms] id_take_nth_drop [of i s] by simp

lemma ellipsis_char: "str_chars ELLIPSIS = [ELLIPSIS]"
  by (simp add: ELLIPSIS_def str_chars.simps(2) utf8_head_def u8_of_char_def utf8_second3_def utf8_cont_def)

lemma str_chars_prefix:
  "valid_string s \<Longrightarrow> str_chars (concat (take n (str_chars s)) @ t) = take n (str_chars s) @ str_chars t"
proof (induction s arbitrary: n rule: length_induct)
  case (1 s)
  show ?case
  proof (cases s)
    case Nil
    then show ?thesis by simp
  next
    case (Cons c cs)
    with 1 obtain k where k: "utf8_head (u8_of_char c) (bytes_of cs) = (k, True)"
      "valid_string (drop (k - 1) cs)" "str_chars (c # cs) = take k (c # cs) # str_chars (drop (k - 1) cs)"
      by (metis valid_string_Cons)
    show ?thesis
    proof (cases n)
      case 0
      then show ?thesis by simp
    next
      case (Suc m)
      have "str_chars (concat (take m (str_chars (drop (k - 1) cs))) @ t) =
          take m (str_chars (drop (k - 1) cs)) @ str_chars t"
        using 1(1) k(2) Cons by (metis diff_less_Suc length_Cons length_drop)
      then show ?thesis
        using char_then(1) [OF k(1)] unfolding Cons Suc k(3) by simp
    qed
  qed
qed

lemma truncate_bound:
  assumes "valid_string s" "0 < n"
  shows "length (str_chars (truncate_chars s n)) \<le> n"
  using assms str_chars_prefix [OF assms(1)] by (simp add: truncate_chars_def ellipsis_char)

lemma ascii_boundary: "ascii s \<Longrightarrow> i \<le> length s \<Longrightarrow> is_char_boundary s i"
proof -
  assume "ascii s" "i \<le> length s"
  then have "i < length s \<Longrightarrow> u8_of_char (s ! i) < 128" by (simp add: ascii_def list_all_length)
  then show "is_char_boundary s i"
    using \<open>i \<le> length s\<close> utf8_cont_high [of "u8_of_char (s ! i)"] by (auto simp: is_char_boundary_def)
qed

lemma html_escape_bytes:
  "html_escape s = concat (map (\<lambda>c. if c = CHR ''&'' then ''&amp;'' else if c = CHR ''<'' then ''&lt;''
     else if c = CHR ''>'' then ''&gt;'' else [c]) s)"
  unfolding html_escape_def by (induction s) auto

lemma html_escape_safe: "CHR ''<'' \<notin> set (html_escape s)" "CHR ''>'' \<notin> set (html_escape s)"
  by (auto simp: html_escape_bytes split: if_splits)


lemma valid_session_id_ascii: "session_id_is_valid sid \<Longrightarrow> ascii sid \<and> length sid = 11"
proof -
  assume v: "session_id_is_valid sid"
  let ?rest = "drop (length SESSION_ID_PREFIX) sid"
  have "ascii c" if "c \<in> set (str_chars ?rest)" for c
  proof -
    have "is_ascii_alphanumeric c" using v that by (simp add: session_id_is_valid_def list_all_iff)
    then show ?thesis
      by (auto simp: is_ascii_alphanumeric_def Let_def word_le_nat_alt word_less_nat_alt split: list.splits)
  qed
  moreover have "(\<And>c. c \<in> set cs \<Longrightarrow> ascii c) \<Longrightarrow> ascii (concat cs)" for cs
    by (induction cs) auto
  ultimately have "ascii (concat (str_chars ?rest))" by blast
  then have "ascii ?rest" by (simp only: concat_str_chars)
  moreover have "ascii (take (length SESSION_ID_PREFIX) sid)"
    using v by (simp add: session_id_is_valid_def SESSION_ID_PREFIX_def u8_of_char_def)
  ultimately have "ascii sid" by (metis append_take_drop_id ascii_append)
  with v show ?thesis by (simp add: session_id_is_valid_def SESSION_ID_PREFIX_def SESSION_ID_SUFFIX_LEN_def)
qed

text \<open>
  The row of an event whose session id is well-formed is always displayable (no slice panics). Its
  directory and name together are the executed file when that has a directory and is no descriptor path,
  the name having no slash; its arguments take at most 40 characters.
\<close>

lemma event_row_view:
  assumes "session_id_is_valid (es_session_id s)" "es_filename s = Some f" "CHR ''/'' \<in> set f" "\<not> is_fd_path f"
    "valid_string (parse_args_tail env s)"
  shows "\<exists>v. event_summary_view_from env s = Some v
    \<and> ev_command_dir v @ ev_command_name v = f \<and> CHR ''/'' \<notin> set (ev_command_name v)
    \<and> length (str_chars (ev_command_args v)) \<le> MAX_ARGS_DISPLAY_LEN
    \<and> ev_session_id v = es_session_id s \<and> ev_session_id_short v = take 10 (es_session_id s) @ ELLIPSIS"
proof -
  have sid: "ascii (es_session_id s)" "length (es_session_id s) = 11"
    using valid_session_id_ascii [OF assms(1)] by auto
  then have slice: "slice_to 10 (es_session_id s) = Some (take 10 (es_session_id s))"
    by (simp add: slice_to_def ascii_boundary)
  have ne: "f \<noteq> []" using assms(3) by auto
  obtain i where i: "rfind (CHR ''/'') f = Some i"
    using assms(3) rfind_None [of "CHR ''/''" f] by (cases "rfind (CHR ''/'') f") auto
  have parts: "command_parts env c s = (take i f @ ''/'', drop (i + 1) f)" for c
    using assms(2,4) ne i by (simp add: command_parts_def nonempty_filename_def display_path_def)
  have args: "length (str_chars (truncate_chars (parse_args_tail env s) MAX_ARGS_DISPLAY_LEN)) \<le> MAX_ARGS_DISPLAY_LEN"
    using assms(5) by (intro truncate_bound) (simp_all add: MAX_ARGS_DISPLAY_LEN_def)
  show ?thesis
    using slice sid(2) args rfind_split [OF i] rfind_Some [OF i]
    by (simp add: event_summary_view_from_def Let_def parts split_beta)
qed

definition sample_web_env :: web_env where
  "sample_web_env = \<lparr>we_passwd = [(0, ''root'')], we_json = (\<lambda>s. if s = ''[]'' then Some [] else None),
     we_ansi = (\<lambda>_. None)\<rparr>"

definition sample_summary :: event_summary where
  "sample_summary = \<lparr>es_id = 1, es_timestamp = ''2024-01-01 00:00:00'', es_session_id = ''ox_k7m3qx9p'',
     es_event_type = Exec, es_execution_id = 42, es_pid = 7, es_ppid = 1, es_uid = 0, es_euid = 0,
     es_comm = Some ''sh'', es_filename = Some ''/bin/ls'', es_argv = Some ''[]'', es_exit_code = None\<rparr>"

theorem event_row_view_witness:
  "\<exists>v. event_summary_view_from sample_web_env sample_summary = Some v
     \<and> ev_command_dir v @ ev_command_name v = ''/bin/ls'' \<and> ev_session_id_short v = ''ox_k7m3qx9'' @ ELLIPSIS"
proof -
  have "str_chars ''k7m3qx9p'' = map (\<lambda>c. [c]) ''k7m3qx9p''" by (intro str_chars_ascii) (simp add: u8_of_char_def)
  then have "session_id_is_valid (es_session_id sample_summary)"
    by (simp add: sample_summary_def session_id_is_valid_def SESSION_ID_PREFIX_def SESSION_ID_SUFFIX_LEN_def
        is_ascii_alphanumeric_def Let_def u8_of_char_def)
  moreover have "\<not> is_fd_path ''/bin/ls''" by (simp add: is_fd_path_def strip_prefix_def)
  moreover have "valid_string (parse_args_tail sample_web_env sample_summary)"
    by (simp add: parse_args_tail_def parsed_argv_def sample_summary_def sample_web_env_def valid_string_def)
  ultimately show ?thesis
    using event_row_view [of sample_summary "''/bin/ls''" sample_web_env] by (auto simp: sample_summary_def)
qed

text \<open>A well-formed session id is 11 bytes long, so the short form drops its last character.\<close>

lemma short_session_id_differs:
  assumes "session_id_is_valid sid" "event_summary_view_from env (s\<lparr>es_session_id := sid\<rparr>) = Some v"
  shows "ev_session_id_short v = butlast sid @ ELLIPSIS"
proof -
  have sid: "ascii sid" "length sid = 11" using valid_session_id_ascii [OF assms(1)] by auto
  then have "slice_to 10 sid = Some (take 10 sid)" by (simp add: slice_to_def ascii_boundary)
  with assms(2) sid(2) show ?thesis
    by (auto simp: event_summary_view_from_def Let_def split_beta butlast_conv_take)
qed

text \<open>
  When the ANSI conversion fails, the captured output that the detail shows is harmless: it contains
  no angle bracket and is the raw text with each special character replaced by its entity.
\<close>

lemma failed_conversion_is_escaped:
  assumes "we_ansi env (chunks_text (ed_stdout_data d)) = None"
  shows "CHR ''<'' \<notin> set (dv_stdout_html (event_detail_view_from env d))
    \<and> CHR ''>'' \<notin> set (dv_stdout_html (event_detail_view_from env d))
    \<and> dv_stdout_html (event_detail_view_from env d) =
        concat (map (\<lambda>c. if c = CHR ''&'' then ''&amp;'' else if c = CHR ''<'' then ''&lt;''
          else if c = CHR ''>'' then ''&gt;'' else [c]) (concat (map ic_data (ed_stdout_data d))))"
  using assms html_escape_safe
  by (simp add: event_detail_view_from_def Let_def ansi_to_html_def chunks_text_def html_escape_bytes)

theorem failed_conversion_is_escaped_witness:
  "\<exists>d. map ic_data (ed_stdout_data d) = [''<b>''] \<and>
     dv_stdout_html (event_detail_view_from sample_web_env d) = ''&lt;b&gt;''"
proof -
  define d where "d = \<lparr>ed_summary = sample_summary, ed_gid = 0, ed_tty_nr = None, ed_fd = None, ed_data = None,
    ed_data_len = None, ed_byte_count = None, ed_stdin_data = [],
    ed_stdout_data = [\<lparr>ic_timestamp = [], ic_data = ''<b>'', ic_byte_count = 3\<rparr>], ed_children = [], ed_parent = None\<rparr>"
  have "we_ansi sample_web_env (chunks_text (ed_stdout_data d)) = None" by (simp add: sample_web_env_def)
  from failed_conversion_is_escaped [OF this] show ?thesis
    by (intro exI [of _ d]) (simp add: d_def)
qed

end
