(* ===== verification/ListView.thy ===== *)
theory ListView
  imports Presentation
begin

text \<open>
  The list views of \<open>shspectr-web/src/presentation/web/listing.rs\<close>: a page as the templates show it,
  and the URLs for paging and sorting. The web framework decodes a query string as
  \<open>application/x-www-form-urlencoded\<close>; \<open>url_params\<close> is that documented decoding.
\<close>

section \<open>Pages\<close>

record paginated =
  pn_items :: "event_summary_view list"
  pn_page :: u32
  pn_page_size :: u32
  pn_total_items :: u64
  pn_total_pages :: u32
  pn_has_prev :: bool
  pn_has_next :: bool
  pn_warnings :: "string list"

fun map_views :: "web_env \<Rightarrow> event_summary list \<Rightarrow> event_summary_view list option" where
  "map_views env [] = Some []"
| "map_views env (s # ss) =
     (case event_summary_view_from env s of
        None \<Rightarrow> None
      | Some v \<Rightarrow> map_option (\<lambda>vs. v # vs) (map_views env ss))"

definition paginated_from :: "web_env \<Rightarrow> event_summary page \<Rightarrow> paginated option" where
  "paginated_from env p =
     map_option (\<lambda>items.
       \<lparr>pn_items = items, pn_page = pg_page p, pn_page_size = pg_page_size p,
        pn_total_items = pg_total_items p, pn_total_pages = total_pages p, pn_has_prev = page_has_prev p,
        pn_has_next = page_has_next p, pn_warnings = []\<rparr>)
       (map_views env (pg_items p))"

definition from_page_with_warnings :: "web_env \<Rightarrow> event_summary page \<Rightarrow> string list \<Rightarrow> paginated option" where
  "from_page_with_warnings env p warnings =
     map_option (\<lambda>v. v\<lparr>pn_warnings := warnings\<rparr>) (paginated_from env p)"

section \<open>Navigation\<close>

record list_navigator =
  ln_query :: string
  ln_sort :: event_sort_key
  ln_direction :: sort_direction
  ln_page_size :: u32

definition list_navigator_new :: "event_filter \<Rightarrow> event_sort_key \<Rightarrow> sort_direction \<Rightarrow> u32 \<Rightarrow> list_navigator" where
  "list_navigator_new f sort_by direction page_size =
     \<lparr>ln_query = unwrap_or [] (f_raw f), ln_sort = sort_by, ln_direction = direction, ln_page_size = page_size\<rparr>"

definition urlencoded :: "string \<Rightarrow> string" where
  "urlencoded s =
     str_replace (CHR ''#'') ''%23'' (str_replace (CHR ''='') ''%3D'' (str_replace (CHR ''&'') ''%26''
       (str_replace (CHR '' '') ''%20'' (str_replace (CHR ''%'') ''%25'' s))))"

definition page_url :: "list_navigator \<Rightarrow> u32 \<Rightarrow> string" where
  "page_url nav n =
     ''/api/v1/events?page='' @ dec (unat n) @ ''&page_size='' @ dec (unat (ln_page_size nav))
       @ ''&sort='' @ sort_key_display (ln_sort nav) @ ''&dir='' @ direction_display (ln_direction nav)
       @ ''&q='' @ urlencoded (ln_query nav)"

definition sort_url :: "list_navigator \<Rightarrow> event_sort_key \<Rightarrow> string" where
  "sort_url nav key =
     (let dir = (if key = ln_sort nav then direction_toggle (ln_direction nav) else Desc)
      in ''/api/v1/events?page=1&page_size='' @ dec (unat (ln_page_size nav))
           @ ''&sort='' @ sort_key_display key @ ''&dir='' @ direction_display dir
           @ ''&q='' @ urlencoded (ln_query nav))"

definition sort_indicator :: "list_navigator \<Rightarrow> event_sort_key \<Rightarrow> string" where
  "sort_indicator nav key =
     (if key = ln_sort nav
      then (case ln_direction nav of
              Asc \<Rightarrow> [CHR '' '', CHR 0xE2, CHR 0x96, CHR 0xB2]
            | Desc \<Rightarrow> [CHR '' '', CHR 0xE2, CHR 0x96, CHR 0xBC])
      else [])"

text \<open>The columns of the template.\<close>

definition sort_url_timestamp :: "list_navigator \<Rightarrow> string" where
  "sort_url_timestamp nav = sort_url nav Timestamp"

definition sort_url_comm :: "list_navigator \<Rightarrow> string" where
  "sort_url_comm nav = sort_url nav Comm"

definition sort_url_exit_code :: "list_navigator \<Rightarrow> string" where
  "sort_url_exit_code nav = sort_url nav ExitCode"

definition sort_indicator_timestamp :: "list_navigator \<Rightarrow> string" where
  "sort_indicator_timestamp nav = sort_indicator nav Timestamp"

definition sort_indicator_comm :: "list_navigator \<Rightarrow> string" where
  "sort_indicator_comm nav = sort_indicator nav Comm"

definition sort_indicator_exit_code :: "list_navigator \<Rightarrow> string" where
  "sort_indicator_exit_code nav = sort_indicator nav ExitCode"

section \<open>Decoding a query string\<close>

definition hex_val :: "char \<Rightarrow> nat option" where
  "hex_val c =
     (let b = unat (u8_of_char c)
      in if 48 \<le> b \<and> b \<le> 57 then Some (b - 48)
         else if 65 \<le> b \<and> b \<le> 70 then Some (b - 55)
         else if 97 \<le> b \<and> b \<le> 102 then Some (b - 87) else None)"

fun url_decode :: "string \<Rightarrow> string" where
  "url_decode [] = []"
| "url_decode (c # cs) =
     (if c = CHR ''+'' then CHR '' '' # url_decode cs
      else if c = CHR ''%'' then
        (case cs of
           a # b # rest \<Rightarrow>
             (case (hex_val a, hex_val b) of
                (Some h, Some l) \<Rightarrow> char_of (16 * h + l) # url_decode rest
              | _ \<Rightarrow> c # url_decode cs)
         | _ \<Rightarrow> c # url_decode cs)
      else c # url_decode cs)"

declare url_decode.simps(2) [simp del]

definition url_param :: "string \<Rightarrow> string \<times> string" where
  "url_param s =
     (case split_once (CHR ''='') s of
        None \<Rightarrow> (url_decode s, [])
      | Some (k, v) \<Rightarrow> (url_decode k, url_decode v))"

definition url_params :: "string \<Rightarrow> (string \<times> string) list" where
  "url_params url =
     (case split_once (CHR ''?'') url of
        None \<Rightarrow> []
      | Some (_, query) \<Rightarrow> map url_param (str_split (CHR ''&'') query))"

section \<open>The encoding is undone\<close>

definition url_byte :: "char \<Rightarrow> string" where
  "url_byte c =
     (if c = CHR ''%'' then ''%25'' else if c = CHR '' '' then ''%20'' else if c = CHR ''&'' then ''%26''
      else if c = CHR ''='' then ''%3D'' else if c = CHR ''#'' then ''%23'' else [c])"

lemma urlencoded_bytes: "urlencoded s = concat (map url_byte s)"
  unfolding urlencoded_def by (induction s) (auto simp: url_byte_def)

lemma url_decode_plain:
  "c \<noteq> CHR ''+'' \<Longrightarrow> c \<noteq> CHR ''%'' \<Longrightarrow> url_decode (c # cs) = c # url_decode cs"
  by (simp add: url_decode.simps(2))

lemma hex_vals [simp]:
  "hex_val (CHR ''2'') = Some 2" "hex_val (CHR ''5'') = Some 5" "hex_val (CHR ''0'') = Some 0"
  "hex_val (CHR ''6'') = Some 6" "hex_val (CHR ''3'') = Some 3" "hex_val (CHR ''D'') = Some 13"
  by (simp_all add: hex_val_def u8_of_char_def)

lemma char_codes: "char_of (37 :: nat) = CHR ''%''" "char_of (32 :: nat) = CHR '' ''"
  "char_of (38 :: nat) = CHR ''&''" "char_of (61 :: nat) = CHR ''=''" "char_of (35 :: nat) = CHR ''#''"
  by code_simp+

lemma url_decode_byte: "c \<noteq> CHR ''+'' \<Longrightarrow> url_decode (url_byte c @ s) = c # url_decode s"
  by (simp add: url_byte_def url_decode.simps(2) char_codes)

lemma url_decode_encoded: "CHR ''+'' \<notin> set s \<Longrightarrow> url_decode (urlencoded s) = s"
  unfolding urlencoded_bytes by (induction s) (auto simp: url_decode_byte)

lemma url_decode_id: "CHR ''+'' \<notin> set s \<Longrightarrow> CHR ''%'' \<notin> set s \<Longrightarrow> url_decode s = s"
  by (induction s) (auto simp: url_decode_plain)

lemma urlencoded_clean: "CHR ''&'' \<notin> set (urlencoded s)" "CHR ''='' \<notin> set (urlencoded s)"
  by (auto simp: urlencoded_bytes url_byte_def split: if_splits)

lemma dec_clean: "c \<in> set (dec n) \<Longrightarrow> is_digit c"
  using dec_facts [of n] by (auto simp: list_all_iff)

lemma dec_no: "\<not> is_digit c \<Longrightarrow> c \<notin> set (dec n)"
  using dec_clean by blast

lemma not_digits: "\<not> is_digit (CHR ''&'')" "\<not> is_digit (CHR ''='')" "\<not> is_digit (CHR ''+'')" "\<not> is_digit (CHR ''%'')"
  by (simp_all add: is_digit_def u8_of_char_def)

lemma str_split_cat:
  "c \<notin> set s \<Longrightarrow> str_split c (s @ c # t) = s # str_split c t"
  by (induction s) auto

lemma url_param_field:
  "CHR ''='' \<notin> set k \<Longrightarrow> url_param (k @ CHR ''='' # v) = (url_decode k, url_decode v)"
  by (simp add: url_param_def split_once_Some [THEN iffD2])


section \<open>Following a link\<close>

lemma char_alone:
  assumes "valid_string s" "ch \<in> set (str_chars s)"
  shows "str_chars ch = [ch]"
  using assms
proof (induction s rule: length_induct)
  case (1 s)
  show ?case
  proof (cases s)
    case Nil
    with 1 show ?thesis by simp
  next
    case (Cons c cs)
    with 1 obtain n where n: "utf8_head (u8_of_char c) (bytes_of cs) = (n, True)"
      "valid_string (drop (n - 1) cs)" "str_chars (c # cs) = take n (c # cs) # str_chars (drop (n - 1) cs)"
      by (metis valid_string_Cons)
    have "str_chars (take n (c # cs)) = [take n (c # cs)]" using char_then(1) [OF n(1), of "[]"] by simp
    moreover have "str_chars ch = [ch]" if "ch \<in> set (str_chars (drop (n - 1) cs))"
      using 1(1) that n(2) Cons by (metis diff_less_Suc length_Cons length_drop)
    ultimately show ?thesis using 1(3) n(3) Cons by auto
  qed
qed

lemma str_chars_of_chars:
  assumes "valid_string s"
  shows "set chs \<subseteq> set (str_chars s) \<Longrightarrow> str_chars (concat chs) = chs \<and> valid_string (concat chs)"
proof (induction chs)
  case Nil
  show ?case by (simp add: valid_string_def)
next
  case (Cons ch chs)
  then have "ch \<in> set (str_chars s)" by simp
  then have "valid_string ch" "str_chars ch = [ch]"
    using assms by (auto intro: valid_str_chars char_alone)
  with Cons show ?case by (simp add: str_chars_append valid_string_append)
qed

lemma trim_chars_subset: "set (trim_chars cs) \<subseteq> set cs"
proof -
  have "set (dropWhile P xs) \<subseteq> set xs" for P and xs :: "string list" by (meson set_dropWhileD subsetI)
  then show ?thesis unfolding trim_chars_def by (metis order_trans set_rev)
qed

lemma trim_chars_idem: "trim_chars (trim_chars cs) = trim_chars cs"
proof -
  let ?b = "rev (dropWhile is_white (rev (dropWhile is_white cs)))"
  have "dropWhile is_white ?b = ?b"
  proof (cases ?b)
    case Nil
    then show ?thesis unfolding Nil by simp
  next
    case (Cons b bs)
    have "dropWhile is_white cs = ?b @ rev (takeWhile is_white (rev (dropWhile is_white cs)))"
      by (metis rev_append rev_rev_ident takeWhile_dropWhile_id)
    then have *: "dropWhile is_white cs = b # bs @ rev (takeWhile is_white (rev (dropWhile is_white cs)))"
      unfolding Cons by simp
    then have "dropWhile is_white cs \<noteq> []" by (metis list.discI)
    then have "\<not> is_white (hd (dropWhile is_white cs))" by (rule hd_dropWhile)
    then have "\<not> is_white b" by (subst (asm) *) simp
    then show ?thesis unfolding Cons by simp
  qed
  then show ?thesis unfolding trim_chars_def by (simp add: dropWhile_idem)
qed

lemma str_trim_idem: "valid_string s \<Longrightarrow> str_trim (str_trim s) = str_trim s"
  using str_chars_of_chars [OF _ trim_chars_subset, of s] by (simp add: str_trim_def trim_chars_idem)

lemma parse_trimmed: "valid_string q \<Longrightarrow> event_filter_parse (str_trim q) = event_filter_parse q"
  by (simp add: event_filter_parse_def str_trim_idem)

lemma raw_is_trimmed: "unwrap_or [] (f_raw (event_filter_parse q)) = str_trim q"
proof (cases "str_trim q = []")
  case True
  then show ?thesis by (simp add: event_filter_parse_def event_filter_default_def)
next
  case False
  obtain f ws where st: "foldl parse_token (event_filter_default\<lparr>f_raw := Some (str_trim q)\<rparr>, [])
      (split_whitespace (str_trim q)) = (f, ws)" by (metis prod.collapse)
  then have "f_raw f = Some (str_trim q)"
    using parse_tokens_words [of "event_filter_default\<lparr>f_raw := Some (str_trim q)\<rparr>" "[]"
        "split_whitespace (str_trim q)"] by simp
  with False st show ?thesis by (simp add: event_filter_parse_def Let_def)
qed

text \<open>The strings of a filter parsed from a string are strings.\<close>

lemma split_words_in: "w \<in> set (split_words cs) \<Longrightarrow> \<exists>chs. w = concat chs \<and> set chs \<subseteq> set cs"
proof (induction cs rule: split_words.induct)
  case (1 cs)
  show ?case
  proof (cases "dropWhile is_white cs")
    case Nil
    with 1(2) show ?thesis by (simp add: split_words.simps [of cs])
  next
    case (Cons c cs')
    have cs: "set (c # cs') \<subseteq> set cs" using Cons by (metis set_dropWhileD subsetI)
    have sub: "set (c # takeWhile P cs') \<subseteq> set cs" "set (dropWhile P cs') \<subseteq> set cs" for P
      using cs by (auto dest: set_takeWhileD set_dropWhileD)
    consider (word) "w = concat (c # takeWhile (\<lambda>c. \<not> is_white c) cs')"
      | (rest) "w \<in> set (split_words (dropWhile (\<lambda>c. \<not> is_white c) cs'))"
      using 1(2) Cons by (auto simp: split_words.simps [of cs])
    then show ?thesis
    proof cases
      case word
      with sub(1) show ?thesis by blast
    next
      case rest
      with 1(1) [OF Cons] sub(2) show ?thesis by (meson order_trans)
    qed
  qed
qed

lemma valid_words: "valid_string s \<Longrightarrow> w \<in> set (split_whitespace s) \<Longrightarrow> valid_string w"
  using split_words_in [of w "str_chars s"] str_chars_of_chars [of s] by (auto simp: split_whitespace_def)

lemma valid_trim: "valid_string s \<Longrightarrow> valid_string (str_trim s)"
  using str_chars_of_chars [OF _ trim_chars_subset, of s] by (simp add: str_trim_def)

lemma valid_join: "valid_string sep \<Longrightarrow> \<forall>s \<in> set ss. valid_string s \<Longrightarrow> valid_string (str_join sep ss)"
proof (induction sep ss rule: str_join.induct)
  case (1 sep)
  show ?case by (simp add: valid_string_def)
qed (simp_all add: valid_string_append)

definition valid_parse :: "event_filter \<times> string list \<Rightarrow> bool" where
  "valid_parse st \<longleftrightarrow> valid_filter (fst st) \<and> (\<forall>w \<in> set (snd st). valid_string w)"

lemma valid_filter_warn [simp]: "valid_filter (warn w f) = valid_filter f"
  by (simp add: valid_filter_def warn_def)

lemma fv_value_wrap [simp]: "fv_value (wrap negated v) = v"
  by (simp add: wrap_def filter_value_new_def filter_value_negated_def)

lemma valid_filter_other [simp]:
  "valid_filter (f\<lparr>f_user := u\<rparr>) = valid_filter f" "valid_filter (f\<lparr>f_exit_code := e\<rparr>) = valid_filter f"
  "valid_filter (f\<lparr>f_pid := n\<rparr>) = valid_filter f" "valid_filter (f\<lparr>f_ppid := n\<rparr>) = valid_filter f"
  "valid_filter (f\<lparr>f_gid := n\<rparr>) = valid_filter f" "valid_filter (f\<lparr>f_euid := n\<rparr>) = valid_filter f"
  "valid_filter (f\<lparr>f_tty := n\<rparr>) = valid_filter f"
  by (simp_all add: valid_filter_def)

lemma valid_filter_texts:
  assumes "valid_filter f" "valid_string (fv_value v)"
  shows "valid_filter (f\<lparr>f_comm := Some v\<rparr>)" "valid_filter (f\<lparr>f_session_id := Some v\<rparr>)"
    "valid_filter (f\<lparr>f_file := Some v\<rparr>)" "valid_filter (f\<lparr>f_cmd := Some v\<rparr>)"
  using assms by (simp_all add: valid_filter_def)

lemma valid_number:
  "valid_filter f \<Longrightarrow> (\<And>n. valid_filter (g n)) \<Longrightarrow>
   valid_filter (case x of Some n \<Rightarrow> g n | None \<Rightarrow> warn w f)"
  by (cases x) simp_all

lemma apply_keyword_valid:
  assumes "apply_keyword negated key v f = Some f'" "valid_filter f" "valid_string v"
  shows "valid_filter f'"
proof -
  have "case apply_keyword negated key v f of None \<Rightarrow> True | Some f' \<Rightarrow> valid_filter f'"
    unfolding apply_keyword_def using assms(2,3)
    by (simp only: if_split option.case simp_thms valid_number valid_filter_other valid_filter_texts fv_value_wrap
        split: if_split)
  with assms(1) show ?thesis by simp
qed

lemma ascii_marks: "u8_of_char (CHR '':'') < 128" "u8_of_char (CHR ''!'') < 128"
  by (simp_all add: u8_of_char_def)

lemma parse_rest_valid:
  assumes "valid_parse st" "valid_string token" "valid_string rest"
  shows "valid_parse (parse_rest token negated rest st)"
proof (cases "split_once (CHR '':'') rest")
  case None
  with assms(1,2) show ?thesis by (auto simp: parse_rest_def valid_parse_def split_beta)
next
  case (Some kv)
  then obtain k v where kv: "split_once (CHR '':'') rest = Some (k, v)" by (cases kv) auto
  then have "valid_string v"
    using assms(3) valid_ascii_split [OF _ ascii_marks(1), of k v] by (simp add: split_once_Some)
  with kv assms(1,2) show ?thesis
    by (auto simp: parse_rest_def valid_parse_def split_beta dest: apply_keyword_valid split: option.split)
qed

lemma parse_token_valid:
  assumes "valid_parse st" "valid_string token"
  shows "valid_parse (parse_token st token)"
proof -
  have "valid_string stripped" if "token = CHR ''!'' # stripped" for stripped
    using valid_ascii_split [of "[]" "CHR ''!''" stripped] assms(2) ascii_marks(2) that by simp
  moreover have "valid_parse (fst st, snd st @ [token])" using assms by (auto simp: valid_parse_def)
  ultimately show ?thesis
    using parse_rest_valid [OF assms] assms(2) by (auto simp: parse_token_def split: list.split)
qed

lemma parsed_filter_valid:
  assumes "valid_string q"
  shows "valid_filter (event_filter_parse q)"
proof -
  let ?q = "str_trim q"
  have "valid_parse (foldl parse_token st ts)" if "valid_parse st" "\<forall>t \<in> set ts. valid_string t" for st ts
    using that by (induction ts arbitrary: st) (simp_all add: parse_token_valid)
  moreover have default: "valid_filter event_filter_default" "valid_parse (event_filter_default\<lparr>f_raw := Some ?q\<rparr>, [])"
    by (simp_all add: valid_parse_def valid_filter_def event_filter_default_def)
  ultimately have "valid_parse (foldl parse_token (event_filter_default\<lparr>f_raw := Some ?q\<rparr>, []) (split_whitespace ?q))"
    using valid_words [OF valid_trim [OF assms]] by blast
  moreover have "valid_string '' ''" by (intro valid_ascii) (simp add: u8_of_char_def)
  ultimately show ?thesis
    using default(1) valid_join [of "'' ''"]
    by (auto simp: event_filter_parse_def Let_def valid_parse_def valid_filter_def split_beta)
qed

lemma trim_subset: "set (str_trim q) \<subseteq> set q"
proof -
  have "set (concat (trim_chars (str_chars q))) \<subseteq> set (concat (str_chars q))"
    using trim_chars_subset [of "str_chars q"] by auto
  then show ?thesis by (simp add: str_trim_def concat_str_chars)
qed

lemma url_words:
  "url_decode (sort_key_display k) = sort_key_display k" "url_decode (direction_display d) = direction_display d"
  "url_decode (dec n) = dec n" "url_decode ''q'' = ''q''" "url_decode ''page'' = ''page''"
  "url_decode ''page_size'' = ''page_size''" "url_decode ''sort'' = ''sort''" "url_decode ''dir'' = ''dir''"
  by (cases k; cases d; simp add: sort_key_display_def url_decode_plain)
    (cases d, simp_all add: url_decode_plain url_decode_id dec_no not_digits)

lemma words_clean:
  "CHR ''&'' \<notin> set (sort_key_display k)" "CHR ''&'' \<notin> set (direction_display d)" "CHR ''&'' \<notin> set (dec n)"
  by (cases k; simp add: sort_key_display_def) (cases d, simp_all add: dec_no not_digits)

lemma query_fields:
  "str_split (CHR ''&'') (''page='' @ dec n @ ''&page_size='' @ dec s @ ''&sort='' @ sort_key_display k
     @ ''&dir='' @ direction_display d @ ''&q='' @ urlencoded q) =
   [''page'' @ CHR ''='' # dec n, ''page_size'' @ CHR ''='' # dec s, ''sort'' @ CHR ''='' # sort_key_display k,
    ''dir'' @ CHR ''='' # direction_display d, ''q'' @ CHR ''='' # urlencoded q]"
  using str_split_cat [of "CHR ''&''" "''page='' @ dec n"] str_split_cat [of "CHR ''&''" "''page_size='' @ dec s"]
    str_split_cat [of "CHR ''&''" "''sort='' @ sort_key_display k"]
    str_split_cat [of "CHR ''&''" "''dir='' @ direction_display d"]
    str_split_none [of "CHR ''&''" "''q='' @ urlencoded q"]
  by (simp add: words_clean urlencoded_clean)

lemma page_url_params:
  assumes "CHR ''+'' \<notin> set (ln_query nav)"
  shows "url_params (page_url nav n) =
     [(''page'', dec (unat n)), (''page_size'', dec (unat (ln_page_size nav))),
      (''sort'', sort_key_display (ln_sort nav)), (''dir'', direction_display (ln_direction nav)),
      (''q'', ln_query nav)]"
proof -
  let ?query = "''page='' @ dec (unat n) @ ''&page_size='' @ dec (unat (ln_page_size nav))
     @ ''&sort='' @ sort_key_display (ln_sort nav) @ ''&dir='' @ direction_display (ln_direction nav)
     @ ''&q='' @ urlencoded (ln_query nav)"
  have "page_url nav n = ''/api/v1/events'' @ CHR ''?'' # ?query" by (simp add: page_url_def)
  moreover have "split_once (CHR ''?'') (''/api/v1/events'' @ CHR ''?'' # ?query) = Some (''/api/v1/events'', ?query)"
    unfolding split_once_Some by simp
  ultimately have "url_params (page_url nav n) = map url_param (str_split (CHR ''&'') ?query)"
    unfolding url_params_def by (simp only: option.case prod.case)
  then show ?thesis
    unfolding query_fields using assms by (simp add: url_param_field url_words url_decode_encoded del: append_Cons append_Nil)
qed


text \<open>
  The link to another page keeps the request: decoding its query string as a form gives the page
  number, the page size, the sort column and direction of the navigator as they were, and the filter
  parameter parses to the filter of the current list, for every query without a plus sign.
\<close>

lemma page_url_roundtrip:
  assumes "valid_string q" "CHR ''+'' \<notin> set q"
  shows "let nav = list_navigator_new (event_filter_parse q) k d s; params = map_of (url_params (page_url nav n))
    in Option.bind (params ''page'') parse_u32 = Some n
     \<and> Option.bind (params ''page_size'') parse_u32 = Some s
     \<and> params ''sort'' = Some (sort_key_display k) \<and> params ''dir'' = Some (direction_display d)
     \<and> map_option event_filter_parse (params ''q'') = Some (event_filter_parse q)"
proof -
  let ?nav = "list_navigator_new (event_filter_parse q) k d s"
  have "ln_query ?nav = str_trim q" by (simp add: list_navigator_new_def raw_is_trimmed)
  moreover have "CHR ''+'' \<notin> set (str_trim q)" using assms(2) trim_subset by blast
  ultimately show ?thesis
    unfolding Let_def using page_url_params [of ?nav n] assms(1)
    by (simp add: parse_trimmed parse_u32_dec list_navigator_new_def)
qed

theorem page_url_roundtrip_witness:
  "map_option event_filter_parse
     (map_of (url_params (page_url (list_navigator_new (event_filter_parse ''!exit:0 a=b&c'') Comm Asc 25) 2)) ''q'')
   = Some (event_filter_parse ''!exit:0 a=b&c'')"
proof -
  have "valid_string ''!exit:0 a=b&c''" by (intro valid_ascii) (simp add: u8_of_char_def)
  moreover have "CHR ''+'' \<notin> set ''!exit:0 a=b&c''" by simp
  ultimately show ?thesis
    using page_url_roundtrip [of "''!exit:0 a=b&c''" Comm Asc 25 2] by (simp add: Let_def)
qed

text \<open>A plus sign does not survive: it is left as it is and decoded as a space.\<close>

lemma plus_is_lost:
  "map_of (url_params (page_url \<lparr>ln_query = ''a+b'', ln_sort = Timestamp, ln_direction = Desc, ln_page_size = 25\<rparr> 1)) ''q''
   = Some ''a b''"
proof -
  let ?nav = "\<lparr>ln_query = ''a+b'', ln_sort = Timestamp, ln_direction = Desc, ln_page_size = 25\<rparr>"
  let ?query = "''page='' @ dec 1 @ ''&page_size='' @ dec 25
     @ ''&sort='' @ sort_key_display Timestamp @ ''&dir='' @ direction_display Desc @ ''&q='' @ urlencoded ''a+b''"
  have "page_url ?nav 1 = ''/api/v1/events'' @ CHR ''?'' # ?query" by (simp add: page_url_def)
  moreover have "split_once (CHR ''?'') (''/api/v1/events'' @ CHR ''?'' # ?query) = Some (''/api/v1/events'', ?query)"
    unfolding split_once_Some by simp
  ultimately have "url_params (page_url ?nav 1) = map url_param (str_split (CHR ''&'') ?query)"
    unfolding url_params_def by (simp only: option.case prod.case)
  moreover have "url_decode (urlencoded ''a+b'') = ''a b''"
    by (simp add: urlencoded_bytes url_byte_def url_decode.simps(2))
  ultimately show ?thesis
    unfolding query_fields by (simp add: url_param_field url_words del: append_Cons append_Nil)
qed

end
