(* ===== verification/Live.thy ===== *)
theory Live
  imports ListView
begin

text \<open>
  The repository trait of \<open>shspectr-web/src/domain/repositories.rs\<close> as the route handlers hold it, and
  the live tail of \<open>application/routes/api.rs\<close>: \<open>live_events\<close>, a stream that polls the repository on
  every tick of a timer. The state of the stream is its high-water mark and its counter; the
  repository of every tick is an argument, because the collector writes between the ticks.

  The locale \<open>live_source\<close> is what the tail relies on: the query for the events after an id
  returns the first matching ids above it. The SQL repository interprets it.
\<close>

section \<open>The trait\<close>

record event_repo =
  rp_list :: "list_request \<Rightarrow> event_filter \<Rightarrow> repo_error + event_summary page"
  rp_get_detail :: "int \<Rightarrow> repo_error + event_detail option"
  rp_list_since :: "int \<Rightarrow> event_filter \<Rightarrow> repo_error + event_summary list"
  rp_max_event_id :: "repo_error + int"

definition sql_event_repository :: "passwd_cache \<Rightarrow> connection option \<Rightarrow> event_repo" where
  "sql_event_repository cache pool =
     \<lparr>rp_list = repo_list cache pool, rp_get_detail = repo_get_detail pool,
      rp_list_since = repo_list_since cache pool, rp_max_event_id = repo_max_event_id pool\<rparr>"

section \<open>Server-sent events\<close>

record sse_event =
  sse_event_name :: "string option"
  sse_data :: "string option"
  sse_comment :: "string option"
  sse_event_id :: "string option"

definition sse_default :: sse_event where
  "sse_default = \<lparr>sse_event_name = None, sse_data = None, sse_comment = None, sse_event_id = None\<rparr>"

datatype sse_merge_mode = Append | Replace | Outer | Prepend

fun merge_mode_as_str :: "sse_merge_mode \<Rightarrow> string" where
  "merge_mode_as_str Append = ''append''"
| "merge_mode_as_str Replace = ''replace''"
| "merge_mode_as_str Outer = ''outer''"
| "merge_mode_as_str Prepend = ''prepend''"

definition NEWLINE :: string where "NEWLINE = [CHR 0x0A]"

definition elements_of :: "string \<Rightarrow> string" where
  "elements_of html = str_join NEWLINE (map (\<lambda>line. ''elements '' @ line) (str_lines html))"

definition sse_patch_elements :: "string \<Rightarrow> string \<Rightarrow> sse_merge_mode \<Rightarrow> string" where
  "sse_patch_elements html selector mode =
     ''selector '' @ selector @ NEWLINE @ ''mode '' @ merge_mode_as_str mode @ NEWLINE @ elements_of html"

section \<open>Headers\<close>

text \<open>The header map by lower case name; \<open>to_str\<close> fails on a value with an invisible byte.\<close>

type_synonym header_map = "string \<Rightarrow> string option"

definition header_to_str :: "string \<Rightarrow> string option" where
  "header_to_str v =
     (if list_all (\<lambda>c. let b = u8_of_char c in b = 9 \<or> (32 \<le> b \<and> b \<le> 126)) v then Some v else None)"

section \<open>The live tail\<close>

record live_state =
  lv_last_seen_id :: int
  lv_live_count :: u64

definition live_start :: "event_repo \<Rightarrow> header_map \<Rightarrow> live_state" where
  "live_start repo headers =
     (let initial_id = unwrap_or 0 (Option.bind (Option.bind (headers ''last-event-id'') header_to_str) parse_i64);
          last_seen_id = (if 0 < initial_id then initial_id
            else (case rp_max_event_id repo of Inr m \<Rightarrow> m | Inl _ \<Rightarrow> 0))
      in \<lparr>lv_last_seen_id = last_seen_id, lv_live_count = 0\<rparr>)"

definition live_batch :: "event_repo \<Rightarrow> event_filter \<Rightarrow> live_state \<Rightarrow> event_summary list" where
  "live_batch repo f st =
     (case rp_list_since repo (lv_last_seen_id st) f of Inr events \<Rightarrow> events | Inl _ \<Rightarrow> [])"

text \<open>\<open>row\<close> renders the template of a row; a row that fails to render is left out.\<close>

fun render_rows :: "web_env \<Rightarrow> (event_summary_view \<Rightarrow> string option) \<Rightarrow> event_summary list \<Rightarrow> string option" where
  "render_rows env row [] = Some []"
| "render_rows env row (s # ss) =
     (case event_summary_view_from env s of
        None \<Rightarrow> None
      | Some v \<Rightarrow> map_option (\<lambda>rest. unwrap_or [] (row v) @ rest) (render_rows env row ss))"

definition live_advance :: "event_summary list \<Rightarrow> live_state \<Rightarrow> live_state" where
  "live_advance events st =
     (if events = [] then st
      else \<lparr>lv_last_seen_id = es_id (last events), lv_live_count = lv_live_count st + of_nat (length events)\<rparr>)"

definition live_poll :: "web_env \<Rightarrow> (event_summary_view \<Rightarrow> string option) \<Rightarrow> event_filter \<Rightarrow> event_repo \<Rightarrow> live_state
    \<Rightarrow> (sse_event list \<times> live_state) option" where
  "live_poll env row f repo st =
     (let new_events = live_batch repo f st
      in if new_events = [] then Some ([sse_default\<lparr>sse_comment := Some ''keepalive''\<rparr>], st)
         else let st = live_advance new_events st
              in map_option (\<lambda>fragments.
                   ([sse_default\<lparr>sse_event_name := Some ''datastar-patch-elements'',
                       sse_data := Some (''selector #event-rows'' @ NEWLINE @ ''mode '' @ merge_mode_as_str Prepend
                         @ NEWLINE @ elements_of fragments),
                       sse_event_id := Some (dec_int (lv_last_seen_id st))\<rparr>,
                     sse_default\<lparr>sse_event_name := Some ''datastar-patch-signals'',
                       sse_data := Some (''signals {_liveCount: '' @ dec (unat (lv_live_count st)) @ ''}'')\<rparr>],
                    st))
                   (render_rows env row new_events))"

text \<open>The stream over the repositories of consecutive ticks; a panic ends it.\<close>

fun live_stream :: "web_env \<Rightarrow> (event_summary_view \<Rightarrow> string option) \<Rightarrow> event_filter \<Rightarrow> event_repo list
    \<Rightarrow> live_state \<Rightarrow> (sse_event list list \<times> live_state) option" where
  "live_stream env row f [] st = Some ([], st)"
| "live_stream env row f (repo # repos) st =
     (case live_poll env row f repo st of
        None \<Rightarrow> None
      | Some (events, st) \<Rightarrow> map_option (\<lambda>(rest, st). (events # rest, st)) (live_stream env row f repos st))"

text \<open>What the ticks deliver, without the rendering.\<close>

fun live_batches :: "event_filter \<Rightarrow> event_repo list \<Rightarrow> live_state \<Rightarrow> event_summary list list \<times> live_state" where
  "live_batches f [] st = ([], st)"
| "live_batches f (repo # repos) st =
     (let batch = live_batch repo f st;
          (rest, st) = live_batches f repos (live_advance batch st)
      in (batch # rest, st))"

lemma live_poll_state:
  "live_poll env row f repo st = Some (out, st') \<Longrightarrow> st' = live_advance (live_batch repo f st) st"
  by (auto simp: live_poll_def live_advance_def Let_def split: if_splits)

lemma live_stream_state:
  "live_stream env row f repos st = Some (outs, st') \<Longrightarrow>
   st' = snd (live_batches f repos st) \<and> length outs = length repos"
proof (induction repos arbitrary: st outs)
  case Nil
  then show ?case by simp
next
  case (Cons repo repos)
  obtain out st1 where poll: "live_poll env row f repo st = Some (out, st1)"
    using Cons.prems by (auto split: option.splits)
  with Cons.prems obtain rest where rest: "live_stream env row f repos st1 = Some (rest, st')" "outs = out # rest"
    by (auto split: option.splits)
  from Cons.IH [OF rest(1)] live_poll_state [OF poll] rest(2) show ?case
    by (simp add: Let_def split_beta)
qed

text \<open>A batch is a piece of the sorted ids from the mark to the new mark.\<close>

lemma sorted_cut:
  fixes xs :: "int list"
  assumes "sorted_wrt (<) xs" "take n (filter (\<lambda>i. a < i) xs) = ys" "ys \<noteq> []"
  shows "ys = filter (\<lambda>i. a < i \<and> i \<le> last ys) xs \<and> a < last ys \<and> last ys \<in> set xs"
proof -
  let ?zs = "filter (\<lambda>i. a < i) xs"
  have sorted: "sorted_wrt (<) ?zs" using assms(1) by (rule sorted_wrt_filter)
  have split: "ys @ drop n ?zs = ?zs" unfolding assms(2) [symmetric] by (rule append_take_drop_id)
  then have "sorted_wrt (<) (ys @ drop n ?zs)" using sorted by (simp only:)
  then have later: "\<forall>x \<in> set ys. \<forall>y \<in> set (drop n ?zs). x < y" and "sorted_wrt (<) ys"
    by (auto simp: sorted_wrt_append)
  then have le: "\<forall>x \<in> set ys. x \<le> last ys"
    using assms(3) by (cases ys rule: rev_cases) (auto simp: sorted_wrt_append order.strict_implies_order)
  have "filter (\<lambda>i. i \<le> last ys) (ys @ drop n ?zs) = ys"
    using le later assms(3) by (auto simp: filter_empty_conv filter_id_conv not_le)
  then have "filter (\<lambda>i. i \<le> last ys) ?zs = ys" unfolding split .
  moreover have "last ys \<in> set ?zs"
    using assms(2,3) by (metis in_set_takeD last_in_set)
  ultimately show ?thesis by (auto simp: conj_commute)
qed

lemma sorted_glue:
  fixes xs :: "int list"
  assumes "sorted_wrt (<) xs" "a \<le> b" "b \<le> c"
  shows "filter (\<lambda>i. a < i \<and> i \<le> b) xs @ filter (\<lambda>i. b < i \<and> i \<le> c) xs = filter (\<lambda>i. a < i \<and> i \<le> c) xs"
  using assms
proof (induction xs)
  case Nil
  show ?case by simp
next
  case (Cons x xs)
  have IH: "filter (\<lambda>i. a < i \<and> i \<le> b) xs @ filter (\<lambda>i. b < i \<and> i \<le> c) xs = filter (\<lambda>i. a < i \<and> i \<le> c) xs"
    using Cons by simp
  show ?case
  proof (cases "b < x")
    case True
    then have "filter (\<lambda>i. a < i \<and> i \<le> b) xs = []" using Cons.prems(1) by (auto simp: filter_empty_conv)
    with IH True Cons.prems(2) show ?thesis by auto
  next
    case False
    with IH Cons.prems(3) show ?thesis by auto
  qed
qed

section \<open>What a live tail relies on\<close>

text \<open>
  \<open>delivered a ids st\<close> are the ids from the start \<open>a\<close> up to the mark. New matching ids are above the
  old ones, so they are above the mark as well.
\<close>

definition ids_grow :: "int list \<Rightarrow> int list \<Rightarrow> bool" where
  "ids_grow xs ys \<longleftrightarrow> take (length xs) ys = xs"

definition at_mark :: "int \<Rightarrow> int list \<Rightarrow> live_state \<Rightarrow> bool" where
  "at_mark a xs st \<longleftrightarrow> a \<le> lv_last_seen_id st \<and> (lv_last_seen_id st = a \<or> lv_last_seen_id st \<in> set xs)"

definition delivered :: "int \<Rightarrow> int list \<Rightarrow> live_state \<Rightarrow> int list" where
  "delivered a xs st = filter (\<lambda>i. a < i \<and> i \<le> lv_last_seen_id st) xs"

lemma ids_grow_append: "ids_grow xs ys \<longleftrightarrow> (\<exists>new. ys = xs @ new)"
  unfolding ids_grow_def by (metis append_eq_conv_conj append_take_drop_id)

text \<open>
  \<open>'d\<close> is what the repository sees at a tick. \<open>ids d f\<close> are the ids of the matching events, \<open>good d\<close>
  the states the laws speak of, and \<open>up d\<close> says that the repository answers.
\<close>

locale live_source =
  fixes repo :: "'d \<Rightarrow> event_repo"
    and ids :: "'d \<Rightarrow> event_filter \<Rightarrow> int list"
    and good :: "'d \<Rightarrow> event_filter \<Rightarrow> bool"
    and up :: "'d \<Rightarrow> bool"
  assumes increasing: "good d f \<Longrightarrow> sorted_wrt (<) (ids d f)"
    and since: "good d f \<Longrightarrow> rp_list_since (repo d) a f = Inr events \<Longrightarrow>
      map es_id events = take LIVE_LIMIT (filter (\<lambda>i. a < i) (ids d f))"
    and answers: "good d f \<Longrightarrow> up d \<Longrightarrow> \<exists>events. rp_list_since (repo d) a f = Inr events"
begin

lemma batch_ids:
  assumes "good d f"
  shows "map es_id (live_batch (repo d) f st) = [] \<or>
    map es_id (live_batch (repo d) f st) = take LIVE_LIMIT (filter (\<lambda>i. lv_last_seen_id st < i) (ids d f))"
  using since [OF assms] by (auto simp: live_batch_def split: sum.split)

lemma growth_keeps:
  assumes "good d' f" "ids_grow (ids d f) (ids d' f)" "at_mark a (ids d f) st"
  shows "at_mark a (ids d' f) st" "delivered a (ids d' f) st = delivered a (ids d f) st"
proof -
  obtain new where new: "ids d' f = ids d f @ new" using assms(2) by (auto simp: ids_grow_append)
  then show "at_mark a (ids d' f) st" using assms(3) by (auto simp: at_mark_def)
  have "sorted_wrt (<) (ids d f @ new)" using increasing [OF assms(1)] new by simp
  then have above: "\<forall>x \<in> set (ids d f). \<forall>y \<in> set new. x < y" by (simp add: sorted_wrt_append)
  have "a = lv_last_seen_id st \<or> lv_last_seen_id st < y" if "y \<in> set new" for y
    using above that assms(3) by (auto simp: at_mark_def)
  then have "filter (\<lambda>i. a < i \<and> i \<le> lv_last_seen_id st) new = []"
    by (fastforce simp: filter_empty_conv)
  then show "delivered a (ids d' f) st = delivered a (ids d f) st" by (simp add: delivered_def new)
qed

lemma poll_delivers:
  assumes "good d f" "at_mark a (ids d f) st"
  shows "delivered a (ids d f) st @ map es_id (live_batch (repo d) f st) =
      delivered a (ids d f) (live_advance (live_batch (repo d) f st) st)
    \<and> at_mark a (ids d f) (live_advance (live_batch (repo d) f st) st)"
proof (cases "live_batch (repo d) f st = []")
  case True
  with assms(2) show ?thesis by (simp add: live_advance_def)
next
  case False
  let ?b = "live_batch (repo d) f st" and ?a = "lv_last_seen_id st"
  have "take LIVE_LIMIT (filter (\<lambda>i. ?a < i) (ids d f)) = map es_id ?b"
    using batch_ids [OF assms(1), of st] False by auto
  from sorted_cut [OF increasing [OF assms(1)] this] False
  have cut: "map es_id ?b = filter (\<lambda>i. ?a < i \<and> i \<le> es_id (last ?b)) (ids d f)"
    "?a < es_id (last ?b)" "es_id (last ?b) \<in> set (ids d f)" by (simp_all add: last_map)
  have "a \<le> ?a" using assms(2) by (simp add: at_mark_def)
  with cut(2) have "delivered a (ids d f) st @ map es_id ?b = filter (\<lambda>i. a < i \<and> i \<le> es_id (last ?b)) (ids d f)"
    unfolding cut(1) delivered_def by (intro sorted_glue [OF increasing [OF assms(1)]]) simp_all
  with False cut \<open>a \<le> ?a\<close> show ?thesis
    by (simp add: live_advance_def delivered_def at_mark_def)
qed

lemma batches_deliver:
  assumes "list_all (\<lambda>d. good d f) ds" "successively (\<lambda>d d'. ids_grow (ids d f) (ids d' f)) (d # ds)" "at_mark a (ids d f) st"
  shows "delivered a (ids d f) st @ map es_id (concat (fst (live_batches f (map repo ds) st))) =
      delivered a (ids (last (d # ds)) f) (snd (live_batches f (map repo ds) st))
    \<and> at_mark a (ids (last (d # ds)) f) (snd (live_batches f (map repo ds) st))"
  using assms
proof (induction ds arbitrary: d st)
  case Nil
  then show ?case by simp
next
  case (Cons d' ds)
  have good: "good d' f" and grow: "ids_grow (ids d f) (ids d' f)" and rest: "successively (\<lambda>d d'. ids_grow (ids d f) (ids d' f)) (d' # ds)"
    using Cons.prems by simp_all
  note mark = growth_keeps [OF good grow Cons.prems(3)]
  let ?st = "live_advance (live_batch (repo d') f st) st"
  note poll = poll_delivers [OF good mark(1)]
  have "list_all (\<lambda>d. good d f) ds" using Cons.prems(1) by simp
  from Cons.IH [OF this rest, of ?st] poll
  have "delivered a (ids d' f) ?st @ map es_id (concat (fst (live_batches f (map repo ds) ?st))) =
      delivered a (ids (last (d' # ds)) f) (snd (live_batches f (map repo ds) ?st))
    \<and> at_mark a (ids (last (d' # ds)) f) (snd (live_batches f (map repo ds) ?st))" by blast
  with poll show ?case
    by (simp add: Let_def split_beta flip: mark(2)) (simp flip: append_assoc)
qed

text \<open>Enough ticks of an answering, unchanged repository deliver everything.\<close>

lemma poll_progress:
  assumes "good d f" "up d"
  shows "length (filter (\<lambda>i. lv_last_seen_id (live_advance (live_batch (repo d) f st) st) < i) (ids d f)) \<le>
     length (filter (\<lambda>i. lv_last_seen_id st < i) (ids d f)) - LIVE_LIMIT"
proof -
  let ?pending = "filter (\<lambda>i. lv_last_seen_id st < i) (ids d f)"
  obtain events where ev: "rp_list_since (repo d) (lv_last_seen_id st) f = Inr events"
    using answers [OF assms] by blast
  then have b: "map es_id (live_batch (repo d) f st) = take LIVE_LIMIT ?pending"
    using since [OF assms(1) ev] by (simp add: live_batch_def)
  show ?thesis
  proof (cases "live_batch (repo d) f st = []")
    case True
    with b have "?pending = []" by (simp add: LIVE_LIMIT_def)
    with True show ?thesis by (simp add: live_advance_def)
  next
    case False
    let ?l = "es_id (last (live_batch (repo d) f st))"
have cut: "map es_id (live_batch (repo d) f st) =
        filter (\<lambda>i. lv_last_seen_id st < i \<and> i \<le> ?l) (ids d f)" "lv_last_seen_id st < ?l"
      using sorted_cut [OF increasing [OF assms(1)] b [symmetric]] False by (simp_all add: last_map)
    have "filter (\<lambda>i. ?l < i) (ids d f) = filter (\<lambda>i. ?l < i) ?pending"
      using cut(2) by (auto intro!: filter_cong)
    also have "\<dots> = filter (\<lambda>i. ?l < i) (take LIVE_LIMIT ?pending) @ filter (\<lambda>i. ?l < i) (drop LIVE_LIMIT ?pending)"
      by (metis append_take_drop_id filter_append)
    also have "filter (\<lambda>i. ?l < i) (take LIVE_LIMIT ?pending) = []"
      unfolding b [symmetric] cut(1) by (auto simp: filter_empty_conv)
    finally have "length (filter (\<lambda>i. ?l < i) (ids d f)) \<le> length (drop LIVE_LIMIT ?pending)"
      using length_filter_le [of "\<lambda>i. ?l < i" "drop LIVE_LIMIT ?pending"] by simp
    with False show ?thesis by (simp add: live_advance_def)
  qed
qed

end


section \<open>The SQL repository\<close>

text \<open>
  At a tick the repository sees the database as it is then, and either answers or does not. The live tail
  treats all errors of the repository alike, so one flag stands for a pool without a connection and for a
  query that is not answered (\<open>failed_query_is_unanswered\<close>).
\<close>

type_synonym snapshot = "database \<times> bool"

definition snapshot_repo :: "passwd_cache \<Rightarrow> snapshot \<Rightarrow> event_repo" where
  "snapshot_repo cache d = sql_event_repository cache (if snd d then Some (steady (fst d)) else None)"

lemma failed_query_is_unanswered:
  assumes "conn (since_query (build_where_clause cache f) (lv_last_seen_id st)) = None"
  shows "live_batch (sql_event_repository cache (Some conn)) f st = live_batch (snapshot_repo cache (db, False)) f st"
  using assms by (simp add: live_batch_def snapshot_repo_def sql_event_repository_def repo_list_since_def run_query_def ok_or_def)

definition matching_ids :: "passwd_cache \<Rightarrow> database \<Rightarrow> event_filter \<Rightarrow> int list" where
  "matching_ids cache db f = map er_id (filter (filter_accepts cache f) (db_events db))"

definition readable_db :: "database \<Rightarrow> bool" where
  "readable_db db \<longleftrightarrow> wf_database db \<and> list_all readable_row (db_events db)"

lemma matching_ids_sorted: "wf_database db \<Longrightarrow> sorted_wrt (<) (matching_ids cache db f)"
proof -
  assume "wf_database db"
  then have "sorted_wrt (\<lambda>a b. er_id a < er_id b) (db_events db)" by (simp add: wf_database_def sorted_wrt_map)
  then have "sorted_wrt (\<lambda>a b. er_id a < er_id b) (filter (filter_accepts cache f) (db_events db))"
    by (rule sorted_wrt_filter)
  then show ?thesis by (simp add: matching_ids_def sorted_wrt_map)
qed

lemma matches_after_ids:
  "map er_id (matches_after cache db f a) = filter (\<lambda>i. a < i) (matching_ids cache db f)"
  by (simp add: matches_after_def matching_ids_def filter_map comp_def conj_commute)

interpretation sql_live: live_source "snapshot_repo cache" "\<lambda>d. matching_ids cache (fst d)"
  "\<lambda>d f. valid_filter f \<and> readable_db (fst d)" snd for cache
proof (unfold_locales, goal_cases)
  case (1 d f)
  then show ?case by (simp add: readable_db_def matching_ids_sorted)
next
  case (2 d f a events)
  then have "valid_filter f" "wf_database (fst d)" "list_all readable_row (db_events (fst d))"
    by (simp_all add: readable_db_def)
  from list_since_batch [OF this, of cache a] obtain items where
    items: "repo_list_since cache (Some (steady (fst d))) a f = Inr items"
    "map row_to_summary (take LIVE_LIMIT (matches_after cache (fst d) f a)) = map Inr items" by blast
  have "snd d" "events = items"
    using 2(2) items(1) by (auto simp: snapshot_repo_def sql_event_repository_def repo_list_since_def split: if_splits)
  with summary_ids [OF items(2)] show ?case
    by (simp add: take_map [symmetric] matches_after_ids)
next
  case (3 d f a)
  then have "valid_filter f" "wf_database (fst d)" "list_all readable_row (db_events (fst d))"
    by (simp_all add: readable_db_def)
  from list_since_batch [OF this, of cache a] 3(2) show ?case
    by (auto simp: snapshot_repo_def sql_event_repository_def)
qed

end
