(* ===== verification/Tail.thy ===== *)
theory Tail
  imports Live SqliteSink
begin

text \<open>
  The collector and the live tail together: what the SQLite sink does to the rows that the web server
  reads, and what a live tail delivers while the collector writes between its ticks.
\<close>

section \<open>Every stored row can be read\<close>

text \<open>The captured data of a parsed entry is at most 4096 bytes; any length below 4 GiB is fine here.\<close>

fun call_ok :: "sink_call \<Rightarrow> bool" where
  "call_ok (CallIo _ e _) \<longleftrightarrow> length (pio_data e) < 2 ^ 32"
| "call_ok _ \<longleftrightarrow> True"

definition set_exit_code :: "(event_row \<Rightarrow> bool) \<Rightarrow> i32 \<Rightarrow> event_row \<Rightarrow> event_row" where
  "set_exit_code p e r = (if p r then r\<lparr>er_exit_code := Some (sint e)\<rparr> else r)"

definition rows_follow :: "event_row list \<Rightarrow> event_row list \<Rightarrow> bool" where
  "rows_follow xs ys \<longleftrightarrow>
     (\<exists>p e new. ys = map (set_exit_code p e) xs @ new \<and> list_all readable_row new)"

lemma u32_range_int_u32: "u32_range (int_u32 w)"
  using int_u32_bounds [of w] by (simp add: u32_range_def)

lemma i32_range_sint: "i32_range (sint (e :: i32))"
  using sint_ge [of e] sint_lt [of e] by (simp add: i32_range_def)

lemma saturate_range: "0 \<le> saturate_i64 w" "saturate_i64 w \<le> I64_MAX"
  using saturate_i64_bounds by blast+

lemmas ranges = u32_range_int_u32 i32_range_sint saturate_range

lemma event_type_readable: "is_ok (get_event_type (int_u32 (event_type_as_wire t)))"
  by (simp only: get_event_type_ok is_ok_simps)

lemma readable_set_id [simp]: "readable_row (r\<lparr>er_id := i\<rparr>) = readable_row r"
  by (simp add: readable_row_def)

lemma readable_set_exit [simp]: "readable_row r \<Longrightarrow> readable_row (set_exit_code p e r)"
  by (simp add: readable_row_def set_exit_code_def opt_in_def ranges)

lemma exec_row_readable: "readable_row (exec_row now j sid e)"
  unfolding readable_row_def exec_row_def by (simp add: ranges opt_in_def event_type_readable del: event_type_as_wire.simps)

lemma exit_row_readable: "readable_row (exit_row now sid e)"
  unfolding readable_row_def exit_row_def by (simp add: ranges opt_in_def event_type_readable del: event_type_as_wire.simps)

lemma io_row_readable: "length (pio_data e) < 2 ^ 32 \<Longrightarrow> readable_row (io_row now sid e ty)"
  unfolding readable_row_def io_row_def
  using saturate_range [unfolded I64_MAX_def]
  by (simp add: u32_range_int_u32 opt_in_def event_type_readable u32_range_def [of "int _"] I64_MAX_def min_def saturate_range
      del: event_type_as_wire.simps)

lemma set_exit_none: "map (set_exit_code (\<lambda>_. False) 0) xs = xs"
  by (induction xs) (simp_all add: set_exit_code_def)

lemma rows_follow_refl: "rows_follow xs xs"
  unfolding rows_follow_def by (intro exI [of _ "\<lambda>_. False"] exI [of _ 0] exI [of _ "[]"]) (simp add: set_exit_none)

lemma rows_follow_append: "readable_row r \<Longrightarrow> rows_follow xs (xs @ [r])"
  unfolding rows_follow_def by (intro exI [of _ "\<lambda>_. False"] exI [of _ 0] exI [of _ "[r]"]) (simp add: set_exit_none)

lemma rows_follow_update:
  "readable_row r \<Longrightarrow> rows_follow xs (map (set_exit_code p e) (xs @ [r]))"
  unfolding rows_follow_def by (intro exI [of _ p] exI [of _ e] exI [of _ "[set_exit_code p e r]"]) simp

lemma insert_event_rows:
  "insert_event r db = Some db' \<Longrightarrow> db_events db' = db_events db @ [r\<lparr>er_id := db_seq db + 1\<rparr>]"
  by (auto simp: insert_event_def Let_def split: if_splits)

lemma insert_run_rows:
  "readable_row r \<Longrightarrow> rows_follow (db_events db) (db_events (fst (sql_run env n (insert_event r) db)))"
  using sql_run_fst [of env n "insert_event r" db]
  by (auto simp: rows_follow_refl dest!: insert_event_rows intro!: rows_follow_append)

lemma ensure_session_rows [simp]: "db_events (fst (ensure_session env info db)) = db_events db"
  by (simp add: ensure_session_def sql_run_def)

lemma backfill_rows:
  "\<exists>p. db_events (backfill_exit_code sid event db) = map (set_exit_code p (pe_exit_code event)) (db_events db)"
proof -
  let ?t = "newest_id (exec_of_execution sid (pe_pid event) (pe_execution_id event)) (db_events db)"
  show ?thesis
    by (intro exI [of _ "\<lambda>r. ?t = Some (er_id r)"])
      (simp add: backfill_exit_code_def Let_def update_events_def set_exit_code_def)
qed

lemma insert_exit_rows: "rows_follow (db_events db) (db_events (fst (insert_exit env sid event c db)))"
proof -
  let ?r = "exit_row (se_now env 0) sid event"
  obtain db1 ok1 where 1: "sql_run env 0 (insert_event ?r) db = (db1, ok1)" by fastforce
  obtain db2 ok2 where 2: "sql_run env 1 (\<lambda>db. Some (backfill_exit_code sid event db)) db1 = (db2, ok2)" by fastforce
  have end_same: "db_events (fst (sql_run env 2 (\<lambda>db. Some (update_sessions q g db)) db2)) = db_events db2" for q g
    by (simp add: sql_run_def)
  show ?thesis
  proof (cases ok1)
    case False
    with sql_run_cases [OF 1] 1 show ?thesis by (simp add: insert_exit_def rows_follow_refl)
  next
    case True
    with sql_run_cases [OF 1] have rows1: "db_events db1 = db_events db @ [?r\<lparr>er_id := db_seq db + 1\<rparr>]"
      by (auto dest: insert_event_rows)
    have readable: "readable_row (?r\<lparr>er_id := db_seq db + 1\<rparr>)" by (simp add: exit_row_readable)
    have "rows_follow (db_events db) (db_events db2)"
    proof (cases ok2)
      case False
      with sql_run_cases [OF 2] rows1 readable show ?thesis by (simp add: rows_follow_append)
    next
      case True
      with sql_run_cases [OF 2] have "db2 = backfill_exit_code sid event db1" by auto
      then obtain p where "db_events db2 = map (set_exit_code p (pe_exit_code event)) (db_events db1)"
        using backfill_rows [of sid event db1] by blast
      then show ?thesis unfolding rows1 using rows_follow_update [OF readable] by simp
    qed
    then show ?thesis using 1 2 True end_same by (auto simp: insert_exit_def)
  qed
qed

lemma sink_rows:
  "call_ok c \<Longrightarrow> rows_follow (db_events db) (db_events (sink_do (sqlite_sink env) c db))"
proof (cases c)
  case (CallExec si e)
  have "rows_follow (db_events (fst (ensure_session env si db)))
      (db_events (fst (insert_exec env (si_session_id si) e (fst (ensure_session env si db)))))"
    unfolding insert_exec_def by (intro insert_run_rows exec_row_readable)
  then show ?thesis by (simp add: CallExec sqlite_sink_def sqlite_on_exec_def)
next
  case (CallExit si e complete)
  then show ?thesis by (simp add: sqlite_sink_def sqlite_on_exit_def insert_exit_rows)
next
  case (CallIo si e ty)
  assume "call_ok c"
  with CallIo show ?thesis
    by (simp add: sqlite_sink_def sqlite_on_io_def insert_io_def insert_run_rows io_row_readable)
qed

lemma sink_readable:
  assumes "call_ok c" "readable_db db"
  shows "readable_db (sink_do (sqlite_sink env) c db)"
proof -
  obtain p e new where "db_events (sink_do (sqlite_sink env) c db) = map (set_exit_code p e) (db_events db) @ new"
    "list_all readable_row new" using sink_rows [OF assms(1), of db env] by (auto simp: rows_follow_def)
  with assms(2) show ?thesis
    by (auto simp: readable_db_def list_all_iff intro: sqlite_sink_wf)
qed

section \<open>Matching events only accumulate\<close>

text \<open>
  The only column that changes after an insert is the exit code: a filter that does not mention it
  keeps accepting what it accepted.
\<close>

lemma accepts_set_exit:
  "f_exit_code f = None \<Longrightarrow> filter_accepts cache f (set_exit_code p e r) = filter_accepts cache f r"
  by (cases "p r") (simp_all add: filter_accepts_def set_exit_code_def negatable_def [of None] cong: option.case_cong)

lemma sink_ids_grow:
  assumes "call_ok c" "f_exit_code f = None"
  shows "ids_grow (matching_ids cache db f) (matching_ids cache (sink_do (sqlite_sink env) c db) f)"
proof -
  obtain p e new where rows: "db_events (sink_do (sqlite_sink env) c db) = map (set_exit_code p e) (db_events db) @ new"
    using sink_rows [OF assms(1), of db env] by (auto simp: rows_follow_def)
  have "er_id (set_exit_code p e r) = er_id r" for r by (simp add: set_exit_code_def)
  then have "map er_id (filter (filter_accepts cache f) (map (set_exit_code p e) (db_events db))) =
      matching_ids cache db f"
    using accepts_set_exit [OF assms(2)] by (simp add: matching_ids_def filter_map comp_def)
  then show ?thesis by (simp add: ids_grow_append matching_ids_def rows)
qed

lemma ids_grow_trans: "ids_grow xs ys \<Longrightarrow> ids_grow ys zs \<Longrightarrow> ids_grow xs zs"
  by (auto simp: ids_grow_append)


section \<open>Polling while the collector writes\<close>

text \<open>
  What the ticks see: before each tick the collector makes some calls of its sink (each with what the
  surroundings answer then), and the pool has a connection or has not.
\<close>

type_synonym tick = "(sql_env \<times> sink_call) list \<times> bool"

definition collect :: "(sql_env \<times> sink_call) list \<Rightarrow> database \<Rightarrow> database" where
  "collect calls db = fold (\<lambda>(env, c). sink_do (sqlite_sink env) c) calls db"

fun snapshots :: "database \<Rightarrow> tick list \<Rightarrow> snapshot list" where
  "snapshots db [] = []"
| "snapshots db ((calls, up) # ticks) = (collect calls db, up) # snapshots (collect calls db) ticks"

definition ticks_ok :: "tick list \<Rightarrow> bool" where
  "ticks_ok ticks \<longleftrightarrow> list_all (\<lambda>(calls, _). list_all (\<lambda>(_, c). call_ok c) calls) ticks"

lemma collect_keeps:
  assumes "list_all (\<lambda>(_, c). call_ok c) calls" "readable_db db" "f_exit_code f = None"
  shows "readable_db (collect calls db)" "ids_grow (matching_ids cache db f) (matching_ids cache (collect calls db) f)"
proof -
  have "readable_db (collect calls db) \<and> ids_grow (matching_ids cache db f) (matching_ids cache (collect calls db) f)"
    using assms(1,2)
  proof (induction calls arbitrary: db)
    case Nil
    then show ?case by (simp add: collect_def ids_grow_append)
  next
    case (Cons x calls)
    obtain env c where x: "x = (env, c)" by (cases x)
    have c: "call_ok c" using Cons.prems(1) x by simp
    have step: "collect (x # calls) db = collect calls (sink_do (sqlite_sink env) c db)" by (simp add: collect_def x)
    have rest: "list_all (\<lambda>(_, c). call_ok c) calls" using Cons.prems(1) by simp
    from Cons.IH [OF rest sink_readable [OF c Cons.prems(2)], of env] sink_ids_grow [OF c assms(3), of cache db env]
    show ?case unfolding step by (auto intro: ids_grow_trans)
  qed
  then show "readable_db (collect calls db)"
    "ids_grow (matching_ids cache db f) (matching_ids cache (collect calls db) f)" by simp_all
qed

lemma snapshots_chain:
  assumes "ticks_ok ticks" "readable_db db" "f_exit_code f = None" "valid_filter f"
  shows "list_all (\<lambda>d. valid_filter f \<and> readable_db (fst d)) (snapshots db ticks)
    \<and> successively (\<lambda>d d'. ids_grow (matching_ids cache (fst d) f) (matching_ids cache (fst d') f))
         ((db, up) # snapshots db ticks)"
  using assms(1,2)
proof (induction ticks arbitrary: db up)
  case Nil
  then show ?case by simp
next
  case (Cons t ticks)
  obtain calls b where t: "t = (calls, b)" by (cases t)
  have ok: "list_all (\<lambda>(_, c). call_ok c) calls" "ticks_ok ticks" using Cons.prems(1) by (simp_all add: ticks_ok_def t)
  note keeps = collect_keeps(1) [OF ok(1) Cons.prems(2) assms(3)] collect_keeps(2) [OF ok(1) Cons.prems(2) assms(3), of cache]
  from Cons.IH [OF ok(2) keeps(1), of b] keeps assms(4) show ?case by (simp add: t)
qed

definition final_db :: "database \<Rightarrow> tick list \<Rightarrow> database" where
  "final_db db ticks = fst (last ((db, True) # snapshots db ticks))"

definition tail_run :: "passwd_cache \<Rightarrow> event_filter \<Rightarrow> database \<Rightarrow> tick list \<Rightarrow> live_state
    \<Rightarrow> event_summary list list \<times> live_state" where
  "tail_run cache f db ticks st = live_batches f (map (snapshot_repo cache) (snapshots db ticks)) st"

lemma tail_delivers:
  assumes "ticks_ok ticks" "readable_db db" "f_exit_code f = None" "valid_filter f"
  shows "map es_id (concat (fst (tail_run cache f db ticks st))) =
      delivered (lv_last_seen_id st) (matching_ids cache (final_db db ticks) f) (snd (tail_run cache f db ticks st))
    \<and> at_mark (lv_last_seen_id st) (matching_ids cache (final_db db ticks) f) (snd (tail_run cache f db ticks st))"
proof -
  have "at_mark (lv_last_seen_id st) (matching_ids cache (fst (db, True)) f) st" by (simp add: at_mark_def)
  from sql_live.batches_deliver [OF _ _ this, of "snapshots db ticks"] snapshots_chain [OF assms, of cache True]
  have "delivered (lv_last_seen_id st) (matching_ids cache db f) st
      @ map es_id (concat (fst (tail_run cache f db ticks st))) =
      delivered (lv_last_seen_id st) (matching_ids cache (final_db db ticks) f) (snd (tail_run cache f db ticks st))
    \<and> at_mark (lv_last_seen_id st) (matching_ids cache (final_db db ticks) f) (snd (tail_run cache f db ticks st))"
    by (simp add: tail_run_def final_db_def)
  moreover have "delivered (lv_last_seen_id st) xs st = []" for xs
    by (auto simp: delivered_def filter_empty_conv)
  ultimately show ?thesis by simp
qed

lemma final_readable:
  assumes "ticks_ok ticks" "readable_db db" "f_exit_code f = None" "valid_filter f"
  shows "readable_db (final_db db ticks)"
  using snapshots_chain [OF assms, of undefined True] assms(2)
  by (cases "snapshots db ticks" rule: rev_cases) (auto simp: final_db_def)

text \<open>
  C9: For a filter without an exit code, and from a consistent database whose values fit the columns they are
  read into, a live tail repeats nothing and skips nothing while the collector writes: over any interleaving of sink calls, with any failing statements, and ticks, with any unanswered
  ones, the event ids it has delivered are, in order, exactly the ids of the matching events between its
  start and its high-water mark in the final database. (With an exit code in the filter an event can be
  passed over: \<open>exit_filter_passes_over\<close>.)
\<close>

theorem live_tail_exactly_once:
  assumes "ticks_ok ticks" "readable_db db" "f_exit_code f = None" "valid_filter f"
  shows "let (batches, st') = tail_run cache f db ticks st
    in map es_id (concat batches) =
         filter (\<lambda>i. lv_last_seen_id st < i \<and> i \<le> lv_last_seen_id st') (matching_ids cache (final_db db ticks) f)
     \<and> sorted_wrt (<) (map es_id (concat batches))
     \<and> lv_last_seen_id st \<le> lv_last_seen_id st'"
proof -
  have "readable_db (final_db db ticks)" using assms by (rule final_readable)
  then have "sorted_wrt (<) (matching_ids cache (final_db db ticks) f)"
    by (intro matching_ids_sorted) (simp add: readable_db_def)
  with tail_delivers [OF assms, of cache st] show ?thesis
    by (auto simp: delivered_def at_mark_def split_beta Let_def sorted_wrt_filter)
qed


text \<open>When the collector is quiet.\<close>

definition QUIET :: tick where "QUIET = ([], True)"

lemma live_batches_append:
  "snd (live_batches f (xs @ ys) st) = snd (live_batches f ys (snd (live_batches f xs st)))"
  by (induction xs arbitrary: st) (simp_all add: Let_def split_beta)

lemma final_db_Cons: "final_db db ((calls, up) # ticks) = final_db (collect calls db) ticks"
  by (cases "snapshots (collect calls db) ticks") (simp_all add: final_db_def)

lemma snapshots_append:
  "snapshots db (xs @ ys) = snapshots db xs @ snapshots (final_db db xs) ys"
proof (induction xs arbitrary: db)
  case Nil
  show ?case by (simp add: final_db_def)
next
  case (Cons t xs)
  then show ?case by (cases t) (simp add: final_db_Cons)
qed

lemma snapshots_quiet: "snapshots db (replicate n QUIET) = replicate n (db, True)"
  by (induction n) (simp_all add: QUIET_def collect_def)

lemma final_quiet: "final_db db (ticks @ replicate n QUIET) = final_db db ticks"
proof (cases n)
  case (Suc m)
  then have "last ((db, True) # snapshots db (ticks @ replicate n QUIET)) = (final_db db ticks, True)"
    by (simp add: snapshots_append snapshots_quiet del: replicate_Suc)
  then show ?thesis by (simp add: final_db_def)
qed simp

lemma quiet_ticks_drain:
  assumes "valid_filter f" "readable_db db"
  shows "length (filter (\<lambda>i. lv_last_seen_id (snd (live_batches f (replicate n (snapshot_repo cache (db, True))) st)) < i)
       (matching_ids cache db f)) \<le> length (matching_ids cache db f) - LIVE_LIMIT * n"
proof (induction n)
  case 0
  show ?case by (simp add: length_filter_le)
next
  case (Suc n)
  let ?r = "snapshot_repo cache (db, True)"
  let ?st = "snd (live_batches f (replicate n ?r) st)"
  have "replicate (Suc n) ?r = replicate n ?r @ [?r]" by (simp add: replicate_append_same)
  then have "snd (live_batches f (replicate (Suc n) ?r) st) = live_advance (live_batch ?r f ?st) ?st"
    by (simp only: live_batches_append) (simp add: Let_def)
  with sql_live.poll_progress [of f "(db, True)" cache ?st] Suc assms show ?case by simp
qed

text \<open>
  C14: A live tail whose filter has no exit code catches up on a consistent database whose values fit the
  columns they are read into: once the collector is quiet and the repository
  answers, as many ticks as there are hundreds of matching events deliver every matching event above the
  start, each once and in order, whatever the sink calls and ticks before were. (With an exit code in the
  filter a passed-over event stays missing: \<open>exit_filter_passes_over\<close>.)
\<close>

theorem live_tail_catches_up:
  assumes "ticks_ok ticks" "readable_db db" "f_exit_code f = None" "valid_filter f"
    "length (matching_ids cache (final_db db ticks) f) \<le> 100 * n"
  shows "map es_id (concat (fst (tail_run cache f db (ticks @ replicate n QUIET) st))) =
    filter (\<lambda>i. lv_last_seen_id st < i) (matching_ids cache (final_db db ticks) f)"
proof -
  let ?ticks = "ticks @ replicate n QUIET" and ?ids = "matching_ids cache (final_db db ticks) f"
  let ?st = "snd (tail_run cache f db ?ticks st)"
  have "ticks_ok ?ticks" using assms(1) by (auto simp: ticks_ok_def QUIET_def list_all_iff)
  from tail_delivers [OF this assms(2-4), of cache st]
  have "map es_id (concat (fst (tail_run cache f db ?ticks st))) =
      filter (\<lambda>i. lv_last_seen_id st < i \<and> i \<le> lv_last_seen_id ?st) ?ids"
    by (simp add: final_quiet delivered_def)
  moreover have "length (filter (\<lambda>i. lv_last_seen_id ?st < i) ?ids) \<le> length ?ids - LIVE_LIMIT * n"
    using quiet_ticks_drain [OF assms(4) final_readable [OF assms(1-4)], of n cache
        "snd (live_batches f (map (snapshot_repo cache) (snapshots db ticks)) st)"]
    by (simp add: tail_run_def snapshots_append snapshots_quiet live_batches_append)
  then have "filter (\<lambda>i. lv_last_seen_id ?st < i) ?ids = []"
    using assms(5) by (simp add: LIVE_LIMIT_def)
  then have "\<forall>i \<in> set ?ids. i \<le> lv_last_seen_id ?st" by (auto simp: filter_empty_conv not_less)
  ultimately show ?thesis by (simp cong: filter_cong)
qed


text \<open>A tail that starts before the first event, with one exec call before each of two ticks.\<close>

definition sample_ticks :: "tick list" where
  "sample_ticks = [([(sample_sql_env, CallExec sample_session sample_exec)], False),
     ([(sample_sql_env, CallExec sample_session sample_exec)], True)]"

lemma sample_ticks_ok:
  "ticks_ok sample_ticks" "readable_db (empty_database True)" "f_exit_code event_filter_default = None"
  by (simp_all add: sample_ticks_def ticks_ok_def readable_db_def wf_empty_database)
    (simp_all add: empty_database_def event_filter_default_def)

lemma sample_final: "db_seq (final_db (empty_database True) sample_ticks) = 2"
    "matching_ids cache (final_db (empty_database True) sample_ticks) event_filter_default = [1, 2]"
  by (simp_all add: sample_ticks_def final_db_def collect_def sqlite_sink_def sample_run Let_def
      matching_ids_def default_accepts_exec int_u32_def)

lemma sample_mark: "2 \<le> lv_last_seen_id (snd (tail_run [] event_filter_default (empty_database True) sample_ticks st))"
proof -
  let ?db = "final_db (empty_database True) sample_ticks"
  obtain db1 where run: "snapshots (empty_database True) sample_ticks = [(db1, False), (?db, True)]"
    by (simp add: sample_ticks_def final_db_def)
  let ?st = "snd (live_batches event_filter_default [snapshot_repo [] (db1, False)] st)"
  have "readable_db ?db" using sample_ticks_ok sample_web_db_ok(3) by (intro final_readable)
  from quiet_ticks_drain [OF sample_web_db_ok(3) this, of 1 "[]" ?st] sample_final(2)
  have "2 \<le> lv_last_seen_id (snd (live_batches event_filter_default [snapshot_repo [] (?db, True)] ?st))"
    by (simp add: LIVE_LIMIT_def filter_empty_conv del: live_batches.simps split: if_splits)
  then show ?thesis
    using live_batches_append [of event_filter_default "[snapshot_repo [] (db1, False)]" "[snapshot_repo [] (?db, True)]" st]
    by (simp add: tail_run_def run del: live_batches.simps)
qed

theorem live_tail_exactly_once_witness:
  "map es_id (concat (fst (tail_run [] event_filter_default (empty_database True) sample_ticks
      \<lparr>lv_last_seen_id = 0, lv_live_count = 0\<rparr>))) = [1, 2]"
  using live_tail_exactly_once [OF sample_ticks_ok sample_web_db_ok(3), of "[]" "\<lparr>lv_last_seen_id = 0, lv_live_count = 0\<rparr>"]
    sample_mark [of "\<lparr>lv_last_seen_id = 0, lv_live_count = 0\<rparr>"]
  by (simp add: Let_def split_beta sample_final)

theorem live_tail_catches_up_witness:
  "map es_id (concat (fst (tail_run [] event_filter_default (empty_database True) (sample_ticks @ replicate 1 QUIET)
      \<lparr>lv_last_seen_id = 0, lv_live_count = 0\<rparr>))) = [1, 2]"
  using live_tail_catches_up [OF sample_ticks_ok sample_web_db_ok(3), of "[]" 1 "\<lparr>lv_last_seen_id = 0, lv_live_count = 0\<rparr>"]
  by (simp add: sample_final)

text \<open>
  With an exit code in the filter an event can be passed over: the older of two processes ends after
  the newer one was delivered, and is never delivered although it matches.
\<close>

definition exit_zero :: event_filter where
  "exit_zero = event_filter_default\<lparr>f_exit_code := Some \<lparr>fv_value = 0, fv_negated = False\<rparr>\<rparr>"

definition two_rows :: "int option \<Rightarrow> int option \<Rightarrow> database" where
  "two_rows c1 c2 = \<lparr>db_fk = False, db_sessions = [],
     db_events = [sample_event_row\<lparr>er_exit_code := c1\<rparr>, sample_event_row\<lparr>er_id := 2, er_exit_code := c2\<rparr>],
     db_seq = 2\<rparr>"

lemma exit_filter_passes_over:
  "map es_id (concat (fst (live_batches exit_zero
      [snapshot_repo [] (two_rows None (Some 0), True), snapshot_repo [] (two_rows (Some 0) (Some 0), True)]
      \<lparr>lv_last_seen_id = 0, lv_live_count = 0\<rparr>))) = [2]
   \<and> matching_ids [] (two_rows (Some 0) (Some 0)) exit_zero = [1, 2]"
proof -
  have valid: "valid_filter exit_zero" by (simp add: exit_zero_def event_filter_default_def valid_filter_def)
  have readable: "readable_db (two_rows c1 c2)" if "c1 \<in> {None, Some 0}" "c2 \<in> {None, Some 0}" for c1 c2
    using that by (auto simp: two_rows_def readable_db_def wf_database_def I64_MAX_def readable_row_def sample_event_row_def
      get_event_type_def get_u32_def event_type_from_wire_def u32_range_def opt_in_def i32_range_def)
  have accepts: "filter_accepts [] exit_zero r \<longleftrightarrow> er_event_type r = 0 \<and> er_exit_code r = Some 0" for r
    by (auto simp: filter_accepts_def exit_zero_def event_filter_default_def negatable_def int_u32_def)
  have ids: "matching_ids [] (two_rows None (Some 0)) exit_zero = [2]"
    "matching_ids [] (two_rows (Some 0) (Some 0)) exit_zero = [1, 2]"
    by (simp_all add: matching_ids_def two_rows_def accepts sample_event_row_def)
  have batch: "map es_id (live_batch (snapshot_repo [] (db, True)) exit_zero st) =
      take LIVE_LIMIT (filter (\<lambda>i. lv_last_seen_id st < i) (matching_ids [] db exit_zero))"
    if db: "readable_db db" for db st
  proof -
    obtain events where "rp_list_since (snapshot_repo [] (db, True)) (lv_last_seen_id st) exit_zero = Inr events"
      using sql_live.answers [of exit_zero "(db, True)" "[]"] valid db by auto
    then show ?thesis
      using sql_live.since [of exit_zero "(db, True)" "[]"] valid db by (simp add: live_batch_def)
  qed
  have d1: "readable_db (two_rows None (Some 0))" and d2: "readable_db (two_rows (Some 0) (Some 0))"
    using readable by simp_all
  let ?st = "\<lparr>lv_last_seen_id = 0, lv_live_count = 0\<rparr> :: live_state"
  have b1: "map es_id (live_batch (snapshot_repo [] (two_rows None (Some 0), True)) exit_zero ?st) = [2]"
    using batch [OF d1, of ?st] by (simp add: ids LIVE_LIMIT_def)
  then obtain e where e: "live_batch (snapshot_repo [] (two_rows None (Some 0), True)) exit_zero ?st = [e]" "es_id e = 2"
    by auto
  let ?st' = "live_advance [e] ?st"
  have "lv_last_seen_id ?st' = 2" using e(2) by (simp add: live_advance_def)
  then have "map es_id (live_batch (snapshot_repo [] (two_rows (Some 0) (Some 0), True)) exit_zero ?st') = []"
    using batch [OF d2, of ?st'] by (simp add: ids LIVE_LIMIT_def)
  then have b2: "live_batch (snapshot_repo [] (two_rows (Some 0) (Some 0), True)) exit_zero ?st' = []" by simp
  show ?thesis using ids(2) by (simp add: Let_def e b2)
qed

end
