(* ===== verification/Recording.thy ===== *)
theory Recording
  imports Tail
begin

text \<open>
  From the sink to the detail view: what the web server shows of an execution that the collector has
  recorded, whatever else it records at the same time.
\<close>

section \<open>One execution\<close>

text \<open>An execution by its session, process and execution id, as the sink and the repository join rows.\<close>

record execution =
  xc_session :: session_id
  xc_pid :: u32
  xc_execution_id :: u64

definition of_execution :: "execution \<Rightarrow> event_row \<Rightarrow> bool" where
  "of_execution x r \<longleftrightarrow> er_session_id r = xc_session x \<and> er_pid r = int_u32 (xc_pid x)
     \<and> er_execution_id r = saturate_i64 (xc_execution_id x)"

definition concerns :: "execution \<Rightarrow> session_id \<Rightarrow> u32 \<Rightarrow> u64 \<Rightarrow> bool" where
  "concerns x sid pid eid \<longleftrightarrow> sid = xc_session x \<and> pid = xc_pid x \<and> saturate_i64 eid = saturate_i64 (xc_execution_id x)"

text \<open>What a sequence of sink calls says about the execution: its captured data and its exit code.\<close>

fun captured :: "execution \<Rightarrow> sink_call \<Rightarrow> parsed_io_event list" where
  "captured x (CallIo si e ty) =
     (if concerns x (si_session_id si) (pio_pid e) (pio_execution_id e) \<and> ty \<in> {Read, Write} then [e] else [])"
| "captured x c = []"

fun exit_of :: "execution \<Rightarrow> sink_call \<Rightarrow> i32 option \<Rightarrow> i32 option" where
  "exit_of x (CallExit si e complete) code =
     (if concerns x (si_session_id si) (pe_pid e) (pe_execution_id e) then Some (pe_exit_code e) else code)"
| "exit_of x c code = code"

fun starts :: "execution \<Rightarrow> sink_call \<Rightarrow> bool" where
  "starts x (CallExec si e) \<longleftrightarrow> concerns x (si_session_id si) (px_pid e) (px_execution_id e)"
| "starts x c \<longleftrightarrow> False"

definition answers_all :: "sql_env \<Rightarrow> bool" where
  "answers_all env \<longleftrightarrow> (\<forall>n < 3. \<not> se_fails env n)"

section \<open>What the rows say\<close>

definition io_facts :: "event_row \<Rightarrow> int option \<times> string option" where
  "io_facts r = (er_fd r, er_data r)"

definition io_fact_of :: "parsed_io_event \<Rightarrow> int option \<times> string option" where
  "io_fact_of e = (Some (int_u32 (pio_fd e)), Some (lossy_string (pio_data e)))"

definition is_exec_row :: "event_row \<Rightarrow> bool" where
  "is_exec_row r \<longleftrightarrow> er_event_type r = int_u32 (event_type_as_wire Exec)"

text \<open>
  \<open>recorded x base ios code db\<close>: the only exec row of the execution is \<open>base\<close> with
  this exit code, and its captured data are \<open>ios\<close>.
\<close>

definition recorded :: "execution \<Rightarrow> event_row \<Rightarrow> parsed_io_event list \<Rightarrow> i32 option \<Rightarrow> database \<Rightarrow> bool" where
  "recorded x base ios code db \<longleftrightarrow>
     wf_database db \<and> session_exists (xc_session x) db
     \<and> filter (\<lambda>r. of_execution x r \<and> is_exec_row r) (db_events db)
         = [base\<lparr>er_exit_code := map_option sint code\<rparr>]
     \<and> map io_facts (filter (\<lambda>r. of_execution x r \<and> is_io_row r) (db_events db)) = map io_fact_of ios"

lemma wire_ints: "int_u32 (event_type_as_wire Exec) = 0" "int_u32 (event_type_as_wire Read) = 2"
  "int_u32 (event_type_as_wire Write) = 3" "int_u32 (event_type_as_wire Exit) = 4"
  by (simp_all add: int_u32_def)

lemma exec_of_execution_eq:
  "concerns x sid pid eid \<Longrightarrow> exec_of_execution sid pid eid r \<longleftrightarrow> of_execution x r \<and> is_exec_row r"
  by (auto simp: exec_of_execution_def of_execution_def is_exec_row_def concerns_def)

lemma row_updates [simp]:
  "of_execution x (r\<lparr>er_id := i\<rparr>) \<longleftrightarrow> of_execution x r" "of_execution x (r\<lparr>er_exit_code := c\<rparr>) \<longleftrightarrow> of_execution x r"
  "is_io_row (r\<lparr>er_id := i\<rparr>) \<longleftrightarrow> is_io_row r" "is_io_row (r\<lparr>er_exit_code := c\<rparr>) \<longleftrightarrow> is_io_row r"
  "is_exec_row (r\<lparr>er_id := i\<rparr>) \<longleftrightarrow> is_exec_row r" "is_exec_row (r\<lparr>er_exit_code := c\<rparr>) \<longleftrightarrow> is_exec_row r"
  "io_facts (r\<lparr>er_id := i\<rparr>) = io_facts r" "io_facts (r\<lparr>er_exit_code := c\<rparr>) = io_facts r"
  by (simp_all add: of_execution_def is_io_row_def is_exec_row_def io_facts_def)

lemma exec_row_facts [simp]:
  "of_execution x (exec_row now j sid e) \<longleftrightarrow> concerns x sid (px_pid e) (px_execution_id e)"
  "is_exec_row (exec_row now j sid e)" "\<not> is_io_row (exec_row now j sid e)"
  by (auto simp: of_execution_def concerns_def exec_row_def is_exec_row_def is_io_row_def wire_ints)

lemma exit_row_facts [simp]:
  "of_execution x (exit_row now sid e) \<longleftrightarrow> concerns x sid (pe_pid e) (pe_execution_id e)"
  "\<not> is_exec_row (exit_row now sid e)" "\<not> is_io_row (exit_row now sid e)"
  by (auto simp: of_execution_def concerns_def exit_row_def is_exec_row_def is_io_row_def wire_ints)

lemma io_row_facts [simp]:
  "of_execution x (io_row now sid e ty) \<longleftrightarrow> concerns x sid (pio_pid e) (pio_execution_id e)"
  "is_exec_row (io_row now sid e ty) \<longleftrightarrow> ty = Exec" "is_io_row (io_row now sid e ty) \<longleftrightarrow> ty \<in> {Read, Write}"
  "io_facts (io_row now sid e ty) = io_fact_of e"
  by (auto simp: of_execution_def concerns_def io_row_def io_facts_def io_fact_of_def)
    (cases ty; simp add: is_exec_row_def is_io_row_def wire_ints)+

section \<open>Every call keeps the record\<close>

lemma insert_event_answered:
  assumes "answers_all env" "n < 3" "db_seq db < I64_MAX" "db_fk db \<longrightarrow> session_exists (er_session_id r) db"
  shows "sql_run env n (insert_event r) db =
    (db\<lparr>db_events := db_events db @ [r\<lparr>er_id := db_seq db + 1\<rparr>], db_seq := db_seq db + 1\<rparr>, True)"
  using assms by (simp add: sql_run_def answers_all_def insert_event_def Let_def)

lemma recorded_append:
  assumes "recorded x base ios code db" "wf_database db'" "session_exists (xc_session x) db'"
    "db_events db' = db_events db \<or> db_events db' = db_events db @ [r]"
    "\<not> (of_execution x r \<and> is_exec_row r)" "\<not> (of_execution x r \<and> is_io_row r)"
  shows "recorded x base ios code db'"
  using assms by (auto simp: recorded_def)

lemma sessions_kept:
  "session_exists sid db \<Longrightarrow> session_exists sid (sink_do (sqlite_sink env) c db)"
proof -
  have run: "(\<And>db'. stmt db = Some db' \<Longrightarrow> session_exists sid db') \<Longrightarrow> session_exists sid db \<Longrightarrow>
      session_exists sid (fst (sql_run env n stmt db))" for n stmt db
    by (auto simp: sql_run_def split: option.split)
  have event: "session_exists sid db \<Longrightarrow> insert_event r db = Some db' \<Longrightarrow> session_exists sid db'" for r db db'
    by (auto simp: insert_event_def session_exists_def Let_def split: if_splits)
  have ensured: "session_exists sid db \<Longrightarrow> session_exists sid (fst (ensure_session env info db))" for info db
    unfolding ensure_session_def by (rule run) (auto simp: insert_session_or_ignore_def session_exists_def)
  have backfilled: "session_exists sid db \<Longrightarrow> session_exists sid (backfill_exit_code s e db)" for s e db
    by (simp add: backfill_exit_code_def Let_def update_events_def session_exists_def)
  have closed: "session_exists sid db \<Longrightarrow> session_exists sid (update_sessions q (\<lambda>r. r\<lparr>sr_ended_at := t\<rparr>) db)" for q t db
  proof -
    have "map sr_id (db_sessions (update_sessions q (\<lambda>r. r\<lparr>sr_ended_at := t\<rparr>) db)) = map sr_id (db_sessions db)"
      by (simp add: update_sessions_def)
    then show "session_exists sid db \<Longrightarrow> session_exists sid (update_sessions q (\<lambda>r. r\<lparr>sr_ended_at := t\<rparr>) db)"
      unfolding session_exists_iff by (metis set_map)
  qed
  assume "session_exists sid db"
  then show ?thesis
  proof (cases c)
    case (CallExec si e)
    have "session_exists sid (fst (insert_exec env (si_session_id si) e (fst (ensure_session env si db))))"
      unfolding insert_exec_def by (rule run [OF event ensured]) (use \<open>session_exists sid db\<close> ensured in auto)
    then show ?thesis by (simp add: CallExec sqlite_sink_def sqlite_on_exec_def)
  next
    case (CallExit si e complete)
    obtain db1 ok1 where 1: "sql_run env 0 (insert_event (exit_row (se_now env 0) (si_session_id si) e)) db = (db1, ok1)" by fastforce
    obtain db2 ok2 where 2: "sql_run env 1 (\<lambda>db. Some (backfill_exit_code (si_session_id si) e db)) db1 = (db2, ok2)" by fastforce
    have "session_exists sid db1" using sql_run_cases [OF 1] event \<open>session_exists sid db\<close> by blast
    moreover from this have "session_exists sid db2" using sql_run_cases [OF 2] backfilled by auto
    moreover from this have "session_exists sid (fst (sql_run env 2 (\<lambda>db. Some (update_sessions q (\<lambda>r. r\<lparr>sr_ended_at := t\<rparr>) db)) db2))" for q t
      by (intro run) (auto intro: closed)
    ultimately show ?thesis
      using 1 2 \<open>session_exists sid db\<close> by (simp add: CallExit sqlite_sink_def sqlite_on_exit_def insert_exit_def)
  next
    case (CallIo si e ty)
    have "session_exists sid (fst (insert_io env (si_session_id si) e ty db))"
      unfolding insert_io_def by (rule run) (use \<open>session_exists sid db\<close> event in auto)
    then show ?thesis by (simp add: CallIo sqlite_sink_def sqlite_on_io_def)
  qed
qed

lemma recorded_kept:
  assumes "recorded x base ios code db"
  shows "wf_database (sink_do (sqlite_sink env) c db)" "session_exists (xc_session x) (sink_do (sqlite_sink env) c db)"
  using assms sqlite_sink_wf sessions_kept unfolding recorded_def by blast+

lemma insert_run_cases:
  "db_events (fst (sql_run env n (insert_event r) db)) = db_events db
   \<or> db_events (fst (sql_run env n (insert_event r) db)) = db_events db @ [r\<lparr>er_id := db_seq db + 1\<rparr>]"
  using sql_run_fst [of env n "insert_event r" db] by (auto dest: insert_event_rows)

lemma recorded_exec:
  assumes "recorded x base ios code db" "\<not> starts x (CallExec si e)"
  shows "recorded x base ios code (sink_do (sqlite_sink env) (CallExec si e) db)"
proof (rule recorded_append [OF assms(1)])
  let ?r = "(exec_row (se_now env 1) (se_json env (px_argv e)) (si_session_id si) e)
    \<lparr>er_id := db_seq (fst (ensure_session env si db)) + 1\<rparr>"
  let ?db = "sink_do (sqlite_sink env) (CallExec si e) db"
  show "wf_database ?db" "session_exists (xc_session x) ?db"
    using assms(1) by (rule recorded_kept)+
  show "db_events ?db = db_events db \<or> db_events ?db = db_events db @ [?r]"
    using insert_run_cases [of env 1 "exec_row (se_now env 1) (se_json env (px_argv e)) (si_session_id si) e" "fst (ensure_session env si db)"]
    by (simp add: sqlite_sink_def sqlite_on_exec_def insert_exec_def)
  show "\<not> (of_execution x ?r \<and> is_exec_row ?r)" "\<not> (of_execution x ?r \<and> is_io_row ?r)"
    using assms(2) by simp_all
qed

lemma recorded_io:
  assumes "recorded x base ios code db" "proper_call (CallIo si e ty)" "answers_all env" "db_seq db < I64_MAX"
  shows "recorded x base (ios @ captured x (CallIo si e ty)) code (sink_do (sqlite_sink env) (CallIo si e ty) db)"
proof -
  let ?r = "(io_row (se_now env 0) (si_session_id si) e ty)\<lparr>er_id := db_seq db + 1\<rparr>"
  let ?db = "sink_do (sqlite_sink env) (CallIo si e ty) db"
  have run: "?db = fst (sql_run env 0 (insert_event (io_row (se_now env 0) (si_session_id si) e ty)) db)"
    by (simp add: sqlite_sink_def sqlite_on_io_def insert_io_def)
  have kept: "wf_database ?db" "session_exists (xc_session x) ?db"
    using assms(1) by (rule recorded_kept)+
  have ty: "ty \<in> {Read, Write}" "ty \<noteq> Exec" using assms(2) by auto
  show ?thesis
  proof (cases "concerns x (si_session_id si) (pio_pid e) (pio_execution_id e)")
    case True
    then have "er_session_id (io_row (se_now env 0) (si_session_id si) e ty) = xc_session x"
      by (simp add: concerns_def io_row_def)
    then have "db_events ?db = db_events db @ [?r]"
      unfolding run using insert_event_answered [OF assms(3) _ assms(4), of 0] assms(1) by (simp add: recorded_def)
    then show ?thesis using assms(1) kept True ty by (simp add: recorded_def)
  next
    case False
    have "db_events ?db = db_events db \<or> db_events ?db = db_events db @ [?r]"
      unfolding run by (rule insert_run_cases)
    from recorded_append [OF assms(1) kept this] False show ?thesis by simp
  qed
qed

lemma filter_map_unchanged:
  "(\<And>r. P (f r) \<longleftrightarrow> P r) \<Longrightarrow> filter P (map f rs) = map f (filter P rs)"
  by (simp add: filter_map comp_def)

lemma insert_exit_answered:
  assumes "answers_all env" "snd (sql_run env 0 (insert_event (exit_row (se_now env 0) sid e)) db)"
  shows "snd (insert_exit env sid e complete db)"
  using assms by (cases "insert_event (exit_row (se_now env 0) sid e) db")
    (auto simp: insert_exit_def sql_run_def answers_all_def)

lemma newest_is_recorded:
  assumes "filter (\<lambda>r. of_execution x r \<and> is_exec_row r) rows = [b]"
  shows "newest_exec sid pid eid rows b \<longleftrightarrow> concerns x sid pid eid"
proof -
  have "set (filter (\<lambda>r. of_execution x r \<and> is_exec_row r) rows) = {b}" unfolding assms by simp
  then have only: "r \<in> set rows \<and> of_execution x r \<and> is_exec_row r \<longleftrightarrow> r = b" for r by auto
  show ?thesis
  proof
    assume "newest_exec sid pid eid rows b"
    moreover have "of_execution x b" using only by blast
    ultimately show "concerns x sid pid eid"
      by (auto simp: newest_exec_def exec_of_execution_def of_execution_def concerns_def)
  next
    assume c: "concerns x sid pid eid"
    show "newest_exec sid pid eid rows b"
      unfolding newest_exec_def exec_of_execution_eq [OF c] using only by (metis order_refl)
  qed
qed

lemma updated_exec_rows:
  assumes "filter (\<lambda>r. of_execution x r \<and> is_exec_row r) rows = [base]"
    "map io_facts (filter (\<lambda>r. of_execution x r \<and> is_io_row r) rows) = ios"
  shows "filter (\<lambda>r. of_execution x r \<and> is_exec_row r) (map (\<lambda>r. if p r then r\<lparr>er_exit_code := v\<rparr> else r) rows) =
      [if p base then base\<lparr>er_exit_code := v\<rparr> else base]"
    "map io_facts (filter (\<lambda>r. of_execution x r \<and> is_io_row r) (map (\<lambda>r. if p r then r\<lparr>er_exit_code := v\<rparr> else r) rows)) = ios"
proof -
  let ?f = "\<lambda>r. if p r then r\<lparr>er_exit_code := v\<rparr> else r"
  show "filter (\<lambda>r. of_execution x r \<and> is_exec_row r) (map ?f rows) = [?f base]"
    using filter_map_unchanged [of "\<lambda>r. of_execution x r \<and> is_exec_row r" ?f rows] assms(1) by simp
  have "map io_facts (map ?f rs) = map io_facts rs" for rs by (induction rs) auto
  moreover have "filter (\<lambda>r. of_execution x r \<and> is_io_row r) (map ?f rows) =
      map ?f (filter (\<lambda>r. of_execution x r \<and> is_io_row r) rows)"
    by (rule filter_map_unchanged) simp
  ultimately show "map io_facts (filter (\<lambda>r. of_execution x r \<and> is_io_row r) (map ?f rows)) = ios"
    using assms(2) by metis
qed

lemma recorded_exit:
  assumes "recorded x base ios code db" "answers_all env" "db_seq db < I64_MAX"
  shows "recorded x base ios (exit_of x (CallExit si e complete) code) (sink_do (sqlite_sink env) (CallExit si e complete) db)"
proof -
  let ?sid = "si_session_id si" and ?db = "sink_do (sqlite_sink env) (CallExit si e complete) db"
  let ?c = "concerns x ?sid (pe_pid e) (pe_execution_id e)"
  let ?new = "newest_exec ?sid (pe_pid e) (pe_execution_id e) (db_events db)"
  let ?f = "\<lambda>r. if ?new r then r\<lparr>er_exit_code := Some (sint (pe_exit_code e))\<rparr> else r"
  have kept: "wf_database ?db" "session_exists (xc_session x) ?db"
    using assms(1) by (rule recorded_kept)+
  have run: "?db = fst (insert_exit env ?sid e complete db)" by (simp add: sqlite_sink_def sqlite_on_exit_def)
  have facts: "wf_database db" "session_exists (xc_session x) db"
    "filter (\<lambda>r. of_execution x r \<and> is_exec_row r) (db_events db) = [base\<lparr>er_exit_code := map_option sint code\<rparr>]"
    "map io_facts (filter (\<lambda>r. of_execution x r \<and> is_io_row r) (db_events db)) = map io_fact_of ios"
    using assms(1) by (simp_all add: recorded_def)
  show ?thesis
  proof (cases "snd (insert_exit env ?sid e complete db)")
    case True
    then have "insert_exit env ?sid e complete db = (?db, True)" unfolding run by (metis (full_types) prod.collapse)
    from exit_inserted [OF facts(1) this] obtain i where
      rows: "db_events ?db = map ?f (db_events db) @ [(exit_row (se_now env 0) ?sid e)\<lparr>er_id := i\<rparr>]" by blast
    note updated = updated_exec_rows [OF facts(3,4), of ?new "Some (sint (pe_exit_code e))"]
    have "?new (base\<lparr>er_exit_code := map_option sint code\<rparr>) \<longleftrightarrow> ?c"
      using facts(3) by (rule newest_is_recorded)
    then have "?f (base\<lparr>er_exit_code := map_option sint code\<rparr>) =
        base\<lparr>er_exit_code := map_option sint (exit_of x (CallExit si e complete) code)\<rparr>" by simp
    with updated kept show ?thesis unfolding recorded_def rows by simp
  next
    case False
    then have failed: "\<not> snd (sql_run env 0 (insert_event (exit_row (se_now env 0) ?sid e)) db)"
      using insert_exit_answered [OF assms(2)] by blast
    have "er_session_id (exit_row (se_now env 0) ?sid e) = ?sid" by (simp add: exit_row_def)
    then have "\<not> ?c"
      using failed insert_event_answered [OF assms(2) _ assms(3), of 0 "exit_row (se_now env 0) ?sid e"] facts(2)
      by (auto simp: concerns_def)
    moreover have "?db = db"
      using failed unfolding run insert_exit_def
      by (auto simp: split_beta sql_run_def split: option.splits if_splits)
    ultimately show ?thesis using assms(1) by simp
  qed
qed

lemma recorded_call:
  assumes "recorded x base ios code db" "proper_call c" "\<not> starts x c" "answers_all env" "db_seq db < I64_MAX"
  shows "recorded x base (ios @ captured x c) (exit_of x c code) (sink_do (sqlite_sink env) c db)"
  using assms recorded_exec [of x base ios code db] recorded_exit [OF assms(1,4,5)]
    recorded_io [OF assms(1) _ assms(4,5)]
  by (cases c) (simp_all del: sink_do.simps captured.simps(1) exit_of.simps(1))

lemma seq_grows: "db_seq (sink_do (sqlite_sink env) c db) \<le> db_seq db + 1"
proof -
  have event: "db_seq (fst (sql_run env n (insert_event r) db)) \<le> db_seq db + 1" for n r db
    by (auto simp: sql_run_def insert_event_def Let_def)
  have other: "db_seq (fst (ensure_session env si db)) = db_seq db" for si db
    by (simp add: ensure_session_def sql_run_def insert_session_or_ignore_def)
  show ?thesis
  proof (cases c)
    case (CallExec si e)
    show ?thesis
      using event [of 1 _ "fst (ensure_session env si db)"]
      by (simp add: CallExec sqlite_sink_def sqlite_on_exec_def insert_exec_def other)
  next
    case (CallExit si e complete)
    let ?r = "sql_run env 0 (insert_event (exit_row (se_now env 0) (si_session_id si) e)) db"
    have "db_seq (fst (insert_exit env (si_session_id si) e complete db)) = db_seq (fst ?r)"
      by (auto simp: insert_exit_def split_beta sql_run_def [of _ "Suc 0"] sql_run_def [of _ 2] backfill_exit_code_def Let_def
          update_events_def update_sessions_def)
    with event [of 0] show ?thesis by (simp add: CallExit sqlite_sink_def sqlite_on_exit_def)
  next
    case (CallIo si e ty)
    then show ?thesis using event [of 0] by (simp add: sqlite_sink_def sqlite_on_io_def insert_io_def)
  qed
qed

text \<open>What a sequence of calls captured and reported of the execution.\<close>

definition captured_by :: "execution \<Rightarrow> (sql_env \<times> sink_call) list \<Rightarrow> parsed_io_event list" where
  "captured_by x calls = concat (map (captured x \<circ> snd) calls)"

definition exit_by :: "execution \<Rightarrow> (sql_env \<times> sink_call) list \<Rightarrow> i32 option" where
  "exit_by x calls = fold (exit_of x \<circ> snd) calls None"

definition calls_ok :: "execution \<Rightarrow> (sql_env \<times> sink_call) list \<Rightarrow> bool" where
  "calls_ok x calls \<longleftrightarrow>
     list_all (\<lambda>(env, c). call_ok c \<and> proper_call c \<and> answers_all env \<and> \<not> starts x c) calls"

lemma recorded_calls:
  assumes "recorded x base ios code db" "calls_ok x calls" "db_seq db + int (length calls) < I64_MAX"
  shows "recorded x base (ios @ captured_by x calls) (fold (exit_of x \<circ> snd) calls code) (collect calls db)"
  using assms
proof (induction calls arbitrary: ios code db)
  case Nil
  then show ?case by (simp add: captured_by_def collect_def)
next
  case (Cons p calls)
  obtain env c where p: "p = (env, c)" by (cases p)
  have "recorded x base (ios @ captured x c) (exit_of x c code) (sink_do (sqlite_sink env) c db)"
    using Cons.prems p by (intro recorded_call) (auto simp: calls_ok_def)
  moreover have "db_seq (sink_do (sqlite_sink env) c db) + int (length calls) < I64_MAX"
    using Cons.prems(3) seq_grows [of env c db] by simp
  ultimately have "recorded x base ((ios @ captured x c) @ captured_by x calls)
      (fold (exit_of x \<circ> snd) calls (exit_of x c code)) (collect calls (sink_do (sqlite_sink env) c db))"
    using Cons.prems(2) by (intro Cons.IH) (simp_all add: calls_ok_def)
  then show ?case by (simp add: p captured_by_def collect_def comp_def)
qed

lemma readable_calls:
  "calls_ok x calls \<Longrightarrow> readable_db db \<Longrightarrow> readable_db (collect calls db)"
proof (induction calls arbitrary: db)
  case (Cons p calls)
  then show ?case by (cases p) (auto simp: calls_ok_def collect_def intro: sink_readable)
qed (simp add: collect_def)

section \<open>The detail of a recorded execution\<close>

definition execution_of :: "session_info \<Rightarrow> parsed_exec_event \<Rightarrow> execution" where
  "execution_of si e = \<lparr>xc_session = si_session_id si, xc_pid = px_pid e, xc_execution_id = px_execution_id e\<rparr>"

lemma recorded_start:
  assumes "wf_database db" "list_all (\<lambda>r. \<not> of_execution (execution_of si e) r) (db_events db)"
    "answers_all env" "db_seq db < I64_MAX"
  shows "recorded (execution_of si e)
    ((exec_row (se_now env 1) (se_json env (px_argv e)) (si_session_id si) e)\<lparr>er_id := db_seq db + 1\<rparr>) [] None
    (sqlite_on_exec env si e db)"
proof -
  let ?r = "(exec_row (se_now env 1) (se_json env (px_argv e)) (si_session_id si) e)\<lparr>er_id := db_seq db + 1\<rparr>"
  have rows: "db_events (sqlite_on_exec env si e db) = db_events db @ [?r]"
    and ex: "session_exists (si_session_id si) (sqlite_on_exec env si e db)"
    using exec_is_recorded [of env db si e] assms(3,4) by (simp_all add: answers_all_def)
  have "wf_database (sqlite_on_exec env si e db)"
    using sqlite_sink_wf [OF assms(1), of env "CallExec si e"] by (simp add: sqlite_sink_def)
  moreover have "?r\<lparr>er_exit_code := map_option sint None\<rparr> = ?r" by (simp add: exec_row_def)
  moreover have "of_execution (execution_of si e) ?r" by (simp add: concerns_def execution_of_def)
  moreover have "filter (\<lambda>r. of_execution (execution_of si e) r \<and> is_exec_row r) (db_events db) = []"
    "filter (\<lambda>r. of_execution (execution_of si e) r \<and> is_io_row r) (db_events db) = []"
    using assms(2) by (auto simp: filter_empty_conv list_all_iff)
  moreover have "session_exists (xc_session (execution_of si e)) (sqlite_on_exec env si e db)"
    using ex by (simp add: execution_of_def)
  ultimately show ?thesis
    unfolding recorded_def rows filter_append by simp
qed

lemma recorded_data:
  assumes "recorded x base ios code db"
  shows "map (unwrap_or [] \<circ> er_data) (filter (\<lambda>r. of_execution x r \<and> is_io_row r \<and> P (er_fd r)) (db_events db)) =
    map (lossy_string \<circ> pio_data) (filter (\<lambda>e. P (Some (int_u32 (pio_fd e)))) ios)"
proof -
  let ?rows = "filter (\<lambda>r. of_execution x r \<and> is_io_row r) (db_events db)"
  have "filter (\<lambda>r. of_execution x r \<and> is_io_row r \<and> P (er_fd r)) (db_events db) = filter (\<lambda>r. P (er_fd r)) ?rows"
    by (simp add: conj_assoc conj_commute conj_left_commute)
  moreover have "map (unwrap_or [] \<circ> snd) (filter (P \<circ> fst) (map io_facts ?rows)) =
      map (unwrap_or [] \<circ> snd) (filter (P \<circ> fst) (map io_fact_of ios))"
    using assms by (simp add: recorded_def)
  ultimately show ?thesis
    by (simp add: filter_map io_facts_def io_fact_of_def comp_def)
qed

lemma get_exit_code: "get_opt (get_i32 n) (map_option sint code) = Inr code"
  by (cases code) (simp_all add: get_opt_def get_i32_range [OF i32_range_sint])

lemma exec_summary:
  assumes "row_to_summary ((exec_row now j sid e)\<lparr>er_id := i, er_exit_code := map_option sint code\<rparr>) = Inr s"
  shows "es_id s = i \<and> es_session_id s = sid \<and> es_pid s = px_pid e \<and> es_filename s = Some (px_filename e)
   \<and> es_argv s = Some j \<and> es_exit_code s = code"
  using assms
  by (auto simp: row_to_summary_def exec_row_def bind_result_Inr_iff get_exit_code)

lemma recorded_detail:
  assumes "readable_db db" "list_all (\<lambda>r. \<not> of_execution (execution_of si e) r) (db_events db)"
    "answers_all env" "calls_ok (execution_of si e) calls" "db_seq db + 1 + int (length calls) < I64_MAX"
  shows "\<exists>d. repo_get_detail (Some (steady (collect calls (sqlite_on_exec env si e db)))) (db_seq db + 1) = Inr (Some d)
    \<and> es_session_id (ed_summary d) = si_session_id si \<and> es_pid (ed_summary d) = px_pid e
    \<and> es_filename (ed_summary d) = Some (px_filename e)
    \<and> es_argv (ed_summary d) = Some (se_json env (px_argv e))
    \<and> es_exit_code (ed_summary d) = exit_by (execution_of si e) calls
    \<and> map ic_data (ed_stdin_data d) =
        map (lossy_string \<circ> pio_data) (filter (\<lambda>io. pio_fd io = 0) (captured_by (execution_of si e) calls))
    \<and> map ic_data (ed_stdout_data d) =
        map (lossy_string \<circ> pio_data) (filter (\<lambda>io. pio_fd io \<in> {1, 2}) (captured_by (execution_of si e) calls))"
proof -
  let ?x = "execution_of si e" and ?db1 = "sqlite_on_exec env si e db"
  let ?db = "collect calls ?db1"
  let ?base = "(exec_row (se_now env 1) (se_json env (px_argv e)) (si_session_id si) e)\<lparr>er_id := db_seq db + 1\<rparr>"
  let ?r = "?base\<lparr>er_exit_code := map_option sint (exit_by ?x calls)\<rparr>"
  have wf: "wf_database db" using assms(1) by (simp add: readable_db_def)
  have seq: "db_seq ?db1 \<le> db_seq db + 1" using seq_grows [of env "CallExec si e" db] by (simp add: sqlite_sink_def)
  have "recorded ?x ?base [] None ?db1"
    using recorded_start [OF wf assms(2,3)] assms(5) by simp
  from recorded_calls [OF this assms(4)] seq assms(5)
  have rec: "recorded ?x ?base (captured_by ?x calls) (exit_by ?x calls) ?db" by (simp add: exit_by_def)
  have "readable_db ?db1"
    using sink_readable [OF _ assms(1), of "CallExec si e" env] by (simp add: sqlite_sink_def)
  from readable_calls [OF assms(4) this] have readable: "wf_database ?db" "list_all readable_row (db_events ?db)"
    by (simp_all add: readable_db_def)
  have "?r \<in> set (filter (\<lambda>r. of_execution ?x r \<and> is_exec_row r) (db_events ?db))"
    using rec by (simp add: recorded_def)
  then have "?r \<in> set (db_events ?db)" by simp
  from execution_detail [OF readable this] obtain d where d:
    "repo_get_detail (Some (steady ?db)) (db_seq db + 1) = Inr (Some d)" "row_to_summary ?r = Inr (ed_summary d)"
    "ed_stdin_data d = map chunk_of (filter (\<lambda>y. same_execution ?r y \<and> is_io_row y \<and> er_fd y = Some 0) (db_events ?db))"
    "ed_stdout_data d = map chunk_of (filter (\<lambda>y. same_execution ?r y \<and> is_io_row y \<and> (er_fd y = Some 1 \<or> er_fd y = Some 2)) (db_events ?db))"
    by auto
  have same: "same_execution ?r y \<longleftrightarrow> of_execution ?x y" for y
    by (simp add: same_execution_def of_execution_def execution_of_def exec_row_def)
  have chunk: "ic_data (chunk_of y) = unwrap_or [] (er_data y)" for y by (simp add: chunk_of_def)
  have fd: "int_u32 w = 0 \<longleftrightarrow> w = 0" "int_u32 w = 1 \<longleftrightarrow> w = 1" "int_u32 w = 2 \<longleftrightarrow> w = 2" for w
    using int_u32_eq_iff [of w 0] int_u32_eq_iff [of w 1] int_u32_eq_iff [of w 2] by (simp_all add: int_u32_def)
  have "map ic_data (ed_stdin_data d) = map (lossy_string \<circ> pio_data) (filter (\<lambda>io. pio_fd io = 0) (captured_by ?x calls))"
    using recorded_data [OF rec, of "\<lambda>fd. fd = Some 0"] 
    unfolding d(3) same by (simp add: chunk comp_def fd)
  moreover have "map ic_data (ed_stdout_data d) =
      map (lossy_string \<circ> pio_data) (filter (\<lambda>io. pio_fd io \<in> {1, 2}) (captured_by ?x calls))"
    using recorded_data [OF rec, of "\<lambda>fd. fd = Some 1 \<or> fd = Some 2"] 
    unfolding d(4) same by (simp add: chunk comp_def fd)
  ultimately show ?thesis using d(1) exec_summary [OF d(2)] by blast
qed

text \<open>
  C2: What a traced process does is what the web server shows. After the exec event of a fresh execution
  has been stored, let the collector store any further events, of this and of other processes, with
  all statements answered: the detail of the stored exec, which a connection reads from that database, then shows the executed file and arguments,
  as input exactly the captured data of the execution's descriptor 0 and as output exactly that of the
  descriptors 1 and 2, in the order of the calls, and the exit code that the execution's last exit
  event carried, or none while there was none.
\<close>

theorem recording_is_shown:
  assumes "readable_db db" "list_all (\<lambda>r. \<not> of_execution (execution_of si e) r) (db_events db)"
    "answers_all env" "calls_ok (execution_of si e) calls" "db_seq db + 1 + int (length calls) < I64_MAX"
  shows "\<exists>d. repo_get_detail (Some (steady (collect calls (sqlite_on_exec env si e db)))) (db_seq db + 1) = Inr (Some d)
    \<and> es_session_id (ed_summary d) = si_session_id si \<and> es_pid (ed_summary d) = px_pid e
    \<and> es_filename (ed_summary d) = Some (px_filename e)
    \<and> es_argv (ed_summary d) = Some (se_json env (px_argv e))
    \<and> es_exit_code (ed_summary d) = exit_by (execution_of si e) calls
    \<and> map ic_data (ed_stdin_data d) =
        map (lossy_string \<circ> pio_data) (filter (\<lambda>io. pio_fd io = 0) (captured_by (execution_of si e) calls))
    \<and> map ic_data (ed_stdout_data d) =
        map (lossy_string \<circ> pio_data) (filter (\<lambda>io. pio_fd io \<in> {1, 2}) (captured_by (execution_of si e) calls))"
  using assms by (rule recorded_detail)

definition sample_write :: parsed_io_event where
  "sample_write = \<lparr>pio_pid = 7, pio_ppid = 1, pio_uid = 0, pio_gid = 0, pio_euid = 0, pio_comm = ''ls'',
     pio_tty_nr = 0, pio_cgroup_id = 1, pio_execution_id = 42, pio_fd = 1, pio_data = [104, 105], pio_count = 2\<rparr>"

definition sample_calls :: "(sql_env \<times> sink_call) list" where
  "sample_calls =
     [(sample_sql_env, CallIo sample_session sample_write Write),
      (sample_sql_env, CallIo sample_session (sample_write\<lparr>pio_pid := 8\<rparr>) Write),
      (sample_sql_env, CallExit sample_session sample_exit True)]"

theorem recording_is_shown_witness:
  "\<exists>d. repo_get_detail (Some (steady (collect sample_calls (sqlite_on_exec sample_sql_env sample_session sample_exec (empty_database True))))) 1
       = Inr (Some d)
     \<and> es_filename (ed_summary d) = Some ''/bin/ls'' \<and> es_exit_code (ed_summary d) = Some 3
     \<and> map ic_data (ed_stdout_data d) = [lossy_string [104, 105]] \<and> ed_stdin_data d = []"
proof -
  have ok: "readable_db (empty_database True)" "db_events (empty_database True) = []" "answers_all sample_sql_env"
    using wf_empty_database [of True]
    by (simp_all add: readable_db_def empty_database_def answers_all_def sample_sql_env_def)
  have calls: "calls_ok (execution_of sample_session sample_exec) sample_calls"
    by (simp add: calls_ok_def sample_calls_def ok(3) sample_write_def)
  have captured: "captured_by (execution_of sample_session sample_exec) sample_calls = [sample_write]"
    by (simp add: captured_by_def sample_calls_def concerns_def execution_of_def sample_session_def sample_exec_def sample_write_def)
  have exit: "exit_by (execution_of sample_session sample_exec) sample_calls = Some 3"
    by (simp add: exit_by_def sample_calls_def concerns_def execution_of_def sample_session_def sample_exec_def sample_exit_def)
  have seq: "db_seq (empty_database True) = 0" "length sample_calls = 3"
    by (simp_all add: empty_database_def sample_calls_def)
  show ?thesis
    using recording_is_shown [OF ok(1) _ ok(3) calls] ok(2) unfolding captured exit seq
    by (auto simp: I64_MAX_def sample_exec_def sample_write_def)
qed

end
