(* ===== verification/Routes.thy ===== *)
theory Routes
  imports Live
begin

text \<open>
  The route handlers of \<open>shspectr-web/src/application/routes/\<close>: \<open>api.rs\<close>, \<open>app.rs\<close>,
  \<open>static_assets.rs\<close>, the helper of \<open>support.rs\<close>, the header middleware of \<open>middleware.rs\<close> and the
  composition in \<open>mod.rs\<close>. A handler takes the repository it finds in the application state and
  returns a response; \<open>None\<close> is a panic, which only the slice in the row view can cause.

  \<open>front\<close> holds what the handlers call outside the repository: the compiled templates (\<open>None\<close> is a
  render error), the JSON serialiser, the style sheet that the build produces, and what the web
  framework adds: the headers of an event stream, the text of a rejected request and the decoding of
  a path segment. Its compression and tracing layers are not modelled.
\<close>

record front =
  fr_env :: web_env
  fr_styles :: string
  fr_event_row :: "event_summary_view \<Rightarrow> string option"
  fr_event_list :: "paginated \<Rightarrow> list_navigator \<Rightarrow> string option"
  fr_rows_append :: "paginated \<Rightarrow> string option"
  fr_pagination :: "paginated \<Rightarrow> list_navigator \<Rightarrow> string option"
  fr_event_detail :: "event_detail_view \<Rightarrow> string option"
  fr_index :: "string \<Rightarrow> paginated \<Rightarrow> list_navigator \<Rightarrow> string \<Rightarrow> filter_keyword_meta list \<Rightarrow> string option"
  fr_error :: "string \<Rightarrow> nat \<Rightarrow> string \<Rightarrow> string \<Rightarrow> string option"
  fr_page_json :: "event_summary page \<Rightarrow> string option"
  fr_keywords_json :: "filter_keyword_meta list \<Rightarrow> string"
  fr_sse_headers :: "(string \<times> string) list"
  fr_rejection :: string
  fr_path_decode :: "string \<Rightarrow> string option"

section \<open>Responses\<close>

datatype body = Empty | Text string | Stream "sse_event list"

record response =
  rs_status :: nat
  rs_headers :: "(string \<times> string) list"
  rs_body :: body

definition OK :: nat where "OK = 200"
definition NOT_FOUND :: nat where "NOT_FOUND = 404"
definition INTERNAL_SERVER_ERROR :: nat where "INTERNAL_SERVER_ERROR = 500"

definition status_response :: "nat \<Rightarrow> response" where
  "status_response status = \<lparr>rs_status = status, rs_headers = [], rs_body = Empty\<rparr>"

definition text_response :: "nat \<Rightarrow> (string \<times> string) list \<Rightarrow> string \<Rightarrow> response" where
  "text_response status headers body = \<lparr>rs_status = status, rs_headers = headers, rs_body = Text body\<rparr>"

definition sse_response :: "front \<Rightarrow> sse_event list \<Rightarrow> response" where
  "sse_response fr events =
     \<lparr>rs_status = OK, rs_headers = fr_sse_headers fr, rs_body = Stream events\<rparr>"

definition HTML :: "(string \<times> string) list" where
  "HTML = [(''content-type'', ''text/html; charset=utf-8'')]"

definition html_or_error :: "nat \<Rightarrow> string option \<Rightarrow> response" where
  "html_or_error status html =
     (case html of Some h \<Rightarrow> text_response status HTML h | None \<Rightarrow> status_response INTERNAL_SERVER_ERROR)"

section \<open>Requests\<close>

definition DATASTAR_REQUEST_HEADER :: string where "DATASTAR_REQUEST_HEADER = ''datastar-request''"

definition is_datastar_request :: "header_map \<Rightarrow> bool" where
  "is_datastar_request headers \<longleftrightarrow>
     Option.bind (headers DATASTAR_REQUEST_HEADER) header_to_str = Some ''true''"

record event_list_params =
  pr_page :: u32
  pr_page_size :: u32
  pr_sort :: event_sort_key
  pr_dir :: sort_direction
  pr_q :: string
  pr_append :: bool

definition default_page :: u32 where "default_page = 1"
definition default_page_size :: u32 where "default_page_size = 25"

text \<open>
  The derived deserialisation: a missing field takes its default, a value that does not parse rejects
  the request (\<open>None\<close>), other fields are ignored.
\<close>

definition field_or :: "'a \<Rightarrow> (string \<Rightarrow> 'a option) \<Rightarrow> (string \<times> string) list \<Rightarrow> string \<Rightarrow> 'a option" where
  "field_or d parse params name =
     (case filter (\<lambda>(k, v). k = name) params of
        [] \<Rightarrow> Some d
      | [(k, v)] \<Rightarrow> parse v
      | _ \<Rightarrow> None)"

definition parse_sort_key :: "string \<Rightarrow> event_sort_key option" where
  "parse_sort_key s =
     (if s = ''timestamp'' then Some Timestamp else if s = ''comm'' then Some Comm
      else if s = ''exit_code'' then Some ExitCode else None)"

definition parse_direction :: "string \<Rightarrow> sort_direction option" where
  "parse_direction s = (if s = ''asc'' then Some Asc else if s = ''desc'' then Some Desc else None)"

definition parse_bool :: "string \<Rightarrow> bool option" where
  "parse_bool s = (if s = ''true'' then Some True else if s = ''false'' then Some False else None)"

definition event_list_params_from :: "(string \<times> string) list \<Rightarrow> event_list_params option" where
  "event_list_params_from params =
     Option.bind (field_or default_page parse_u32 params ''page'') (\<lambda>n.
     Option.bind (field_or default_page_size parse_u32 params ''page_size'') (\<lambda>size.
     Option.bind (field_or Timestamp parse_sort_key params ''sort'') (\<lambda>key.
     Option.bind (field_or Desc parse_direction params ''dir'') (\<lambda>dir.
     Option.bind (field_or [] Some params ''q'') (\<lambda>q.
     Option.bind (field_or False parse_bool params ''append'') (\<lambda>append.
       Some \<lparr>pr_page = n, pr_page_size = size, pr_sort = key, pr_dir = dir, pr_q = q, pr_append = append\<rparr>))))))"

section \<open>The event list\<close>

definition clamp_u32 :: "u32 \<Rightarrow> u32 \<Rightarrow> u32 \<Rightarrow> u32" where
  "clamp_u32 lo hi x = (if x < lo then lo else if hi < x then hi else x)"

definition list_request_of :: "event_list_params \<Rightarrow> list_request" where
  "list_request_of params =
     \<lparr>lr_page = max (pr_page params) 1, lr_page_size = clamp_u32 1 100 (pr_page_size params),
      lr_sort = pr_sort params, lr_direction = pr_dir params\<rparr>"

definition patch_event :: "string \<Rightarrow> sse_event" where
  "patch_event data =
     sse_default\<lparr>sse_event_name := Some ''datastar-patch-elements'', sse_data := Some data\<rparr>"

definition infinite_scroll_response :: "front \<Rightarrow> event_summary page \<Rightarrow> event_filter \<Rightarrow> event_sort_key
    \<Rightarrow> sort_direction \<Rightarrow> u32 \<Rightarrow> response option" where
  "infinite_scroll_response fr p f key dir page_size =
     map_option (\<lambda>paginated.
       let nav = list_navigator_new f key dir page_size;
           rows_html = unwrap_or [] (fr_rows_append fr paginated);
           sentinel_html = unwrap_or [] (fr_pagination fr paginated nav)
       in sse_response fr
            [patch_event (sse_patch_elements rows_html ''#event-rows'' Append),
             patch_event (sse_patch_elements sentinel_html ''#load-more-sentinel'' Replace)])
       (paginated_from (fr_env fr) p)"

definition JSON :: "(string \<times> string) list" where
  "JSON = [(''content-type'', ''application/json'')]"

definition list_events :: "front \<Rightarrow> event_repo \<Rightarrow> header_map \<Rightarrow> event_list_params \<Rightarrow> response option" where
  "list_events fr repo headers params =
     (let f = event_filter_parse (pr_q params); req = list_request_of params
      in case rp_list repo req f of
           Inl _ \<Rightarrow> Some (status_response INTERNAL_SERVER_ERROR)
         | Inr p \<Rightarrow>
             if is_datastar_request headers then
               if pr_append params
               then infinite_scroll_response fr p f (pr_sort params) (pr_dir params) (lr_page_size req)
               else map_option (\<lambda>paginated.
                      let nav = list_navigator_new f (pr_sort params) (pr_dir params) (lr_page_size req)
                      in case fr_event_list fr paginated nav of
                           Some html \<Rightarrow> sse_response fr [patch_event (sse_patch_elements html ''#event-list-container'' Outer)]
                         | None \<Rightarrow> status_response INTERNAL_SERVER_ERROR)
                    (from_page_with_warnings (fr_env fr) p (f_warnings f))
             else (case fr_page_json fr p of
                     Some json \<Rightarrow> Some (text_response OK JSON json)
                   | None \<Rightarrow> Some (status_response INTERNAL_SERVER_ERROR)))"

section \<open>One event\<close>

datatype stream_kind = Stdin | Stdout

definition raw_text :: "stream_kind option \<Rightarrow> event_detail \<Rightarrow> string" where
  "raw_text stream detail =
     (case (case stream of Some k \<Rightarrow> k | None \<Rightarrow> Stdout) of
        Stdin \<Rightarrow> chunks_text (ed_stdin_data detail)
      | Stdout \<Rightarrow> chunks_text (ed_stdout_data detail))"

definition get_event_raw :: "event_repo \<Rightarrow> int \<Rightarrow> stream_kind option \<Rightarrow> response" where
  "get_event_raw repo i stream =
     (case rp_get_detail repo i of
        Inr (Some detail) \<Rightarrow>
          text_response OK [(''content-type'', ''text/plain; charset=utf-8''), (''x-content-type-options'', ''nosniff'')]
            (raw_text stream detail)
      | Inr None \<Rightarrow> status_response NOT_FOUND
      | Inl _ \<Rightarrow> status_response INTERNAL_SERVER_ERROR)"

definition EVENT_NOT_FOUND :: string where
  "EVENT_NOT_FOUND = ''<tr><td colspan='' @ quoted ''5'' @ '' class='' @ quoted ''px-3 py-4 text-center text-red-400''
     @ ''>Event not found.</td></tr>''"

definition get_event_detail :: "front \<Rightarrow> event_repo \<Rightarrow> int \<Rightarrow> response" where
  "get_event_detail fr repo i =
     (case rp_get_detail repo i of
        Inr (Some detail) \<Rightarrow> html_or_error OK (fr_event_detail fr (event_detail_view_from (fr_env fr) detail))
      | Inr None \<Rightarrow> text_response NOT_FOUND HTML EVENT_NOT_FOUND
      | Inl _ \<Rightarrow> status_response INTERNAL_SERVER_ERROR)"

definition filter_keywords :: "front \<Rightarrow> response" where
  "filter_keywords fr = text_response OK JSON (fr_keywords_json fr FILTER_KEYWORDS)"

section \<open>Pages\<close>

definition index_page :: "front \<Rightarrow> event_repo \<Rightarrow> string \<Rightarrow> response option" where
  "index_page fr repo q =
     (let f = event_filter_parse q; req = list_request_default
      in case rp_list repo req f of
           Inl _ \<Rightarrow> Some (status_response INTERNAL_SERVER_ERROR)
         | Inr p \<Rightarrow>
             map_option (\<lambda>paginated.
               html_or_error OK (fr_index fr (fr_styles fr) paginated
                 (list_navigator_new f (lr_sort req) (lr_direction req) (lr_page_size req)) q FILTER_KEYWORDS))
             (paginated_from (fr_env fr) p))"

definition error_page :: "front \<Rightarrow> nat \<Rightarrow> string \<Rightarrow> string \<Rightarrow> response" where
  "error_page fr status title message =
     (case fr_error fr (fr_styles fr) status title message of
        Some html \<Rightarrow> text_response status HTML html
      | None \<Rightarrow> status_response status)"

definition not_found :: "front \<Rightarrow> response" where
  "not_found fr = error_page fr NOT_FOUND ''Page not found''
     (''The page you'' @ CHR 0x27 # ''re looking for doesn'' @ CHR 0x27 # ''t exist.'')"

definition internal_error :: "front \<Rightarrow> response" where
  "internal_error fr = error_page fr INTERNAL_SERVER_ERROR ''Internal server error''
     ''Something went wrong. Check the server logs for details.''"

definition styles :: "front \<Rightarrow> response" where
  "styles fr = text_response OK [(''content-type'', ''text/css'')] (fr_styles fr)"

section \<open>Middleware\<close>

definition sq :: "string \<Rightarrow> string" where "sq s = CHR 0x27 # s @ [CHR 0x27]"

definition CSP_VALUE :: string where
  "CSP_VALUE =
     ''default-src '' @ sq ''self'' @ ''; ''
     @ ''script-src '' @ sq ''self'' @ '' '' @ sq ''unsafe-eval'' @ '' '' @ sq ''unsafe-inline'' @ '' https://cdn.jsdelivr.net; ''
     @ ''style-src '' @ sq ''self'' @ '' '' @ sq ''unsafe-inline'' @ ''; ''
     @ ''connect-src '' @ sq ''self'' @ '' https://cdn.jsdelivr.net; ''
     @ ''img-src '' @ sq ''self'' @ ''; ''
     @ ''font-src '' @ sq ''self''"

text \<open>\<open>HeaderMap::insert\<close> replaces every value of the name.\<close>

definition header_insert :: "string \<Rightarrow> string \<Rightarrow> (string \<times> string) list \<Rightarrow> (string \<times> string) list" where
  "header_insert name v hs = filter (\<lambda>(n, _). n \<noteq> name) hs @ [(name, v)]"

definition security_headers :: "response \<Rightarrow> response" where
  "security_headers r =
     (let headers = rs_headers r;
          headers = header_insert ''content-security-policy'' CSP_VALUE headers;
          headers = header_insert ''x-frame-options'' ''DENY'' headers;
          headers = header_insert ''x-content-type-options'' ''nosniff'' headers
      in r\<lparr>rs_headers := headers\<rparr>)"

section \<open>The router\<close>

record http_request =
  rq_method :: string
  rq_target :: string
  rq_headers :: header_map

datatype endpoint = EIndex | EList | ELive | EDetail string | ERaw string | EKeywords | EStyles | EFallback

definition endpoint_of :: "string \<Rightarrow> endpoint" where
  "endpoint_of path =
     (if path = ''/'' then EIndex
      else if path = ''/api/v1/events'' then EList
      else if path = ''/api/v1/events/live'' then ELive
      else if path = ''/api/v1/filters/keywords'' then EKeywords
      else if path = ''/static/css/styles.css'' then EStyles
      else (case str_split (CHR ''/'') path of
              [a, b, c, d, i, e] \<Rightarrow>
                if a = [] \<and> b = ''api'' \<and> c = ''v1'' \<and> d = ''events'' \<and> i \<noteq> [] then
                  if e = ''detail'' then EDetail i else if e = ''raw'' then ERaw i else EFallback
                else EFallback
            | _ \<Rightarrow> EFallback))"

definition path_of :: "string \<Rightarrow> string" where
  "path_of target = (case split_once (CHR ''?'') target of None \<Rightarrow> target | Some (path, _) \<Rightarrow> path)"

definition bad_request :: "front \<Rightarrow> response" where
  "bad_request fr = text_response 400 [(''content-type'', ''text/plain; charset=utf-8'')] (fr_rejection fr)"

definition live_events :: "front \<Rightarrow> event_repo \<Rightarrow> event_repo list \<Rightarrow> header_map \<Rightarrow> string \<Rightarrow> response option" where
  "live_events fr repo ticks headers q =
     map_option (\<lambda>(events, _). sse_response fr (concat events))
       (live_stream (fr_env fr) (fr_event_row fr) (event_filter_parse q) ticks (live_start repo headers))"

definition parse_stream :: "string \<Rightarrow> stream_kind option option" where
  "parse_stream s = (if s = ''stdin'' then Some (Some Stdin) else if s = ''stdout'' then Some (Some Stdout) else None)"

text \<open>
  A request is extracted before its handler runs; an extraction that fails is a rejected request.
  \<open>ticks\<close> are the repositories that a live stream polls.
\<close>

definition serve_get :: "front \<Rightarrow> event_repo \<Rightarrow> event_repo list \<Rightarrow> http_request \<Rightarrow> response option" where
  "serve_get fr repo ticks req =
     (let params = url_params (rq_target req);
          id_of = (\<lambda>seg. Option.bind (fr_path_decode fr seg) parse_i64)
      in case endpoint_of (path_of (rq_target req)) of
           EIndex \<Rightarrow> (case field_or [] Some params ''q'' of
               None \<Rightarrow> Some (bad_request fr) | Some q \<Rightarrow> index_page fr repo q)
         | EList \<Rightarrow> (case event_list_params_from params of
               None \<Rightarrow> Some (bad_request fr) | Some ps \<Rightarrow> list_events fr repo (rq_headers req) ps)
         | ELive \<Rightarrow> (case field_or [] Some params ''q'' of
               None \<Rightarrow> Some (bad_request fr) | Some q \<Rightarrow> live_events fr repo ticks (rq_headers req) q)
         | EDetail seg \<Rightarrow> (case id_of seg of
               None \<Rightarrow> Some (bad_request fr) | Some i \<Rightarrow> Some (get_event_detail fr repo i))
         | ERaw seg \<Rightarrow> (case (id_of seg, field_or None parse_stream params ''stream'') of
               (Some i, Some stream) \<Rightarrow> Some (get_event_raw repo i stream) | _ \<Rightarrow> Some (bad_request fr))
         | EKeywords \<Rightarrow> Some (filter_keywords fr)
         | EStyles \<Rightarrow> Some (styles fr)
         | EFallback \<Rightarrow> Some (not_found fr))"

text \<open>A route answers GET, HEAD without a body, and no other method; the fallback answers all.\<close>

definition router :: "front \<Rightarrow> event_repo \<Rightarrow> event_repo list \<Rightarrow> http_request \<Rightarrow> response option" where
  "router fr repo ticks req =
     (let r = (if endpoint_of (path_of (rq_target req)) = EFallback \<or> rq_method req \<in> {''GET'', ''HEAD''}
               then serve_get fr repo ticks req
               else Some \<lparr>rs_status = 405, rs_headers = [(''allow'', ''GET,HEAD'')], rs_body = Empty\<rparr>);
          r = (if rq_method req = ''HEAD'' then map_option (\<lambda>r. r\<lparr>rs_body := Empty\<rparr>) r else r)
      in map_option security_headers r)"

section \<open>Following the scroll link\<close>

lemma scroll_params:
  assumes "CHR ''+'' \<notin> set (ln_query nav)"
  shows "url_params (page_url nav n @ ''&append=true'') =
     [(''page'', dec (unat n)), (''page_size'', dec (unat (ln_page_size nav))),
      (''sort'', sort_key_display (ln_sort nav)), (''dir'', direction_display (ln_direction nav)),
      (''q'', ln_query nav), (''append'', ''true'')]"
    "path_of (page_url nav n @ ''&append=true'') = ''/api/v1/events''"
proof -
  let ?pre = "''page='' @ dec (unat n) @ ''&page_size='' @ dec (unat (ln_page_size nav))
     @ ''&sort='' @ sort_key_display (ln_sort nav) @ ''&dir='' @ direction_display (ln_direction nav)"
  let ?query = "?pre @ ''&q='' @ urlencoded (ln_query nav) @ ''&append=true''"
  have url: "page_url nav n @ ''&append=true'' = ''/api/v1/events'' @ CHR ''?'' # ?query" by (simp add: page_url_def)
  have once: "split_once (CHR ''?'') (''/api/v1/events'' @ CHR ''?'' # ?query) = Some (''/api/v1/events'', ?query)"
    unfolding split_once_Some by simp
  have split: "str_split (CHR ''&'') ?query =
     [''page'' @ CHR ''='' # dec (unat n), ''page_size'' @ CHR ''='' # dec (unat (ln_page_size nav)),
      ''sort'' @ CHR ''='' # sort_key_display (ln_sort nav), ''dir'' @ CHR ''='' # direction_display (ln_direction nav),
      ''q'' @ CHR ''='' # urlencoded (ln_query nav), ''append'' @ CHR ''='' # ''true'']"
    using str_split_cat [of "CHR ''&''" "''page='' @ dec (unat n)"]
      str_split_cat [of "CHR ''&''" "''page_size='' @ dec (unat (ln_page_size nav))"]
      str_split_cat [of "CHR ''&''" "''sort='' @ sort_key_display (ln_sort nav)"]
      str_split_cat [of "CHR ''&''" "''dir='' @ direction_display (ln_direction nav)"]
      str_split_cat [of "CHR ''&''" "''q='' @ urlencoded (ln_query nav)"]
    by (simp add: words_clean urlencoded_clean)
  have "url_params (page_url nav n @ ''&append=true'') = map url_param (str_split (CHR ''&'') ?query)"
    unfolding url url_params_def once by (simp only: option.case prod.case)
  moreover have "url_decode ''append'' = ''append''" "url_decode ''true'' = ''true''"
    by (simp_all add: url_decode_plain)
  ultimately show "url_params (page_url nav n @ ''&append=true'') =
     [(''page'', dec (unat n)), (''page_size'', dec (unat (ln_page_size nav))),
      (''sort'', sort_key_display (ln_sort nav)), (''dir'', direction_display (ln_direction nav)),
      (''q'', ln_query nav), (''append'', ''true'')]"
    unfolding split using assms by (simp add: url_param_field url_words url_decode_encoded del: append_Cons append_Nil)
  show "path_of (page_url nav n @ ''&append=true'') = ''/api/v1/events''"
    unfolding url path_of_def once by (simp only: option.case prod.case)
qed

lemma parse_words: "parse_sort_key (sort_key_display k) = Some k" "parse_direction (direction_display d) = Some d"
  by (cases k; simp add: parse_sort_key_def sort_key_display_def) (cases d; simp add: parse_direction_def)

lemma scroll_request:
  assumes "CHR ''+'' \<notin> set (ln_query nav)"
  shows "event_list_params_from (url_params (page_url nav n @ ''&append=true'')) =
    Some \<lparr>pr_page = n, pr_page_size = ln_page_size nav, pr_sort = ln_sort nav, pr_dir = ln_direction nav,
          pr_q = ln_query nav, pr_append = True\<rparr>"
  unfolding scroll_params [OF assms]
  by (simp add: event_list_params_from_def field_or_def parse_u32_dec parse_words parse_bool_def)

text \<open>
  C23: For every query without a plus sign, every page \<open>n\<close> from 1 and every page size from 1 to 100, infinite
  scrolling keeps its list: the request that the scroll sentinel of a list makes for page \<open>n\<close>, sent by the
  page's own script, reaches the event list handler, which asks the repository for exactly that page with
  the page size, the order and the filter of the list; and when the repository answers with a page that can
  be presented, the response holds the rows to append and a sentinel rendered for the same navigator, each
  empty if its template fails, so that the next request continues the same list. (A plus sign in the
  query is lost on the way: \<open>plus_is_lost\<close>.)
\<close>

theorem scroll_link_is_followed:
  assumes "valid_string q" "CHR ''+'' \<notin> set q" "1 \<le> n" "1 \<le> s" "s \<le> 100" "is_datastar_request headers"
    and page: "rp_list repo \<lparr>lr_page = n, lr_page_size = s, lr_sort = k, lr_direction = d\<rparr> (event_filter_parse q) = Inr p"
    and view: "paginated_from (fr_env fr) p = Some v"
  shows "let nav = list_navigator_new (event_filter_parse q) k d s in
    router fr repo ticks
      \<lparr>rq_method = ''GET'', rq_target = page_url nav n @ ''&append=true'', rq_headers = headers\<rparr> =
    Some (security_headers (sse_response fr
      [patch_event (sse_patch_elements (unwrap_or [] (fr_rows_append fr v)) ''#event-rows'' Append),
       patch_event (sse_patch_elements (unwrap_or [] (fr_pagination fr v nav)) ''#load-more-sentinel'' Replace)]))"
proof -
  let ?nav = "list_navigator_new (event_filter_parse q) k d s"
  have query: "ln_query ?nav = str_trim q" by (simp add: list_navigator_new_def raw_is_trimmed)
  then have clean: "CHR ''+'' \<notin> set (ln_query ?nav)" using assms(2) trim_subset by fastforce
  have "list_request_of \<lparr>pr_page = n, pr_page_size = s, pr_sort = k, pr_dir = d, pr_q = str_trim q, pr_append = True\<rparr> =
      \<lparr>lr_page = n, lr_page_size = s, lr_sort = k, lr_direction = d\<rparr>"
    using assms(3-5) by (auto simp: list_request_of_def clamp_u32_def)
  moreover have "serve_get fr repo ticks
      \<lparr>rq_method = ''GET'', rq_target = page_url ?nav n @ ''&append=true'', rq_headers = headers\<rparr> =
    list_events fr repo headers \<lparr>pr_page = n, pr_page_size = s, pr_sort = k, pr_dir = d, pr_q = str_trim q, pr_append = True\<rparr>"
    unfolding serve_get_def Let_def http_request.simps scroll_params(2) [OF clean] scroll_request [OF clean] query
    by (simp add: endpoint_of_def list_navigator_new_def)
  ultimately show ?thesis
    using assms(1,6) page view unfolding router_def
    by (simp add: list_events_def infinite_scroll_response_def parse_trimmed Let_def)
qed

definition empty_repo :: event_repo where
  "empty_repo = \<lparr>rp_list = \<lambda>req f. Inr \<lparr>pg_items = [], pg_page = lr_page req, pg_page_size = lr_page_size req, pg_total_items = 0\<rparr>,
     rp_get_detail = \<lambda>i. Inr None, rp_list_since = \<lambda>i f. Inr [], rp_max_event_id = Inr 0\<rparr>"

definition plain_front :: front where
  "plain_front =
     \<lparr>fr_env = \<lparr>we_passwd = [], we_json = \<lambda>s. None, we_ansi = \<lambda>s. None\<rparr>, fr_styles = [], fr_event_row = \<lambda>v. None,
      fr_event_list = \<lambda>p nav. Some [], fr_rows_append = \<lambda>p. Some ''rows'', fr_pagination = \<lambda>p nav. Some (page_url nav (pn_page p + 1)),
      fr_event_detail = \<lambda>v. Some [], fr_index = \<lambda>a b c d e. Some [], fr_error = \<lambda>a b c d. Some [],
      fr_page_json = \<lambda>p. Some [], fr_keywords_json = \<lambda>ks. [], fr_sse_headers = [], fr_rejection = [],
      fr_path_decode = Some\<rparr>"

theorem scroll_link_is_followed_witness:
  "router plain_front empty_repo []
      \<lparr>rq_method = ''GET'',
       rq_target = page_url (list_navigator_new (event_filter_parse ''!exit:0 a=b'') Comm Asc 50) 2 @ ''&append=true'',
       rq_headers = [''datastar-request'' \<mapsto> ''true'']\<rparr> \<noteq> None"
proof -
  have "valid_string ''!exit:0 a=b''" by (intro valid_ascii) (simp add: u8_of_char_def)
  moreover have "is_datastar_request [''datastar-request'' \<mapsto> ''true'']"
    by (simp add: is_datastar_request_def DATASTAR_REQUEST_HEADER_def header_to_str_def u8_of_char_def)
  moreover have "\<exists>v. paginated_from (fr_env plain_front)
      \<lparr>pg_items = [], pg_page = 2, pg_page_size = 50, pg_total_items = 0\<rparr> = Some v"
    by (simp add: paginated_from_def)
  ultimately show ?thesis
    using scroll_link_is_followed [of "''!exit:0 a=b''" 2 50 "[''datastar-request'' \<mapsto> ''true'']" empty_repo Comm Asc
        "\<lparr>pg_items = [], pg_page = 2, pg_page_size = 50, pg_total_items = 0\<rparr>" plain_front]
    by (auto simp: empty_repo_def Let_def)
qed

section \<open>Hardening\<close>

text \<open>
  C40: Every response that the router sends, error pages, rejected requests and unknown paths included,
  carries each of the three security headers exactly once and with its fixed value, whatever headers
  the handler has set.
\<close>

theorem responses_are_hardened:
  assumes "router fr repo ticks req = Some r"
  shows "filter (\<lambda>(name, v). name \<in> {''content-security-policy'', ''x-frame-options'', ''x-content-type-options''}) (rs_headers r)
    = [(''content-security-policy'', CSP_VALUE), (''x-frame-options'', ''DENY''), (''x-content-type-options'', ''nosniff'')]"
proof -
  obtain r0 where "r = security_headers r0" using assms by (auto simp: router_def Let_def)
  then show ?thesis
    by (auto simp: security_headers_def header_insert_def Let_def filter_empty_conv)
qed

theorem responses_are_hardened_witness:
  "\<exists>r. router plain_front empty_repo [] \<lparr>rq_method = ''GET'', rq_target = ''/api/v1/events/7/raw'', rq_headers = Map.empty\<rparr> = Some r
     \<and> rs_status r = 404
     \<and> filter (\<lambda>(name, v). name \<in> {''content-security-policy'', ''x-frame-options'', ''x-content-type-options''}) (rs_headers r)
       = [(''content-security-policy'', CSP_VALUE), (''x-frame-options'', ''DENY''), (''x-content-type-options'', ''nosniff'')]"
proof -
  have "parse_i64 ''7'' = Some 7" by code_simp
  then have "router plain_front empty_repo [] \<lparr>rq_method = ''GET'', rq_target = ''/api/v1/events/7/raw'', rq_headers = Map.empty\<rparr>
      = Some (security_headers (status_response NOT_FOUND))"
    by (simp add: router_def serve_get_def path_of_def endpoint_of_def plain_front_def empty_repo_def Let_def
        url_params_def field_or_def get_event_raw_def)
  from responses_are_hardened [OF this] this show ?thesis
    by (simp add: security_headers_def status_response_def NOT_FOUND_def Let_def)
qed

end
