(* ===== verification/Migration.thy ===== *)
theory Migration
  imports Sql SqliteSink
begin

text \<open>
  Opening the database, \<open>SqliteSink::open\<close> with \<open>ensure_schema_compat\<close> and
  \<open>migrate_event_type_to_integer\<close> of \<open>shspectr/src/sqlite_sink.rs\<close>, and the schema of
  \<open>shspectr-common/src/schema.rs\<close> that both run. Here a database is its tables with their declared
  columns, because that is what the migration changes; \<open>stored\<close> relates it to the typed rows of
  theory Database.

  SQLite itself is not code of the repository; a statement does what its documentation says. Each
  runs in a transaction of its own, as the code begins none. \<open>fails\<close> are the statements that fail
  for a reason outside the model.
\<close>

section \<open>Tables\<close>

record column =
  cl_name :: string
  cl_type :: string
  cl_not_null :: bool

type_synonym row = "string \<Rightarrow> sql_value"

record table =
  tb_columns :: "column list"
  tb_rows :: "row list"
  tb_seq :: int

record store =
  st_fk :: bool
  st_tables :: "(string \<times> table) list"
  st_indexes :: "(string \<times> string) list"

definition column_names :: "table \<Rightarrow> string list" where
  "column_names t = map cl_name (tb_columns t)"

definition has_index :: "string \<Rightarrow> store \<Rightarrow> bool" where
  "has_index i st \<longleftrightarrow> i \<in> set (map fst (st_indexes st))"

definition without :: "string \<Rightarrow> (string \<times> 'a) list \<Rightarrow> (string \<times> 'a) list" where
  "without name ts = filter (\<lambda>(n, _). n \<noteq> name) ts"

definition set_table :: "string \<Rightarrow> table \<Rightarrow> store \<Rightarrow> store" where
  "set_table name t st = st\<lparr>st_tables := (name, t) # without name (st_tables st)\<rparr>"

section \<open>Statements\<close>

datatype statement =
  CreateTable string "column list"
| CreateIndex string string "string list"
| AddColumn string column sql_value
| RenameTable string string
| CopyEvents string string "string list"
| DropTable string
| Pragma string

text \<open>The CASE expression of the copying SELECT; without ELSE, any other value gives NULL.\<close>

definition case_event_type :: "sql_value \<Rightarrow> sql_value" where
  "case_event_type v =
     (if v = VText ''exec'' then VInt 0 else if v = VText ''read'' then VInt 2
      else if v = VText ''write'' then VInt 3 else if v = VText ''exit'' then VInt 4 else VNull)"

definition copied_row :: "string list \<Rightarrow> row \<Rightarrow> row" where
  "copied_row cols r =
     (\<lambda>c. if c = ''event_type'' then case_event_type (r c) else if c \<in> set cols then r c else VNull)"

definition row_id :: "row \<Rightarrow> int" where
  "row_id r = (case r ''id'' of VInt i \<Rightarrow> i | _ \<Rightarrow> 0)"

definition parent_exists :: "store \<Rightarrow> row \<Rightarrow> bool" where
  "parent_exists st r \<longleftrightarrow>
     (case map_of (st_tables st) ''sessions'' of
        None \<Rightarrow> False
      | Some t \<Rightarrow> list_ex (\<lambda>s. s ''id'' = r ''session_id'') (tb_rows t))"

text \<open>What the constraints of the table \<open>events\<close> demand of rows inserted together.\<close>

definition insertable :: "store \<Rightarrow> table \<Rightarrow> row list \<Rightarrow> bool" where
  "insertable st t rs \<longleftrightarrow>
     list_all (\<lambda>r. list_all (\<lambda>c. cl_not_null c \<longrightarrow> r (cl_name c) \<noteq> VNull) (tb_columns t)) rs
     \<and> distinct (map row_id (tb_rows t @ rs))
     \<and> (st_fk st \<longrightarrow> list_all (parent_exists st) rs)"

fun exec_statement :: "statement \<Rightarrow> store \<Rightarrow> store option" where
  "exec_statement (CreateTable name cols) st =
     (case map_of (st_tables st) name of
        Some _ \<Rightarrow> Some st
      | None \<Rightarrow> Some (set_table name \<lparr>tb_columns = cols, tb_rows = [], tb_seq = 0\<rparr> st))"
| "exec_statement (CreateIndex name tbl cols) st =
     (case map_of (st_tables st) tbl of
        None \<Rightarrow> None
      | Some t \<Rightarrow>
          if has_index name st then Some st
          else if set cols \<subseteq> set (column_names t)
          then Some (st\<lparr>st_indexes := (name, tbl) # st_indexes st\<rparr>) else None)"
| "exec_statement (AddColumn tbl c dflt) st =
     (case map_of (st_tables st) tbl of
        None \<Rightarrow> None
      | Some t \<Rightarrow>
          if cl_name c \<in> set (column_names t) \<or> (cl_not_null c \<and> dflt = VNull) then None
          else Some (set_table tbl
            (t\<lparr>tb_columns := tb_columns t @ [c],
               tb_rows := map (\<lambda>r. r(cl_name c := dflt)) (tb_rows t)\<rparr>) st))"
| "exec_statement (RenameTable old new) st =
     (case (map_of (st_tables st) old, map_of (st_tables st) new) of
        (Some t, None) \<Rightarrow>
          Some (st\<lparr>st_tables := (new, t) # without old (st_tables st),
                   st_indexes := map (\<lambda>(i, n). (i, if n = old then new else n)) (st_indexes st)\<rparr>)
      | _ \<Rightarrow> None)"
| "exec_statement (CopyEvents src dst cols) st =
     (case (map_of (st_tables st) src, map_of (st_tables st) dst) of
        (Some s, Some d) \<Rightarrow>
          let rs = map (copied_row cols) (tb_rows s)
          in if set cols \<subseteq> set (column_names s) \<and> set cols \<subseteq> set (column_names d) \<and> insertable st d rs
             then Some (set_table dst (d\<lparr>tb_rows := tb_rows d @ rs, tb_seq := foldl max (tb_seq d) (map row_id rs)\<rparr>) st)
             else None
      | _ \<Rightarrow> None)"
| "exec_statement (DropTable name) st =
     (case map_of (st_tables st) name of
        None \<Rightarrow> None
      | Some _ \<Rightarrow> Some (st\<lparr>st_tables := without name (st_tables st),
                          st_indexes := filter (\<lambda>(_, n). n \<noteq> name) (st_indexes st)\<rparr>))"
| "exec_statement (Pragma _) st = Some st"

text \<open>\<open>execute_batch\<close>: stops at the first error and keeps what the statements before it did.\<close>

fun execute_batch :: "(statement \<Rightarrow> bool) \<Rightarrow> statement list \<Rightarrow> store \<Rightarrow> store \<times> bool" where
  "execute_batch fails [] st = (st, True)"
| "execute_batch fails (s # ss) st =
     (if fails s then (st, False)
      else (case exec_statement s st of
              None \<Rightarrow> (st, False)
            | Some st' \<Rightarrow> execute_batch fails ss st'))"

text \<open>The operator \<open>?\<close> between two fallible steps.\<close>

definition and_then :: "store \<times> bool \<Rightarrow> (store \<Rightarrow> store \<times> bool) \<Rightarrow> store \<times> bool" where
  "and_then r f = (case r of (st, ok) \<Rightarrow> if ok then f st else (st, False))"

section \<open>The schema\<close>

definition col :: "string \<Rightarrow> string \<Rightarrow> bool \<Rightarrow> column" where
  "col name type not_null = \<lparr>cl_name = name, cl_type = type, cl_not_null = not_null\<rparr>"

definition SESSION_COLUMNS :: "column list" where
  "SESSION_COLUMNS =
     [col ''id'' ''TEXT'' False, col ''started_at'' ''TEXT'' True, col ''ended_at'' ''TEXT'' False,
      col ''root_pid'' ''INTEGER'' True, col ''root_comm'' ''TEXT'' False, col ''uid'' ''INTEGER'' True,
      col ''euid'' ''INTEGER'' True, col ''tty_nr'' ''INTEGER'' False, col ''cgroup_id'' ''INTEGER'' False]"

definition event_columns :: "string \<Rightarrow> column list" where
  "event_columns event_type =
     [col ''id'' ''INTEGER'' False, col ''session_id'' ''TEXT'' True, col ''event_type'' event_type True,
      col ''timestamp'' ''TEXT'' True, col ''pid'' ''INTEGER'' True, col ''ppid'' ''INTEGER'' True,
      col ''uid'' ''INTEGER'' True, col ''gid'' ''INTEGER'' True, col ''euid'' ''INTEGER'' True,
      col ''comm'' ''TEXT'' False, col ''tty_nr'' ''INTEGER'' False, col ''execution_id'' ''INTEGER'' True,
      col ''filename'' ''TEXT'' False, col ''argv'' ''TEXT'' False, col ''fd'' ''INTEGER'' False,
      col ''data'' ''TEXT'' False, col ''data_len'' ''INTEGER'' False, col ''byte_count'' ''INTEGER'' False,
      col ''exit_code'' ''INTEGER'' False]"

definition EVENT_COLUMNS :: "column list" where "EVENT_COLUMNS = event_columns ''INTEGER''"

definition SCHEMA :: "statement list" where
  "SCHEMA =
     [CreateTable ''sessions'' SESSION_COLUMNS,
      CreateTable ''events'' EVENT_COLUMNS,
      CreateIndex ''idx_events_session'' ''events'' [''session_id''],
      CreateIndex ''idx_events_timestamp'' ''events'' [''timestamp''],
      CreateIndex ''idx_events_type'' ''events'' [''session_id'', ''event_type''],
      CreateIndex ''idx_events_execution'' ''events'' [''session_id'', ''pid'', ''execution_id'', ''event_type'', ''id'']]"

section \<open>Opening\<close>

definition ascii_upper :: "char \<Rightarrow> char" where
  "ascii_upper c = (let b = unat (u8_of_char c) in if 97 \<le> b \<and> b \<le> 122 then char_of (b - 32) else c)"

definition eq_ignore_ascii_case :: "string \<Rightarrow> string \<Rightarrow> bool" where
  "eq_ignore_ascii_case a b \<longleftrightarrow> map ascii_upper a = map ascii_upper b"

definition COPIED :: "string list" where
  "COPIED =
     [''id'', ''session_id'', ''event_type'', ''timestamp'', ''pid'', ''ppid'', ''uid'', ''gid'', ''euid'',
      ''comm'', ''tty_nr'', ''execution_id'', ''filename'', ''argv'', ''fd'', ''data'', ''data_len'',
      ''byte_count'', ''exit_code'']"

definition migrate_event_type_to_integer :: "(statement \<Rightarrow> bool) \<Rightarrow> store \<Rightarrow> store \<times> bool" where
  "migrate_event_type_to_integer fails st =
     and_then (execute_batch fails [RenameTable ''events'' ''events_old''] st) (\<lambda>st.
     and_then (execute_batch fails SCHEMA st) (\<lambda>st.
     and_then (execute_batch fails [CopyEvents ''events_old'' ''events'' COPIED] st) (\<lambda>st.
       execute_batch fails [DropTable ''events_old''] st)))"

text \<open>\<open>PRAGMA table_info(events)\<close> lists no column when there is no such table.\<close>

definition ensure_schema_compat :: "(statement \<Rightarrow> bool) \<Rightarrow> store \<Rightarrow> store \<times> bool" where
  "ensure_schema_compat fails st =
     (if fails (Pragma ''table_info'') then (st, False)
      else let columns = (case map_of (st_tables st) ''events'' of None \<Rightarrow> [] | Some t \<Rightarrow> tb_columns t)
      in and_then
           (if list_ex (\<lambda>c. cl_name c = ''execution_id'') columns then (st, True)
            else execute_batch fails [AddColumn ''events'' (col ''execution_id'' ''INTEGER'' True) (VInt 0)] st)
           (\<lambda>st. case find (\<lambda>c. cl_name c = ''event_type'') columns of
              Some c \<Rightarrow>
                if eq_ignore_ascii_case (cl_type c) ''TEXT'' then migrate_event_type_to_integer fails st
                else (st, True)
            | None \<Rightarrow> (st, True)))"

definition sqlite_open :: "(statement \<Rightarrow> bool) \<Rightarrow> store \<Rightarrow> store \<times> bool" where
  "sqlite_open fails st =
     and_then (execute_batch fails SCHEMA st) (\<lambda>st.
     and_then (ensure_schema_compat fails st) (\<lambda>st.
       execute_batch fails [Pragma ''journal_mode=WAL'', Pragma ''synchronous=NORMAL''] st))"

section \<open>Steps\<close>

abbreviation reliable :: "statement \<Rightarrow> bool" where "reliable \<equiv> (\<lambda>s. False)"

lemma map_of_without [simp]: "map_of (without n ts) m = (if m = n then None else map_of ts m)"
  unfolding without_def by (induction ts) auto

lemma set_table_simps [simp]:
  "map_of (st_tables (set_table n t st)) m = (if m = n then Some t else map_of (st_tables st) m)"
  "st_fk (set_table n t st) = st_fk st" "st_indexes (set_table n t st) = st_indexes st"
  by (simp_all add: set_table_def)

lemma has_index_simps [simp]:
  "has_index i (st\<lparr>st_indexes := (j, t) # st_indexes st\<rparr>) \<longleftrightarrow> i = j \<or> has_index i st"
  "has_index i (set_table n u st) = has_index i st"
  by (auto simp: has_index_def)

lemma and_then_simps [simp]: "and_then (st, True) f = f st" "and_then (st, False) f = (st, False)"
  by (simp_all add: and_then_def)

lemma execute_append:
  "execute_batch fails (xs @ ys) st = and_then (execute_batch fails xs st) (execute_batch fails ys)"
  by (induction xs arbitrary: st) (auto split: option.split)

definition SCHEMA_INDEXES :: "(string \<times> string list) list" where
  "SCHEMA_INDEXES =
     [(''idx_events_session'', [''session_id'']), (''idx_events_timestamp'', [''timestamp'']),
      (''idx_events_type'', [''session_id'', ''event_type'']),
      (''idx_events_execution'', [''session_id'', ''pid'', ''execution_id'', ''event_type'', ''id''])]"

lemma SCHEMA_parts:
  "SCHEMA = [CreateTable ''sessions'' SESSION_COLUMNS, CreateTable ''events'' EVENT_COLUMNS]
     @ map (\<lambda>(i, cols). CreateIndex i ''events'' cols) SCHEMA_INDEXES"
  by (simp add: SCHEMA_def SCHEMA_INDEXES_def)

lemma indexes_created:
  assumes "map_of (st_tables st) ''events'' = Some t" "\<forall>(i, cols) \<in> set ixs. set cols \<subseteq> set (column_names t)"
  shows "\<exists>idx. execute_batch reliable (map (\<lambda>(i, cols). CreateIndex i ''events'' cols) ixs) st = (st\<lparr>st_indexes := idx\<rparr>, True)
    \<and> set (map fst idx) = set (map fst ixs) \<union> set (map fst (st_indexes st))"
  using assms
proof (induction ixs arbitrary: st)
  case Nil
  show ?case by (rule exI [of _ "st_indexes st"]) simp
next
  case (Cons ix ixs)
  obtain i cols where ix: "ix = (i, cols)" by fastforce
  define st1 where "st1 = (if has_index i st then st else st\<lparr>st_indexes := (i, ''events'') # st_indexes st\<rparr>)"
  have step: "exec_statement (CreateIndex i ''events'' cols) st = Some st1"
    using Cons.prems ix by (auto simp: st1_def)
  have "map_of (st_tables st1) ''events'' = Some t" using Cons.prems by (simp add: st1_def)
  from Cons.IH [OF this] Cons.prems(2) obtain idx where
    "execute_batch reliable (map (\<lambda>(i, cols). CreateIndex i ''events'' cols) ixs) st1 = (st1\<lparr>st_indexes := idx\<rparr>, True)"
    "set (map fst idx) = set (map fst ixs) \<union> set (map fst (st_indexes st1))" by auto
  moreover have "st1\<lparr>st_indexes := idx\<rparr> = st\<lparr>st_indexes := idx\<rparr>" by (simp add: st1_def)
  moreover have "set (map fst (st_indexes st1)) = insert i (set (map fst (st_indexes st)))"
    by (auto simp: st1_def has_index_def)
  ultimately show ?case unfolding ix by (auto simp: step simp del: exec_statement.simps)
qed

lemma index_columns: "\<forall>(i, cols) \<in> set SCHEMA_INDEXES. set cols \<subseteq> set (map cl_name (event_columns type))"
  by (simp add: SCHEMA_INDEXES_def event_columns_def col_def)

text \<open>On a database that has both tables the schema only adds the indexes that are missing.\<close>

lemma schema_on_existing:
  assumes "map_of (st_tables st) ''sessions'' = Some u" "map_of (st_tables st) ''events'' = Some t"
    "tb_columns t = event_columns type"
  shows "\<exists>idx. execute_batch reliable SCHEMA st = (st\<lparr>st_indexes := idx\<rparr>, True)
    \<and> set (map fst SCHEMA_INDEXES) \<subseteq> set (map fst idx)"
proof -
  obtain idx where idx: "execute_batch reliable (map (\<lambda>(i, cols). CreateIndex i ''events'' cols) SCHEMA_INDEXES) st
      = (st\<lparr>st_indexes := idx\<rparr>, True)"
    "set (map fst idx) = set (map fst SCHEMA_INDEXES) \<union> set (map fst (st_indexes st))"
    using indexes_created [OF assms(2), of SCHEMA_INDEXES] index_columns [of type] assms(3)
    by (auto simp: column_names_def)
  then have "execute_batch reliable SCHEMA st = (st\<lparr>st_indexes := idx\<rparr>, True)"
    using assms(1,2) unfolding SCHEMA_parts execute_append by simp
  with idx(2) show ?thesis by blast
qed

lemma schema_creates_events:
  assumes "map_of (st_tables st) ''sessions'' = Some u" "map_of (st_tables st) ''events'' = None"
  shows "\<exists>idx. execute_batch reliable SCHEMA st =
    (set_table ''events'' \<lparr>tb_columns = EVENT_COLUMNS, tb_rows = [], tb_seq = 0\<rparr> st\<lparr>st_indexes := idx\<rparr>, True)"
proof -
  let ?st = "set_table ''events'' \<lparr>tb_columns = EVENT_COLUMNS, tb_rows = [], tb_seq = 0\<rparr> st"
  have "\<exists>idx. execute_batch reliable (map (\<lambda>(i, cols). CreateIndex i ''events'' cols) SCHEMA_INDEXES) ?st
      = (?st\<lparr>st_indexes := idx\<rparr>, True)"
    using indexes_created [of ?st _ SCHEMA_INDEXES] index_columns [of "''INTEGER''"]
    by (auto simp: column_names_def EVENT_COLUMNS_def)
  then show ?thesis using assms unfolding SCHEMA_parts execute_append by simp
qed

section \<open>The migration keeps the events\<close>

text \<open>A row as the old schema stored it: the event type by its name.\<close>

definition has_known_type :: "event_row \<Rightarrow> bool" where
  "has_known_type r \<longleftrightarrow> er_event_type r \<in> {0, 2, 3, 4}"

definition old_row :: "event_row \<Rightarrow> row" where
  "old_row r = (col_value r)(''event_type'' := VText
     (case event_type_from_wire (word_of_int (er_event_type r)) of Some t \<Rightarrow> event_type_as_str t | None \<Rightarrow> []))"

lemma copied_old_row:
  assumes "has_known_type r"
  shows "copied_row COPIED (old_row r) = col_value r"
proof
  fix c
  have "c \<notin> set COPIED \<Longrightarrow> col_value r c = VNull" by (simp add: COPIED_def col_value_def)
  moreover have "case_event_type (old_row r ''event_type'') = VInt (er_event_type r)"
    using assms by (auto simp: has_known_type_def old_row_def event_type_from_wire_def case_event_type_def)
  moreover have "col_value r ''event_type'' = VInt (er_event_type r)" by (simp add: col_value_def)
  moreover have "c \<noteq> ''event_type'' \<Longrightarrow> old_row r c = col_value r c" by (simp add: old_row_def)
  ultimately show "copied_row COPIED (old_row r) c = col_value r c"
    unfolding copied_row_def by (cases "c = ''event_type''"; cases "c \<in> set COPIED") simp_all
qed

lemma row_id_col_value [simp]: "row_id (col_value r) = er_id r"
  by (simp add: row_id_def col_value_def)

lemma not_null_columns: "list_all (\<lambda>c. cl_not_null c \<longrightarrow> col_value r (cl_name c) \<noteq> VNull) EVENT_COLUMNS"
  by (simp add: EVENT_COLUMNS_def event_columns_def col_def col_value_def)

lemma migration_result:
  assumes tables: "map_of (st_tables st) ''sessions'' = Some sess" "map_of (st_tables st) ''events_old'' = None"
      "map_of (st_tables st) ''events'' =
        Some \<lparr>tb_columns = event_columns ''TEXT'', tb_rows = map old_row (db_events db), tb_seq = seq\<rparr>"
    and rows: "wf_database db" "list_all has_known_type (db_events db)" "st_fk st = db_fk db"
      "map (\<lambda>s. s ''id'') (tb_rows sess) = map (VText \<circ> sr_id) (db_sessions db)"
  shows "\<exists>st'. migrate_event_type_to_integer reliable st = (st', True)
    \<and> map_of (st_tables st') ''events'' = Some \<lparr>tb_columns = EVENT_COLUMNS, tb_rows = map col_value (db_events db),
        tb_seq = foldl max 0 (map er_id (db_events db))\<rparr>
    \<and> map_of (st_tables st') ''sessions'' = Some sess \<and> map_of (st_tables st') ''events_old'' = None"
proof -
  let ?old = "\<lparr>tb_columns = event_columns ''TEXT'', tb_rows = map old_row (db_events db), tb_seq = seq\<rparr>"
  let ?new = "\<lparr>tb_columns = EVENT_COLUMNS, tb_rows = [], tb_seq = 0\<rparr>"
  let ?rs = "map col_value (db_events db)"
  define st1 where "st1 = st\<lparr>st_tables := (''events_old'', ?old) # without ''events'' (st_tables st),
     st_indexes := map (\<lambda>(i, n). (i, if n = ''events'' then ''events_old'' else n)) (st_indexes st)\<rparr>"
  have 1: "execute_batch reliable [RenameTable ''events'' ''events_old''] st = (st1, True)"
    using tables by (simp add: st1_def)
  obtain st2 idx where 2: "execute_batch reliable SCHEMA st1 = (st2, True)" "st2 = set_table ''events'' ?new st1\<lparr>st_indexes := idx\<rparr>"
    using schema_creates_events [of st1 sess] tables(1) by (auto simp: st1_def)
  have tables2: "map_of (st_tables st2) ''events_old'' = Some ?old" "map_of (st_tables st2) ''events'' = Some ?new"
      "map_of (st_tables st2) ''sessions'' = Some sess" "st_fk st2 = db_fk db"
    using tables rows(3) by (simp_all add: 2(2) st1_def)
  have copied: "map (copied_row COPIED) (map old_row (db_events db)) = ?rs"
    using rows(2) by (simp add: copied_old_row list_all_iff)
  have ids: "map row_id ?rs = map er_id (db_events db)" by simp
  have "distinct (map er_id (db_events db))"
    using rows(1) unfolding wf_database_def by (meson strict_sorted_iff)
  moreover have "parent_exists st2 (col_value r)" if "r \<in> set (db_events db)" "db_fk db" for r
  proof -
    have "session_exists (er_session_id r) db" using rows(1) that by (simp add: wf_database_def)
    then have "VText (er_session_id r) \<in> set (map (VText \<circ> sr_id) (db_sessions db))"
      by (auto simp: session_exists_iff)
    then show ?thesis unfolding rows(4) [symmetric]
      by (auto simp: parent_exists_def tables2 list_ex_iff col_value_def image_iff)
  qed
  ultimately have ok: "insertable st2 ?new ?rs"
    using tables2(4) not_null_columns by (simp add: insertable_def list_all_iff comp_def)
  define st3 where "st3 = set_table ''events'' \<lparr>tb_columns = EVENT_COLUMNS, tb_rows = ?rs,
     tb_seq = foldl max 0 (map er_id (db_events db))\<rparr> st2"
  have "set COPIED \<subseteq> set (map cl_name (event_columns type))" for type
    by (simp add: COPIED_def event_columns_def col_def)
  then have 3: "execute_batch reliable [CopyEvents ''events_old'' ''events'' COPIED] st2 = (st3, True)"
    using tables2(1,2) copied ok by (simp add: st3_def column_names_def EVENT_COLUMNS_def Let_def ids del: map_map)
  have 4: "execute_batch reliable [DropTable ''events_old''] st3 =
      (st3\<lparr>st_tables := without ''events_old'' (st_tables st3), st_indexes := filter (\<lambda>(_, n). n \<noteq> ''events_old'') (st_indexes st3)\<rparr>, True)"
    using tables2(1) by (simp add: st3_def)
  show ?thesis
    unfolding migrate_event_type_to_integer_def 1 2(1) and_then_simps 3 4
    using tables2(3) by (simp add: st3_def)
qed

text \<open>
  C13: Opening a database of the older schema, whose event types are stored by name, succeeds and loses
  nothing: afterwards the table of events has the current columns and holds exactly the old events in
  their order under their old ids, each with the number of its type, the sessions are as they were, no
  intermediate table is left, and the highest id stays used.
\<close>

theorem migration_preserves_events:
  assumes "map_of (st_tables st) ''sessions'' = Some sess" "map_of (st_tables st) ''events_old'' = None"
      "map_of (st_tables st) ''events'' =
        Some \<lparr>tb_columns = event_columns ''TEXT'', tb_rows = map old_row (db_events db), tb_seq = seq\<rparr>"
    and "wf_database db" "list_all has_known_type (db_events db)" "st_fk st = db_fk db"
      "map (\<lambda>s. s ''id'') (tb_rows sess) = map (VText \<circ> sr_id) (db_sessions db)"
  shows "\<exists>st'. sqlite_open (\<lambda>s. False) st = (st', True)
    \<and> map_of (st_tables st') ''events'' = Some \<lparr>tb_columns = EVENT_COLUMNS, tb_rows = map col_value (db_events db),
        tb_seq = foldl max 0 (map er_id (db_events db))\<rparr>
    \<and> map_of (st_tables st') ''sessions'' = Some sess \<and> map_of (st_tables st') ''events_old'' = None"
proof -
  obtain idx where idx: "execute_batch reliable SCHEMA st = (st\<lparr>st_indexes := idx\<rparr>, True)"
    using schema_on_existing [OF assms(1,3), of "''TEXT''"] by auto
  let ?st = "st\<lparr>st_indexes := idx\<rparr>"
  have "ensure_schema_compat reliable ?st = migrate_event_type_to_integer reliable ?st"
    using assms(3) by (simp add: ensure_schema_compat_def event_columns_def col_def eq_ignore_ascii_case_def)
  then show ?thesis
    using migration_result [of ?st sess db seq] assms unfolding sqlite_open_def idx by auto
qed

definition sample_old_store :: store where
  "sample_old_store =
     \<lparr>st_fk = True,
      st_tables =
        [(''sessions'', \<lparr>tb_columns = SESSION_COLUMNS,
            tb_rows = [\<lambda>c. if c = ''id'' then VText ''ox_k7m3qx9p'' else VNull], tb_seq = 0\<rparr>),
         (''events'', \<lparr>tb_columns = event_columns ''TEXT'', tb_rows = map old_row (db_events sample_db), tb_seq = 1\<rparr>)],
      st_indexes = []\<rparr>"

theorem migration_preserves_events_witness:
  "\<exists>st'. sqlite_open (\<lambda>s. False) sample_old_store = (st', True)
    \<and> map_option (\<lambda>t. map (\<lambda>r. (r ''event_type'', r ''filename'')) (tb_rows t)) (map_of (st_tables st') ''events'')
      = Some [(VInt 0, VText ''/bin/ls'')]"
proof -
  have rows: "map (\<lambda>r. (col_value r ''event_type'', col_value r ''filename'')) (db_events sample_db) = [(VInt 0, VText ''/bin/ls'')]"
    by (simp add: sample_run Let_def col_value_def int_u32_def)
  have "list_all has_known_type (db_events sample_db)"
    by (simp add: sample_run Let_def has_known_type_def int_u32_def)
  moreover have "map (VText \<circ> sr_id) (db_sessions sample_db) = [VText ''ox_k7m3qx9p'']" "db_fk sample_db"
    by (simp_all add: sample_run Let_def)
  ultimately show ?thesis
    using migration_preserves_events [of sample_old_store _ sample_db 1, OF _ _ _ wf_sample_db] rows
    by (auto simp: sample_old_store_def comp_def)
qed

section \<open>What the migration does not handle\<close>

text \<open>
  The branch that adds \<open>execution_id\<close> is out of reach: the schema that runs before it creates an index
  on that column, which fails on a database without the column.
\<close>

lemma old_schema_without_execution_id_is_rejected:
  assumes "map_of (st_tables st) ''events'' = Some t" "''execution_id'' \<notin> set (column_names t)"
    "\<not> has_index ''idx_events_execution'' st"
  shows "\<not> snd (sqlite_open fails st)"
proof -
  let ?P = "\<lambda>st. map_of (st_tables st) ''events'' = Some t \<and> \<not> has_index ''idx_events_execution'' st"
  have keeps: "?P st' \<Longrightarrow> execute_batch fails ss st' = (st'', ok) \<Longrightarrow> set ss \<subseteq> set (butlast SCHEMA) \<Longrightarrow> ?P st''" for ss st' st'' ok
  proof (induction ss arbitrary: st')
    case (Cons s ss)
    have "?P st1" if "exec_statement s st' = Some st1" for st1
      using that Cons.prems(1,3) by (auto simp: SCHEMA_def split: option.splits if_splits)
    with Cons show ?case by (auto split: if_splits option.splits)
  qed simp
  have "SCHEMA = butlast SCHEMA @ [last SCHEMA]" by (simp add: SCHEMA_def)
  moreover have "\<not> snd (execute_batch fails [last SCHEMA] st')" if "?P st'" for st'
    using that assms(2) by (simp add: SCHEMA_def)
  ultimately have "\<not> snd (execute_batch fails SCHEMA st)"
    using keeps [of st "butlast SCHEMA"] assms(1,3) execute_append [of fails "butlast SCHEMA" "[last SCHEMA]" st]
    by (cases "execute_batch fails (butlast SCHEMA) st") (auto simp: and_then_def)
  then show ?thesis by (auto simp: sqlite_open_def and_then_def split: prod.splits)
qed

text \<open>
  The steps of the migration are transactions of their own. When copying fails (or the process ends
  there), the next opening finds a table of events that is current and empty, does not migrate, and
  leaves the old events behind in \<open>events_old\<close>.
\<close>

lemma execute_fails_cong:
  "list_all (\<lambda>s. \<not> fails s) ss \<Longrightarrow> execute_batch fails ss st = execute_batch reliable ss st"
  by (induction ss arbitrary: st) (auto split: option.split)

definition copy_fails :: "statement \<Rightarrow> bool" where
  "copy_fails s = (case s of CopyEvents _ _ _ \<Rightarrow> True | _ \<Rightarrow> False)"

lemma interrupted_migration_hides_events:
  assumes "map_of (st_tables st) ''sessions'' = Some sess" "map_of (st_tables st) ''events_old'' = None"
    "map_of (st_tables st) ''events'' = Some \<lparr>tb_columns = event_columns ''TEXT'', tb_rows = rs, tb_seq = seq\<rparr>"
  shows "\<exists>st1 st2. sqlite_open copy_fails st = (st1, False) \<and> sqlite_open reliable st1 = (st2, True)
    \<and> map_option tb_rows (map_of (st_tables st2) ''events'') = Some []
    \<and> map_option tb_rows (map_of (st_tables st2) ''events_old'') = Some rs"
proof -
  let ?old = "\<lparr>tb_columns = event_columns ''TEXT'', tb_rows = rs, tb_seq = seq\<rparr>"
  let ?new = "\<lparr>tb_columns = EVENT_COLUMNS, tb_rows = [], tb_seq = 0\<rparr>"
  have schema: "execute_batch copy_fails SCHEMA s = execute_batch reliable SCHEMA s" for s
    by (rule execute_fails_cong) (simp add: SCHEMA_def copy_fails_def)
  obtain idx where idx: "execute_batch copy_fails SCHEMA st = (st\<lparr>st_indexes := idx\<rparr>, True)"
    using schema_on_existing [OF assms(1,3), of "''TEXT''"] unfolding schema by auto
  define st0 where "st0 = st\<lparr>st_tables := (''events_old'', ?old) # without ''events'' (st_tables st),
     st_indexes := map (\<lambda>(i, n). (i, if n = ''events'' then ''events_old'' else n)) idx\<rparr>"
  have 1: "execute_batch copy_fails [RenameTable ''events'' ''events_old''] (st\<lparr>st_indexes := idx\<rparr>) = (st0, True)"
    using assms by (simp add: st0_def copy_fails_def)
  obtain st1 idx1 where 2: "execute_batch copy_fails SCHEMA st0 = (st1, True)" "st1 = set_table ''events'' ?new st0\<lparr>st_indexes := idx1\<rparr>"
    unfolding schema using schema_creates_events [of st0 sess] assms(1) by (auto simp: st0_def)
  have tables: "map_of (st_tables st1) ''events_old'' = Some ?old" "map_of (st_tables st1) ''events'' = Some ?new"
      "map_of (st_tables st1) ''sessions'' = Some sess"
    using assms by (simp_all add: 2(2) st0_def)
  have failed: "sqlite_open copy_fails st = (st1, False)"
    unfolding sqlite_open_def idx ensure_schema_compat_def migrate_event_type_to_integer_def and_then_simps
    using assms(3) 1 2(1) by (simp add: copy_fails_def event_columns_def col_def eq_ignore_ascii_case_def)
  obtain idx2 where reopen: "execute_batch reliable SCHEMA st1 = (st1\<lparr>st_indexes := idx2\<rparr>, True)"
    using schema_on_existing [OF tables(3,2), of "''INTEGER''"] by (auto simp: EVENT_COLUMNS_def)
  have "\<not> eq_ignore_ascii_case ''INTEGER'' ''TEXT''" by code_simp
  then have "sqlite_open reliable st1 = (st1\<lparr>st_indexes := idx2\<rparr>, True)"
    unfolding sqlite_open_def reopen ensure_schema_compat_def and_then_simps
    using tables(2) by (simp add: EVENT_COLUMNS_def event_columns_def col_def)
  with failed tables show ?thesis by auto
qed

end
