(* ===== verification/Loader.thy ===== *)
theory Loader
  imports Ebpf Btf Handler Text
begin

text \<open>
  The start of the collector: \<open>shspectr/src/ebpf.rs\<close> (the checks, the path of the compiled programs,
  \<open>run\<close> up to the event loop) and the command line of \<open>shspectr/src/main.rs\<close>. The event loop and the
  tasks beside it are in theory Running.

  \<open>load_env\<close> holds the answers of the kernel and of the loader library. \<open>run_steps\<close> keeps the states
  that the start passes through, because a program fires from the moment it is attached.
\<close>

section \<open>Checks\<close>

record host =
  ho_exists :: "string \<Rightarrow> bool"
  ho_euid :: u32

datatype capability_error = NoBtf | NoBpfFs | NotRoot

definition check_capabilities :: "host \<Rightarrow> capability_error + unit" where
  "check_capabilities h =
     (if \<not> ho_exists h ''/sys/kernel/btf/vmlinux'' then Inl NoBtf
      else if \<not> ho_exists h ''/sys/fs/bpf'' then Inl NoBpfFs
      else if ho_euid h \<noteq> 0 then Inl NotRoot else Inr ())"

section \<open>Paths\<close>

text \<open>A normalised path by its components, as \<open>std::path\<close> compares them.\<close>

datatype path = Path (is_absolute: bool) (components: "string list")

fun parent_path :: "path \<Rightarrow> path option" where
  "parent_path (Path ab cs) = (if cs = [] then None else Some (Path ab (butlast cs)))"

fun file_name :: "path \<Rightarrow> string option" where
  "file_name (Path ab cs) = (if cs = [] \<or> last cs \<in> {''..'', ''.''} then None else Some (last cs))"

fun join_path :: "path \<Rightarrow> string list \<Rightarrow> path" where
  "join_path (Path ab cs) rest = Path ab (cs @ rest)"

definition ARTIFACT :: "string list" where
  "ARTIFACT = [''shspectr-ebpf'', ''target'', ''bpfel-unknown-none'', ''release'', ''shspectr-ebpf'']"

text \<open>\<open>manifest_dir\<close> is the directory of the package at build time, \<open>path_of\<close> reads a path from its text.\<close>

definition ebpf_artifact_path_from :: "path \<Rightarrow> (string \<Rightarrow> path) \<Rightarrow> string option \<Rightarrow> path \<Rightarrow> path" where
  "ebpf_artifact_path_from manifest_dir path_of env_override current_exe =
     (case (case env_override of Some p \<Rightarrow> if p \<noteq> [] then Some p else None | None \<Rightarrow> None) of
        Some p \<Rightarrow> path_of p
      | None \<Rightarrow>
          let dir = parent_path current_exe;
              target = Option.bind dir parent_path;
              fallback = (case target of
                  None \<Rightarrow> join_path manifest_dir (''..'' # ARTIFACT)
                | Some root \<Rightarrow> join_path root [''shspectr-ebpf''])
          in if Option.bind dir file_name \<in> {Some ''debug'', Some ''release''}
             then (case Option.bind target parent_path of
                     Some workspace_root \<Rightarrow> join_path workspace_root ARTIFACT
                   | None \<Rightarrow> fallback)
             else fallback)"

text \<open>The environment variable and the running executable, when the system can tell.\<close>

definition ebpf_artifact_path :: "path \<Rightarrow> (string \<Rightarrow> path) \<Rightarrow> string option \<Rightarrow> path option \<Rightarrow> path" where
  "ebpf_artifact_path manifest_dir path_of env_override current_exe =
     ebpf_artifact_path_from manifest_dir path_of env_override
       (case current_exe of Some p \<Rightarrow> p | None \<Rightarrow> Path False [''shspectr''])"

lemma artifact_examples:
  "ebpf_artifact_path_from m f (Some ''/tmp/custom-ebpf'') exe = f ''/tmp/custom-ebpf''"
  "ebpf_artifact_path_from m f None (Path True [''opt'', ''shspectr'', ''bin'', ''shspectr'']) =
     Path True [''opt'', ''shspectr'', ''shspectr-ebpf'']"
  "ebpf_artifact_path_from m f None (Path True [''home'', ''jon'', ''oxilog'', ''target'', ''debug'', ''shspectr'']) =
     Path True ([''home'', ''jon'', ''oxilog''] @ ARTIFACT)"
  by (simp_all add: ebpf_artifact_path_from_def)

section \<open>Loading the programs\<close>

datatype load_error =
    ArtifactUnreadable path | NotLoadable | MapNotFound string | MapNotSet string nat
  | OffsetsUnresolved resolve_error | ProgramNotFound string | NotAttached string
  | RuntimeNotCreated | RingNotRegistered

record load_env =
  le_read :: "path \<Rightarrow> u8 list option"
  le_load :: "u8 list \<Rightarrow> bool"
  le_map :: "string \<Rightarrow> bool"
  le_set :: "string \<Rightarrow> nat \<Rightarrow> bool"
  le_program :: "string \<Rightarrow> bool"
  le_attach :: "string \<Rightarrow> bool"
  le_pid :: u32
  le_runtime :: bool
  le_register :: bool
  le_sysfs :: "u8 list option"

record loader =
  ld_maps :: ebpf_state
  ld_attached :: "string list"

definition load_ebpf_bytes :: "load_env \<Rightarrow> path \<Rightarrow> load_error + u8 list" where
  "load_ebpf_bytes env artifact =
     (case le_read env artifact of None \<Rightarrow> Inl (ArtifactUnreadable artifact) | Some bytes \<Rightarrow> Inr bytes)"

text \<open>The values of a fresh array map are zero.\<close>

definition fresh_loader :: loader where
  "fresh_loader = \<lparr>ld_maps = ebpf_init 0 (replicate OFFSET_COUNT 0), ld_attached = []\<rparr>"

definition take_map :: "load_env \<Rightarrow> string \<Rightarrow> loader \<Rightarrow> load_error + loader" where
  "take_map env name ld = (if le_map env name then Inr ld else Inl (MapNotFound name))"

definition set_self_tgid :: "load_env \<Rightarrow> loader \<Rightarrow> load_error + loader" where
  "set_self_tgid env ld =
     (if le_set env ''SELF_TGID'' 0
      then Inr (ld\<lparr>ld_maps := (ld_maps ld)\<lparr>s_self_tgid := Some (le_pid env)\<rparr>\<rparr>)
      else Inl (MapNotSet ''SELF_TGID'' 0))"

definition set_offset :: "load_env \<Rightarrow> nat \<times> u64 \<Rightarrow> loader \<Rightarrow> load_error + loader" where
  "set_offset env iv ld =
     (if le_set env ''OFFSETS'' (fst iv) \<and> fst iv < length (s_offsets (ld_maps ld))
      then Inr (ld\<lparr>ld_maps := (ld_maps ld)\<lparr>s_offsets := (s_offsets (ld_maps ld))[fst iv := snd iv]\<rparr>\<rparr>)
      else Inl (MapNotSet ''OFFSETS'' (fst iv)))"

definition attach_tracepoint :: "load_env \<Rightarrow> string \<Rightarrow> loader \<Rightarrow> load_error + loader" where
  "attach_tracepoint env name ld =
     (if \<not> le_program env name then Inl (ProgramNotFound name)
      else if \<not> le_attach env name then Inl (NotAttached name)
      else Inr (ld\<lparr>ld_attached := ld_attached ld @ [name]\<rparr>))"

definition TRACEPOINTS :: "string list" where
  "TRACEPOINTS =
     [''sys_enter_execve'', ''sys_exit_execve'', ''sys_enter_exit_group'', ''sys_enter_write'',
      ''sys_exit_write'', ''sys_enter_read'', ''sys_exit_read'']"

definition resolved_offsets :: "load_env \<Rightarrow> loader \<Rightarrow> load_error + loader" where
  "resolved_offsets env ld =
     (case resolve_task_field_offsets (le_sysfs env) of
        Inl e \<Rightarrow> Inl (OffsetsUnresolved e)
      | Inr _ \<Rightarrow> Inr ld)"

text \<open>The steps of \<open>run\<close>; the offsets of an unresolved table are not reached.\<close>

definition configure_steps :: "load_env \<Rightarrow> (loader \<Rightarrow> load_error + loader) list" where
  "configure_steps env =
     [take_map env ''SELF_TGID'', set_self_tgid env, resolved_offsets env, take_map env ''OFFSETS'']
     @ map (set_offset env)
         (case resolve_task_field_offsets (le_sysfs env) of
            Inl _ \<Rightarrow> []
          | Inr t \<Rightarrow> enumerate 0 (offsets_as_array t))"

definition attach_steps :: "load_env \<Rightarrow> (loader \<Rightarrow> load_error + loader) list" where
  "attach_steps env = map (attach_tracepoint env) TRACEPOINTS @ [take_map env ''EVENTS'']"

definition setup_steps :: "load_env \<Rightarrow> (loader \<Rightarrow> load_error + loader) list" where
  "setup_steps env = configure_steps env @ attach_steps env"

fun run_steps :: "(loader \<Rightarrow> load_error + loader) list \<Rightarrow> loader \<Rightarrow> loader list \<times> (load_error + loader)" where
  "run_steps [] ld = ([ld], Inr ld)"
| "run_steps (f # fs) ld =
     (case f ld of
        Inl e \<Rightarrow> ([ld], Inl e)
      | Inr ld' \<Rightarrow> (let (trace, r) = run_steps fs ld' in (ld # trace, r)))"

definition run_setup :: "load_env \<Rightarrow> path \<Rightarrow> loader list \<times> (load_error + loader)" where
  "run_setup env artifact =
     (case load_ebpf_bytes env artifact of
        Inl e \<Rightarrow> ([], Inl e)
      | Inr bytes \<Rightarrow>
          if le_load env bytes then run_steps (setup_steps env) fresh_loader
          else ([], Inl NotLoadable))"

lemma run_steps_append:
  "run_steps (xs @ ys) ld =
     (case run_steps xs ld of
        (trace, Inl e) \<Rightarrow> (trace, Inl e)
      | (trace, Inr ld') \<Rightarrow> (let (trace', r) = run_steps ys ld' in (butlast trace @ trace', r)))"
proof (induction xs arbitrary: ld)
  case Nil
  show ?case by (simp add: split_beta)
next
  case (Cons f xs)
  have ne: "fst (run_steps fs l) \<noteq> []" for fs l
    by (cases fs) (auto split: sum.split prod.split)
  show ?case
    using Cons ne [of xs] by (auto simp: split_beta split: sum.split prod.split)
qed

lemma run_steps_trace:
  assumes "\<And>f l l'. f \<in> set fs \<Longrightarrow> P l \<Longrightarrow> f l = Inr l' \<Longrightarrow> P l'" "P ld" "run_steps fs ld = (trace, r)"
  shows "(\<forall>l \<in> set trace. P l) \<and> (\<forall>l. r = Inr l \<longrightarrow> P l \<and> l \<in> set trace)"
  using assms
proof (induction fs arbitrary: ld trace)
  case Nil
  then show ?case by auto
next
  case (Cons f fs)
  show ?case
  proof (cases "f ld")
    case (Inl e)
    with Cons.prems show ?thesis by auto
  next
    case (Inr ld')
    obtain trace' where rest: "run_steps fs ld' = (trace', r)" "trace = ld # trace'"
      using Cons.prems(3) Inr by (cases "run_steps fs ld'") auto
    have "P ld'" using Cons.prems(1) [of f ld ld'] Cons.prems(2) Inr by simp
    then have "(\<forall>l \<in> set trace'. P l) \<and> (\<forall>l. r = Inr l \<longrightarrow> P l \<and> l \<in> set trace')"
      using Cons.prems(1) rest(1) by (intro Cons.IH) (auto simp del: split_paired_All)
    with Cons.prems(2) show ?thesis unfolding rest(2) by simp
  qed
qed

lemma run_steps_offsets:
  assumes "run_steps (map (set_offset env) (enumerate n vs)) ld = (trace, Inr ld')"
    "length (s_offsets (ld_maps ld)) = n + length vs"
  shows "ld' = ld\<lparr>ld_maps := (ld_maps ld)\<lparr>s_offsets := take n (s_offsets (ld_maps ld)) @ vs\<rparr>\<rparr>"
  using assms
proof (induction vs arbitrary: n ld trace)
  case Nil
  then show ?case by simp
next
  case (Cons v vs)
  let ?offsets = "s_offsets (ld_maps ld)"
  let ?ld = "ld\<lparr>ld_maps := (ld_maps ld)\<lparr>s_offsets := ?offsets[n := v]\<rparr>\<rparr>"
  have step: "set_offset env (n, v) ld \<in> {Inr ?ld, Inl (MapNotSet ''OFFSETS'' n)}"
    by (simp add: set_offset_def)
  obtain trace' where "run_steps (map (set_offset env) (enumerate (Suc n) vs)) ?ld = (trace', Inr ld')"
    using Cons.prems(1) step by (cases "run_steps (map (set_offset env) (enumerate (Suc n) vs)) ?ld") auto
  from Cons.IH [OF this] Cons.prems(2) show ?case
    by (simp add: take_Suc_conv_app_nth)
qed

section \<open>The command line\<close>

datatype output_sink = OutStdout | OutSqlite | OutOtel

record cli =
  cl_filter_pty :: bool
  cl_filter_ancestor :: "string list"
  cl_output :: output_sink
  cl_db_path :: string
  cl_otel_endpoint :: string
  cl_web :: bool
  cl_web_port :: u16
  cl_web_bind :: string

datatype main_error =
    Capability capability_error | SinkError output_sink | WebNeedsSqlite | BadAddress string

record 'addr server_config =
  sv_bind :: 'addr
  sv_db_path :: string

text \<open>
  Everything of \<open>main\<close> before \<open>run\<close>: \<open>opens\<close> says whether the sink opens (a database file, an exporter),
  \<open>parse_addr\<close> is the parser of socket addresses.
\<close>

definition main_config :: "host \<Rightarrow> (output_sink \<Rightarrow> string \<Rightarrow> bool) \<Rightarrow> (string \<Rightarrow> 'addr option) \<Rightarrow> cli
    \<Rightarrow> main_error + (filter_config \<times> output_sink \<times> 'addr server_config option)" where
  "main_config h opens parse_addr c =
     (case check_capabilities h of
        Inl e \<Rightarrow> Inl (Capability e)
      | Inr () \<Rightarrow>
          let config = \<lparr>filter_pty = cl_filter_pty c, filter_ancestors = cl_filter_ancestor c\<rparr>;
              opened = (case cl_output c of OutStdout \<Rightarrow> True
                | OutSqlite \<Rightarrow> opens OutSqlite (cl_db_path c) | OutOtel \<Rightarrow> opens OutOtel (cl_otel_endpoint c))
          in if \<not> opened then Inl (SinkError (cl_output c))
             else if cl_web c then
               (if cl_output c \<noteq> OutSqlite then Inl WebNeedsSqlite
                else let addr = cl_web_bind c @ '':'' @ dec (unat (cl_web_port c))
                in case parse_addr addr of
                     None \<Rightarrow> Inl (BadAddress addr)
                   | Some a \<Rightarrow> Inr (config, cl_output c, Some \<lparr>sv_bind = a, sv_db_path = cl_db_path c\<rparr>))
             else Inr (config, cl_output c, None))"

text \<open>The web server only ever reads the database that the collector has opened.\<close>

lemma web_reads_the_sink:
  assumes "main_config h opens parse_addr c = Inr (config, out, Some sv)"
  shows "out = OutSqlite \<and> sv_db_path sv = cl_db_path c \<and> opens OutSqlite (sv_db_path sv)"
proof (cases "check_capabilities h")
  case (Inl e)
  with assms show ?thesis by (simp add: main_config_def)
next
  case (Inr u)
  show ?thesis
    using assms unfolding main_config_def Inr Let_def
    by (cases "cl_output c")
      (auto split: if_split_asm option.split_asm unit.split_asm)
qed

section \<open>Nothing is attached before it is configured\<close>

lemma configured:
  assumes "run_steps (configure_steps env) fresh_loader = (trace, Inr ld)"
  shows "\<exists>t. resolve_task_field_offsets (le_sysfs env) = Inr t
    \<and> ld = \<lparr>ld_maps = ebpf_init (le_pid env) (offsets_as_array t), ld_attached = []\<rparr>"
proof -
  let ?ld = "fresh_loader\<lparr>ld_maps := (ld_maps fresh_loader)\<lparr>s_self_tgid := Some (le_pid env)\<rparr>\<rparr>"
  obtain t where t: "resolve_task_field_offsets (le_sysfs env) = Inr t"
    using assms by (auto simp: configure_steps_def take_map_def set_self_tgid_def resolved_offsets_def split_beta
        split: sum.splits if_splits)
  with assms obtain trace' where
    "run_steps (map (set_offset env) (enumerate 0 (offsets_as_array t))) ?ld = (trace', Inr ld)"
    by (cases "run_steps (map (set_offset env) (enumerate 0 (offsets_as_array t))) ?ld")
      (auto simp: configure_steps_def take_map_def set_self_tgid_def resolved_offsets_def split: if_splits)
  moreover have "length (s_offsets (ld_maps ?ld)) = 0 + length (offsets_as_array t)"
    by (simp add: fresh_loader_def ebpf_init_def OFFSET_COUNT_def offsets_as_array_def)
  ultimately have "ld = ?ld\<lparr>ld_maps := (ld_maps ?ld)\<lparr>s_offsets := offsets_as_array t\<rparr>\<rparr>"
    by (auto dest: run_steps_offsets)
  with t show ?thesis by (simp add: fresh_loader_def ebpf_init_def)
qed

lemma configuring_attaches_nothing:
  assumes "run_steps (configure_steps env) fresh_loader = (trace, r)" "l \<in> set trace"
  shows "ld_attached l = []"
proof -
  have "ld_attached l' = []" if "f \<in> set (configure_steps env)" "ld_attached l = []" "f l = Inr l'" for f l l'
    using that by (auto simp: configure_steps_def take_map_def set_self_tgid_def resolved_offsets_def set_offset_def
        split: sum.splits if_splits)
  moreover have "ld_attached fresh_loader = []" by (simp add: fresh_loader_def)
  ultimately have "(\<forall>l \<in> set trace. ld_attached l = []) \<and> (\<forall>l. r = Inr l \<longrightarrow> ld_attached l = [] \<and> l \<in> set trace)"
    using assms(1) by (rule run_steps_trace)
  with assms(2) show ?thesis by blast
qed

lemma attaching_keeps_maps:
  assumes "run_steps (attach_steps env) ld = (trace, r)" "l \<in> set trace"
  shows "ld_maps l = ld_maps ld"
proof -
  have "ld_maps l' = ld_maps ld" if "f \<in> set (attach_steps env)" "ld_maps l = ld_maps ld" "f l = Inr l'" for f l l'
    using that by (auto simp: attach_steps_def attach_tracepoint_def take_map_def split: if_splits)
  then have "(\<forall>l \<in> set trace. ld_maps l = ld_maps ld) \<and> (\<forall>l. r = Inr l \<longrightarrow> ld_maps l = ld_maps ld \<and> l \<in> set trace)"
    using refl assms(1) by (rule run_steps_trace)
  with assms(2) show ?thesis by blast
qed

lemma attaching_attaches:
  "run_steps (map (attach_tracepoint env) names @ [take_map env m]) ld = (trace, Inr ld') \<Longrightarrow>
   ld_attached ld' = ld_attached ld @ names \<and> ld' \<in> set trace"
proof (induction names arbitrary: ld trace)
  case Nil
  then show ?case by (auto simp: take_map_def split: if_splits)
next
  case (Cons n names)
  let ?ld = "ld\<lparr>ld_attached := ld_attached ld @ [n]\<rparr>"
  have "attach_tracepoint env n ld = Inr ?ld"
    using Cons.prems by (auto simp: attach_tracepoint_def split: if_splits)
  with Cons.prems obtain trace' where
    "run_steps (map (attach_tracepoint env) names @ [take_map env m]) ?ld = (trace', Inr ld')" "trace = ld # trace'"
    by (cases "run_steps (map (attach_tracepoint env) names @ [take_map env m]) ?ld") auto
  from Cons.IH [OF this(1)] this(2) show ?case by simp
qed

lemma setup_states:
  assumes "run_setup env artifact = (trace, r)"
  shows "(\<forall>l \<in> set trace. ld_attached l \<noteq> [] \<longrightarrow>
      (\<exists>t. resolve_task_field_offsets (le_sysfs env) = Inr t \<and> ld_maps l = ebpf_init (le_pid env) (offsets_as_array t)))
    \<and> (\<forall>ld. r = Inr ld \<longrightarrow> ld \<in> set trace \<and> ld_attached ld = TRACEPOINTS)"
proof (cases "run_steps (configure_steps env) fresh_loader")
  case (Pair trace1 r1)
  note quiet = configuring_attaches_nothing [OF Pair]
  consider (early) "trace = [] \<and> (\<forall>ld. r \<noteq> Inr ld)"
    | (steps) "run_steps (setup_steps env) fresh_loader = (trace, r)"
    using assms by (auto simp: run_setup_def split: sum.splits if_splits)
  then show ?thesis
  proof cases
    case steps
    show ?thesis
    proof (cases r1)
      case (Inl e)
      then have "trace = trace1 \<and> r = Inl e"
        using steps Pair by (simp add: setup_steps_def run_steps_append)
      with quiet show ?thesis by auto
    next
      case (Inr ld1)
      with Pair have "run_steps (configure_steps env) fresh_loader = (trace1, Inr ld1)" by simp
      from configured [OF this] obtain t where t: "resolve_task_field_offsets (le_sysfs env) = Inr t"
        and ld1: "ld1 = \<lparr>ld_maps = ebpf_init (le_pid env) (offsets_as_array t), ld_attached = []\<rparr>" by blast
      obtain trace2 r2 where second:
        "run_steps (attach_steps env) ld1 = (trace2, r2)"
        by fastforce
      have all: "trace = butlast trace1 @ trace2" "r = r2"
        using steps Pair Inr second by (simp_all add: setup_steps_def run_steps_append)
      have maps: "ld_maps l = ebpf_init (le_pid env) (offsets_as_array t)" if "l \<in> set trace2" for l
        using attaching_keeps_maps [OF second that] by (simp add: ld1)
      have "ld \<in> set trace2 \<and> ld_attached ld = TRACEPOINTS" if "r = Inr ld" for ld
        using attaching_attaches [of env TRACEPOINTS "''EVENTS''" ld1 trace2 ld] second that all(2)
        by (simp add: ld1 attach_steps_def)
      with maps t quiet show ?thesis
        unfolding all(1) by (auto dest: in_set_butlastD)
    qed
  qed simp
qed

lemma setup_maps:
  assumes "run_setup env artifact = (trace, Inr ld)"
  obtains t where "resolve_task_field_offsets (le_sysfs env) = Inr t" "ld_maps ld = ebpf_init (le_pid env) (offsets_as_array t)"
proof -
  have "TRACEPOINTS \<noteq> []" by (simp add: TRACEPOINTS_def)
  then show thesis using setup_states [OF assms] that by auto
qed

text \<open>
  C19: However far the start gets and wherever it fails, no kernel program is ever attached before the
  collector's own process id and every field offset, as the kernel's type information gives it, are in
  the maps; and when the start succeeds exactly the seven programs are attached, in order, on the
  state that the theorems about the kernel programs start from.
\<close>

theorem configured_before_attached:
  assumes "run_setup env artifact = (trace, r)"
  shows "(\<forall>l \<in> set trace. ld_attached l \<noteq> [] \<longrightarrow>
      (\<exists>t. resolve_task_field_offsets (le_sysfs env) = Inr t \<and> ld_maps l = ebpf_init (le_pid env) (offsets_as_array t)))
    \<and> (\<forall>ld. r = Inr ld \<longrightarrow> ld \<in> set trace \<and> ld_attached ld = TRACEPOINTS)"
  using assms by (rule setup_states)

definition sample_load_env :: load_env where
  "sample_load_env =
     \<lparr>le_read = \<lambda>p. Some [], le_load = \<lambda>bytes. True, le_map = \<lambda>n. True, le_set = \<lambda>n i. True,
      le_program = \<lambda>n. True, le_attach = \<lambda>n. n \<noteq> ''sys_enter_read'', le_pid = 7, le_runtime = True, le_register = True,
      le_sysfs = Some (btf_blob kernel_entries kernel_strings)\<rparr>"

text \<open>A kernel that refuses the sixth program: five are attached, on configured maps.\<close>

theorem configured_before_attached_witness:
  "\<exists>trace t. run_setup sample_load_env (Path True []) = (trace, Inl (NotAttached ''sys_enter_read''))
    \<and> ld_attached (last trace) = take 5 TRACEPOINTS
    \<and> ld_maps (last trace) = ebpf_init 7 (offsets_as_array t)"
proof -
  obtain t where t: "resolve_task_field_offsets (Some (btf_blob kernel_entries kernel_strings)) = Inr t"
      "offsets_as_array t = [10, 20, 30, 11, 40, 12, 13, 50, 14, 15, 16, 17]"
    using kernel_resolves by blast
  have "snd (run_setup sample_load_env (Path True [])) = Inl (NotAttached ''sys_enter_read'')
      \<and> fst (run_setup sample_load_env (Path True [])) \<noteq> []
      \<and> ld_attached (last (fst (run_setup sample_load_env (Path True [])))) = take 5 TRACEPOINTS"
    by (simp add: run_setup_def load_ebpf_bytes_def sample_load_env_def setup_steps_def configure_steps_def attach_steps_def
        take_map_def set_self_tgid_def
        resolved_offsets_def t set_offset_def attach_tracepoint_def TRACEPOINTS_def fresh_loader_def ebpf_init_def OFFSET_COUNT_def)
  moreover obtain trace r where run: "run_setup sample_load_env (Path True []) = (trace, r)" by fastforce
  moreover have "take 5 TRACEPOINTS \<noteq> []" by (simp add: TRACEPOINTS_def)
  ultimately have last: "last trace \<in> set trace" "ld_attached (last trace) = take 5 TRACEPOINTS"
      "ld_attached (last trace) \<noteq> []" "r = Inl (NotAttached ''sys_enter_read'')" by simp_all
  moreover have "le_pid sample_load_env = 7" by (simp add: sample_load_env_def)
  ultimately show ?thesis
    using configured_before_attached [OF run] run by metis
qed

end
