(* ===== verification/Server.thy ===== *)
theory Server
  imports Routes Migration Loader
begin

text \<open>
  The start of the web server: \<open>shspectr-web/src/infrastructure/database.rs\<close> (the connection pool),
  \<open>shspectr-web/src/lib.rs\<close> (\<open>start_server\<close> and \<open>shutdown_signal\<close>) and the shared state of
  \<open>application/state.rs\<close>; and what the server answers to a request while the collector's database is in
  a given state.

  \<open>pool_host\<close> holds what the file system and the pool library answer.
\<close>

section \<open>The connection pool\<close>

record pool_host =
  ph_exists :: "string \<Rightarrow> bool"
  ph_store :: "string \<Rightarrow> store option"
  ph_build :: bool
  ph_get :: bool
  ph_query :: bool

datatype pool_error =
    DatabaseNotFound string | PoolNotCreated | NoPoolConnection | SchemaNotVerified | SchemaNotInitialised

record db_pool =
  po_path :: string
  po_max_size :: nat
  po_read_only :: bool

text \<open>The answer to \<open>SELECT COUNT(*) FROM sqlite_master WHERE type='table' AND name='events'\<close>.\<close>

definition events_table_count :: "pool_host \<Rightarrow> string \<Rightarrow> int option" where
  "events_table_count h path =
     (if ph_query h
      then map_option (\<lambda>st. int (length (filter (\<lambda>(n, _). n = ''events'') (st_tables st)))) (ph_store h path)
      else None)"

definition create_pool :: "pool_host \<Rightarrow> string \<Rightarrow> pool_error + db_pool" where
  "create_pool h db_path =
     (if \<not> ph_exists h db_path then Inl (DatabaseNotFound db_path)
      else let pool = \<lparr>po_path = db_path, po_max_size = 4, po_read_only = True\<rparr>
      in if \<not> ph_build h then Inl PoolNotCreated
         else if \<not> ph_get h then Inl NoPoolConnection
         else bind_result (ok_or SchemaNotVerified (events_table_count h db_path)) (\<lambda>_. Inr pool))"

definition EXTRA_SCHEMA :: "statement list" where
  "EXTRA_SCHEMA = [CreateIndex ''idx_events_ppid'' ''events'' [''ppid'']]"

definition init_schema :: "(statement \<Rightarrow> bool) \<Rightarrow> store \<Rightarrow> store \<times> bool" where
  "init_schema fails st = and_then (execute_batch fails SCHEMA st) (execute_batch fails EXTRA_SCHEMA)"

text \<open>The bundled SQLite enforces foreign keys by default.\<close>

definition create_test_pool :: "pool_host \<Rightarrow> (statement \<Rightarrow> bool) \<Rightarrow> pool_error + (db_pool \<times> store)" where
  "create_test_pool h fails =
     (if \<not> ph_build h then Inl PoolNotCreated
      else if \<not> ph_get h then Inl NoPoolConnection
      else (let (st, ok) = init_schema fails \<lparr>st_fk = True, st_tables = [], st_indexes = []\<rparr>
            in if \<not> ok then Inl SchemaNotInitialised
               else Inr (\<lparr>po_path = '':memory:'', po_max_size = 1, po_read_only = False\<rparr>, st)))"

text \<open>
  The check of the schema ignores the count it asks for: a database without the table passes.
\<close>

lemma missing_table_is_accepted:
  assumes "ph_exists h path" "ph_build h" "ph_get h" "ph_query h"
    and "ph_store h path = Some \<lparr>st_fk = False, st_tables = [], st_indexes = []\<rparr>"
  shows "events_table_count h path = Some 0 \<and> is_ok (create_pool h path)"
  using assms by (simp add: create_pool_def events_table_count_def ok_or_def bind_result_def)

section \<open>The server\<close>

record app_state =
  as_repo :: event_repo

datatype server_error = PoolError pool_error | NotBound | ServeError

text \<open>\<open>start_server\<close> up to the point where it serves: the pool, then the listener.\<close>

definition start_server :: "pool_host \<Rightarrow> ('addr \<Rightarrow> bool) \<Rightarrow> 'addr server_config \<Rightarrow> server_error + db_pool" where
  "start_server h binds config =
     (case create_pool h (sv_db_path config) of
        Inl e \<Rightarrow> Inl (PoolError e)
      | Inr pool \<Rightarrow> if binds (sv_bind config) then Inr pool else Inl NotBound)"

text \<open>
  The wait for a signal. A handler for Ctrl+C that cannot be installed ends the wait, because the error
  is dropped; one for SIGTERM that cannot be installed is a panic.
\<close>

datatype signal_wait = SigPending | SigDelivered | SigNotInstalled

definition shutdown_signal :: "signal_wait \<Rightarrow> signal_wait \<Rightarrow> bool option" where
  "shutdown_signal ctrl_c terminate =
     (if ctrl_c \<noteq> SigPending then Some True
      else case terminate of SigNotInstalled \<Rightarrow> None | SigDelivered \<Rightarrow> Some True | SigPending \<Rightarrow> Some False)"

text \<open>
  One request, with the rows that the collector has stored by then and whether the pool hands out a
  connection, which then answers every query.
\<close>

definition server_state :: "passwd_cache \<Rightarrow> bool \<Rightarrow> database \<Rightarrow> app_state" where
  "server_state cache up db = \<lparr>as_repo = sql_event_repository cache (if up then Some (steady db) else None)\<rparr>"

definition serve_request :: "front \<Rightarrow> passwd_cache \<Rightarrow> bool \<Rightarrow> database \<Rightarrow> http_request \<Rightarrow> response option" where
  "serve_request fr cache up db req = router fr (as_repo (server_state cache up db)) [] req"

section \<open>The raw output of one event\<close>

definition raw_target :: "int \<Rightarrow> string \<Rightarrow> string" where
  "raw_target i stream = ''/api/v1/events/'' @ dec_int i @ ''/raw?stream='' @ stream"

definition raw_request :: "int \<Rightarrow> string \<Rightarrow> http_request" where
  "raw_request i stream = \<lparr>rq_method = ''GET'', rq_target = raw_target i stream, rq_headers = Map.empty\<rparr>"

lemma parse_i64_dec: "0 \<le> i \<Longrightarrow> i \<le> I64_MAX \<Longrightarrow> parse_i64 (dec_int i) = Some i"
proof -
  assume i: "0 \<le> i" "i \<le> I64_MAX"
  obtain c cs where c: "dec (nat i) = c # cs" "is_digit c" by (rule dec_Cons)
  then have "parse_digits (c # cs) = Some (nat i)" using parse_digits_dec [of "nat i"] by simp
  moreover have "c \<noteq> CHR ''+''" "c \<noteq> CHR ''-''" using digit_not_sign [OF c(2)] by blast+
  ultimately show ?thesis
    using i c(1) by (simp add: dec_int_def parse_i64_def parse_signed_def I64_MAX_def)
qed

lemma raw_split:
  assumes "0 \<le> i"
  shows "split_once (CHR ''?'') (raw_target i s) = Some (''/api/v1/events/'' @ dec_int i @ ''/raw'', ''stream='' @ s)"
proof -
  have "CHR ''?'' \<notin> set (dec (nat i))" by (rule dec_no) (simp add: is_digit_def u8_of_char_def)
  moreover have "raw_target i s = (''/api/v1/events/'' @ dec_int i @ ''/raw'') @ CHR ''?'' # ''stream='' @ s"
    by (simp add: raw_target_def)
  ultimately show ?thesis
    using assms by (simp only: split_once_Some) (simp add: dec_int_def)
qed

lemma raw_endpoint:
  assumes "0 \<le> i"
  shows "endpoint_of (path_of (raw_target i s)) = ERaw (dec_int i)"
proof -
  have d: "dec_int i = dec (nat i)" "dec (nat i) \<noteq> []"
    using assms dec_facts [of "nat i"] by (simp_all add: dec_int_def)
  have "CHR ''/'' \<notin> set (dec (nat i))" by (rule dec_no) (simp add: is_digit_def u8_of_char_def)
  then have "str_split (CHR ''/'') (''/api/v1/events/'' @ dec (nat i) @ ''/raw'') =
      [[], ''api'', ''v1'', ''events'', dec (nat i), ''raw'']"
    using str_split_cat [of "CHR ''/''" "dec (nat i)" "''raw''"] by simp
  then show ?thesis
    using raw_split [OF assms, of s] unfolding d(1) path_of_def endpoint_of_def by (simp add: d(2))
qed

lemma raw_params:
  assumes "0 \<le> i" "stream \<in> {''stdin'', ''stdout''}"
  shows "field_or None parse_stream (url_params (raw_target i stream)) ''stream'' =
    Some (Some (if stream = ''stdin'' then Stdin else Stdout))"
proof -
  have "url_param ''stream=stdin'' = (''stream'', ''stdin'')" "url_param ''stream=stdout'' = (''stream'', ''stdout'')"
    by (simp_all add: url_param_def url_decode_plain)
  then have "url_params (raw_target i stream) = [(''stream'', stream)]"
    using assms(2) raw_split [OF assms(1)] by (auto simp: url_params_def)
  then show ?thesis using assms(2) by (auto simp: field_or_def parse_stream_def)
qed

text \<open>What the server answers to the request for the raw text of a stored event.\<close>

lemma raw_answer:
  assumes "repo_get_detail (Some (steady db)) i = Inr (Some d)" "0 \<le> i" "i \<le> I64_MAX"
    "fr_path_decode fr (dec_int i) = Some (dec_int i)"
  shows "\<exists>hs. serve_request fr cache True db (raw_request i ''stdin'')
      = Some \<lparr>rs_status = OK, rs_headers = hs, rs_body = Text (chunks_text (ed_stdin_data d))\<rparr>"
    "\<exists>hs. serve_request fr cache True db (raw_request i ''stdout'')
      = Some \<lparr>rs_status = OK, rs_headers = hs, rs_body = Text (chunks_text (ed_stdout_data d))\<rparr>"
proof -
  have "\<exists>hs. serve_request fr cache True db (raw_request i stream)
      = Some \<lparr>rs_status = OK, rs_headers = hs, rs_body = Text (raw_text (Some kind) d)\<rparr>"
    if "stream \<in> {''stdin'', ''stdout''}" "kind = (if stream = ''stdin'' then Stdin else Stdout)" for stream kind
  proof -
    have "serve_get fr (as_repo (server_state cache True db)) [] (raw_request i stream)
        = Some (get_event_raw (as_repo (server_state cache True db)) i (Some kind))"
      using raw_endpoint [OF assms(2)] raw_params [OF assms(2) that(1)] parse_i64_dec [OF assms(2,3)] assms(4) that(2)
      by (simp add: serve_get_def raw_request_def)
    then show ?thesis
      using assms(1) raw_endpoint [OF assms(2)]
      by (simp add: serve_request_def router_def raw_request_def get_event_raw_def server_state_def
          sql_event_repository_def security_headers_def text_response_def Let_def)
  qed
  from this [of "''stdin''" Stdin] this [of "''stdout''" Stdout] show
    "\<exists>hs. serve_request fr cache True db (raw_request i ''stdin'')
      = Some \<lparr>rs_status = OK, rs_headers = hs, rs_body = Text (chunks_text (ed_stdin_data d))\<rparr>"
    "\<exists>hs. serve_request fr cache True db (raw_request i ''stdout'')
      = Some \<lparr>rs_status = OK, rs_headers = hs, rs_body = Text (chunks_text (ed_stdout_data d))\<rparr>"
    by (simp_all add: raw_text_def)
qed

section \<open>The detail panel of one event\<close>

definition detail_request :: "int \<Rightarrow> http_request" where
  "detail_request i =
     \<lparr>rq_method = ''GET'', rq_target = ''/api/v1/events/'' @ dec_int i @ ''/detail'', rq_headers = Map.empty\<rparr>"

lemma detail_endpoint:
  assumes "0 \<le> i"
  shows "endpoint_of (path_of (rq_target (detail_request i))) = EDetail (dec_int i)"
proof -
  have d: "dec_int i = dec (nat i)" "dec (nat i) \<noteq> []"
    using assms dec_facts [of "nat i"] by (simp_all add: dec_int_def)
  have no: "CHR ''/'' \<notin> set (dec (nat i))" "CHR ''?'' \<notin> set (dec (nat i))"
    by (rule dec_no, simp add: is_digit_def u8_of_char_def)+
  then have "str_split (CHR ''/'') (''/api/v1/events/'' @ dec (nat i) @ ''/detail'') =
      [[], ''api'', ''v1'', ''events'', dec (nat i), ''detail'']"
    using str_split_cat [of "CHR ''/''" "dec (nat i)" "''detail''"] by simp
  moreover have "split_once (CHR ''?'') (''/api/v1/events/'' @ dec (nat i) @ ''/detail'') = None"
    using no(2) by (simp only: split_once_None) simp
  ultimately show ?thesis
    unfolding detail_request_def d(1) path_of_def endpoint_of_def by (simp add: d(2))
qed

text \<open>What the server answers to the request for the detail panel of a stored event.\<close>

lemma detail_answer:
  assumes "repo_get_detail (Some (steady db)) i = Inr (Some d)" "0 \<le> i" "i \<le> I64_MAX"
    "fr_path_decode fr (dec_int i) = Some (dec_int i)"
    "fr_event_detail fr (event_detail_view_from (fr_env fr) d) = Some html"
  shows "\<exists>hs. serve_request fr cache True db (detail_request i)
      = Some \<lparr>rs_status = OK, rs_headers = hs, rs_body = Text html\<rparr>"
proof -
  have "serve_get fr (as_repo (server_state cache True db)) [] (detail_request i)
      = Some (get_event_detail fr (as_repo (server_state cache True db)) i)"
    using detail_endpoint [OF assms(2)] parse_i64_dec [OF assms(2,3)] assms(4) by (simp add: serve_get_def)
  then show ?thesis
    using assms(1,5) detail_endpoint [OF assms(2)]
    by (simp add: serve_request_def router_def get_event_detail_def server_state_def html_or_error_def
        sql_event_repository_def security_headers_def text_response_def Let_def) (simp add: detail_request_def)
qed

end
