(* ===== verification/Pipeline.thy ===== *)
theory Pipeline
  imports Recording Handler EbpfInv
begin

text \<open>
  From the kernel to the detail view: the entries that the kernel programs submit, through parser,
  correlator and SQLite sink (\<open>handler.rs\<close>, \<open>session.rs\<close>, \<open>sqlite_sink.rs\<close>), up to what the web server
  shows of one execution. The ring buffer's invariant says which entries can follow an exec; the
  correlator keeps the session of a tracked process; theory Recording says what the rows of a sequence
  of sink calls show.
\<close>

section \<open>Ring entries as sink calls\<close>

fun ring_pid :: "ring_event \<Rightarrow> u32" where
  "ring_pid (RExec e) = h_pid (x_header e)"
| "ring_pid (RIo e) = h_pid (io_header e)"
| "ring_pid (RExit e) = h_pid (e_header e)"

fun ring_eid :: "ring_event \<Rightarrow> u64" where
  "ring_eid (RExec e) = h_execution_id (x_header e)"
| "ring_eid (RIo e) = h_execution_id (io_header e)"
| "ring_eid (RExit e) = h_execution_id (e_header e)"

text \<open>The sink call that an unfiltered entry becomes, and the correlator after it.\<close>

fun ring_call :: "u8 list option \<Rightarrow> ring_event \<Rightarrow> correlator \<Rightarrow> (correlator \<times> sink_call) option" where
  "ring_call rnd (RExec x) c =
     (let e = exec_of_struct x
      in map_option (\<lambda>(c, sid). (c, CallExec (exec_session_info sid e) e)) (corr_on_exec rnd c (info_of_exec e)))"
| "ring_call rnd (RIo x) c =
     (let e = io_of_struct x; ty = (if decoded_event_type (io_header x) = Some Read then Read else Write)
      in map_option (\<lambda>(c, sid). (c, CallIo (io_session_info sid e) e ty)) (corr_session_for rnd c (info_of_io e)))"
| "ring_call rnd (RExit x) c =
     (let e = exit_of_struct x
      in map_option (\<lambda>(c, sid). (fst (corr_on_exit c (pe_pid e)),
           CallExit (exit_session_info sid e) e
             (case snd (corr_on_exit c (pe_pid e)) of None \<Rightarrow> False | Some x \<Rightarrow> xi_session_complete x)))
         (corr_session_for rnd c (info_of_exit e)))"

text \<open>One turn of the event loop: what \<open>getrandom\<close> and SQLite would answer, and the entry.\<close>

type_synonym turn = "u8 list \<times> sql_env \<times> ring_event"

definition turn_event :: "turn \<Rightarrow> ring_event" where
  "turn_event t = snd (snd t)"

definition turn_item :: "turn \<Rightarrow> u8 list option \<times> database sink \<times> u8 list" where
  "turn_item t = (Some (fst t), sqlite_sink (fst (snd t)), ring_bytes (turn_event t))"

fun ring_calls :: "turn list \<Rightarrow> correlator \<Rightarrow> (correlator \<times> (sql_env \<times> sink_call) list) option" where
  "ring_calls [] c = Some (c, [])"
| "ring_calls ((rnd, env, e) # ts) c =
     Option.bind (ring_call (Some rnd) e c) (\<lambda>(c, call).
       map_option (\<lambda>(c, calls). (c, (env, call) # calls)) (ring_calls ts c))"

lemma exec_info [simp]:
  "ei_pid (info_of_exec (exec_of_struct x)) = h_pid (x_header x)"
  "ei_pid (info_of_io (io_of_struct i)) = h_pid (io_header i)"
  "ei_pid (info_of_exit (exit_of_struct y)) = h_pid (e_header y)"
  by (simp_all add: info_of_exec_def info_of_io_def info_of_exit_def exec_of_struct_def io_of_struct_def
      exit_of_struct_def Let_def)

lemma struct_keys [simp]:
  "px_pid (exec_of_struct x) = h_pid (x_header x)" "px_execution_id (exec_of_struct x) = h_execution_id (x_header x)"
  "pio_pid (io_of_struct i) = h_pid (io_header i)" "pio_execution_id (io_of_struct i) = h_execution_id (io_header i)"
  "pio_fd (io_of_struct i) = io_fd i"
  "pe_pid (exit_of_struct y) = h_pid (e_header y)" "pe_execution_id (exit_of_struct y) = h_execution_id (e_header y)"
  "pe_exit_code (exit_of_struct y) = e_exit_code y"
  by (simp_all add: exec_of_struct_def io_of_struct_def exit_of_struct_def Let_def)

lemma session_infos [simp]:
  "si_session_id (exec_session_info sid e) = sid" "si_session_id (io_session_info sid i) = sid"
  "si_session_id (exit_session_info sid y) = sid"
  by (simp_all add: exec_session_info_def io_session_info_def exit_session_info_def)

lemma ring_call_total: "\<exists>c' call. ring_call (Some rnd) e c = Some (c', call)"
  using corr_total [of "Some rnd"] by (cases e) (simp_all add: Let_def split_beta)

lemma ring_calls_total: "\<exists>c' calls. ring_calls ts c = Some (c', calls)"
proof (induction ts arbitrary: c)
  case (Cons t ts)
  obtain rnd env e where t: "t = (rnd, env, e)" by (cases t)
  obtain c1 call where "ring_call (Some rnd) e c = Some (c1, call)" using ring_call_total by blast
  then show ?case using Cons.IH [of c1] by (auto simp: t)
qed simp

lemma ring_calls_append:
  "ring_calls (ts @ us) c = Option.bind (ring_calls ts c) (\<lambda>(c, calls).
     map_option (\<lambda>(c, calls'). (c, calls @ calls')) (ring_calls us c))"
proof (induction ts c rule: ring_calls.induct)
  case (1 c)
  then show ?case by (cases "ring_calls us c") auto
next
  case (2 rnd env e ts c)
  then show ?case
    by (cases "ring_call (Some rnd) e c")
      (auto simp: Option.map_conv_bind_option split: Option.bind_splits)
qed

lemma handle_ring_event:
  assumes "ring_event_ok self pre e" "filter_config_is_empty config"
  shows "handle_event rnd config sink (ring_bytes e) (c, s) =
    map_option (\<lambda>(c, call). (c, sink_do sink call s)) (ring_call rnd e c)"
proof (cases e)
  case (RExec x)
  then have "parsed_exec_try_from (ring_bytes e) = Inr (exec_of_struct x)"
    using assms(1) by (simp add: parse_exec_image)
  then show ?thesis
    using assms(2) by (cases "corr_on_exec rnd c (info_of_exec (exec_of_struct x))")
      (auto simp: exec_dispatch handle_exec_event_def filtered_out_def RExec Let_def)
next
  case (RExit y)
  then have "parsed_exit_try_from (ring_bytes e) = Inr (exit_of_struct y)"
    using assms(1) by (simp add: parse_exit_image)
  then show ?thesis
    using assms(2) by (cases "corr_session_for rnd c (info_of_exit (exit_of_struct y))")
      (auto simp: exit_dispatch handle_exit_event_def filtered_out_def RExit split_beta Let_def)
next
  case (RIo i)
  then have i: "parsed_io_try_from (ring_bytes e) = Inr (io_of_struct i)"
    "event_header_try_from (ring_bytes e) = Inr (io_header i)"
    "decoded_event_type (io_header i) = Some Read \<or> decoded_event_type (io_header i) = Some Write"
    using assms(1) by (auto simp: parse_io_image io_image_header)
  then show ?thesis
    using assms(2) by (cases "corr_session_for rnd c (info_of_io (io_of_struct i))")
      (auto simp: handle_event_def handle_io_event_def filtered_out_def RIo Let_def)
qed

lemma consume_turns:
  assumes "\<forall>t \<in> set ts. \<exists>self pre. ring_event_ok self pre (turn_event t)" "filter_config_is_empty config"
  shows "consume_ring config (map turn_item ts) (c, db) =
    map_option (\<lambda>(c, calls). (c, collect calls db)) (ring_calls ts c)"
  using assms(1)
proof (induction ts arbitrary: c db)
  case Nil
  then show ?case by (simp add: collect_def)
next
  case (Cons t ts)
  obtain rnd env e where t: "t = (rnd, env, e)" by (cases t)
  then obtain self pre where "ring_event_ok self pre e" using Cons.prems by (auto simp: turn_event_def)
  note h = handle_ring_event [OF this assms(2), of "Some rnd" "sqlite_sink env" c db]
  show ?case
    using Cons by (cases "ring_call (Some rnd) e c")
      (auto simp: t turn_item_def turn_event_def h option.map_comp comp_def split_beta collect_def)
qed

section \<open>The rows of other executions\<close>

fun call_key :: "sink_call \<Rightarrow> int \<times> int" where
  "call_key (CallExec si e) = (int_u32 (px_pid e), saturate_i64 (px_execution_id e))"
| "call_key (CallExit si e complete) = (int_u32 (pe_pid e), saturate_i64 (pe_execution_id e))"
| "call_key (CallIo si e ty) = (int_u32 (pio_pid e), saturate_i64 (pio_execution_id e))"

definition row_key :: "event_row \<Rightarrow> int \<times> int" where
  "row_key r = (er_pid r, er_execution_id r)"

definition ring_key :: "ring_event \<Rightarrow> int \<times> int" where
  "ring_key e = (int_u32 (ring_pid e), saturate_i64 (ring_eid e))"

lemma row_keys [simp]:
  "row_key (exec_row now j sid e) = (int_u32 (px_pid e), saturate_i64 (px_execution_id e))"
  "row_key (exit_row now sid x) = (int_u32 (pe_pid x), saturate_i64 (pe_execution_id x))"
  "row_key (io_row now sid i ty) = (int_u32 (pio_pid i), saturate_i64 (pio_execution_id i))"
  "row_key (r\<lparr>er_id := n\<rparr>) = row_key r" "row_key (r\<lparr>er_exit_code := code\<rparr>) = row_key r"
  by (simp_all add: row_key_def exec_row_def exit_row_def io_row_def)

lemma sink_image:
  assumes "\<And>r n. f (r\<lparr>er_id := n\<rparr>) = f r" "\<And>r code. f (r\<lparr>er_exit_code := code\<rparr>) = f r"
  shows "f ` set (db_events (sink_do (sqlite_sink env) c db)) \<subseteq> insert (f (call_row env c)) (f ` set (db_events db))"
proof -
  have insert: "f ` set (db_events (fst (sql_run env n (insert_event r) db))) \<subseteq> insert (f r) (f ` set (db_events db))" for n r db
    using insert_run_cases [of env n r db] by (auto simp: assms(1))
  have "map f (db_events (backfill_exit_code sid e db)) = map f (db_events db)" for sid e db
    by (simp add: backfill_exit_code_def Let_def update_events_def assms(2))
  then have backfill: "f ` set (db_events (backfill_exit_code sid e db)) = f ` set (db_events db)" for sid e db
    by (metis set_map)
  show ?thesis
  proof (cases c)
    case (CallExec si e)
    show ?thesis
      using insert [of 1 "call_row env c" "fst (ensure_session env si db)"]
      by (simp add: CallExec sqlite_sink_def sqlite_on_exec_def insert_exec_def)
  next
    case (CallIo si e ty)
    show ?thesis
      using insert [of 0 "call_row env c" db] by (simp add: CallIo sqlite_sink_def sqlite_on_io_def insert_io_def)
  next
    case (CallExit si e complete)
    let ?db1 = "fst (sql_run env 0 (insert_event (call_row env c)) db)"
    have "f ` set (db_events (fst (insert_exit env (si_session_id si) e complete db))) = f ` set (db_events ?db1)"
      by (auto simp: CallExit insert_exit_def split_beta sql_run_def [of _ "Suc 0"] sql_run_def [of _ 2] backfill)
    then show ?thesis
      using insert [of 0 "call_row env c" db] by (simp add: CallExit sqlite_sink_def sqlite_on_exit_def)
  qed
qed

lemma sink_keys:
  "row_key ` set (db_events (sink_do (sqlite_sink env) c db)) \<subseteq> insert (call_key c) (row_key ` set (db_events db))"
  using sink_image [of row_key env c db] by (cases c) simp_all

lemma collect_keys:
  "row_key ` set (db_events (collect calls db)) \<subseteq> call_key ` snd ` set calls \<union> row_key ` set (db_events db)"
proof (induction calls arbitrary: db)
  case (Cons p calls)
  obtain env c where p: "p = (env, c)" by (cases p)
  have "collect (p # calls) db = collect calls (sink_do (sqlite_sink env) c db)" by (simp add: p collect_def)
  moreover have "row_key ` set (db_events (collect calls (sink_do (sqlite_sink env) c db)))
      \<subseteq> call_key ` snd ` set calls \<union> insert (call_key c) (row_key ` set (db_events db))"
    using Cons.IH sink_keys by (rule order_trans [OF _ Un_mono [OF order_refl]])
  ultimately show ?case by (simp add: p)
qed (simp add: collect_def)

lemma collect_seq: "db_seq (collect calls db) \<le> db_seq db + int (length calls)"
proof (induction calls arbitrary: db)
  case (Cons p calls)
  obtain env c where p: "p = (env, c)" by (cases p)
  show ?case
    using Cons.IH [of "sink_do (sqlite_sink env) c db"] seq_grows [of env c db] by (simp add: p collect_def)
qed (simp add: collect_def)

lemma ring_call_key:
  assumes "ring_call rnd e c = Some (c', call)"
  shows "call_key call = ring_key e" "call_ok call" "proper_call call"
proof -
  have "length (pio_data (io_of_struct i)) \<le> MAX_DATA_LEN" for i
    by (simp add: io_of_struct_def Let_def)
  then have "length (pio_data (io_of_struct i)) < 4294967296" for i
    by (rule le_less_trans) (simp add: MAX_DATA_LEN_def)
  then show "call_key call = ring_key e" "call_ok call" "proper_call call"
    using assms by (cases e; auto simp: ring_key_def Let_def)+
qed

lemma ring_calls_keys:
  assumes "ring_calls ts c = Some (c', calls)"
  shows "map (call_key \<circ> snd) calls = map (ring_key \<circ> turn_event) ts" "map fst calls = map (fst \<circ> snd) ts"
    "list_all (\<lambda>(_, c). call_ok c \<and> proper_call c) calls"
proof -
  have "map (call_key \<circ> snd) calls = map (ring_key \<circ> turn_event) ts \<and> map fst calls = map (fst \<circ> snd) ts
      \<and> list_all (\<lambda>(_, c). call_ok c \<and> proper_call c) calls"
    using assms
  proof (induction ts arbitrary: c calls)
    case (Cons t ts)
    then show ?case
      by (cases t) (auto simp: turn_event_def dest: ring_call_key split: Option.bind_splits)
  qed simp
  then show "map (call_key \<circ> snd) calls = map (ring_key \<circ> turn_event) ts" "map fst calls = map (fst \<circ> snd) ts"
    "list_all (\<lambda>(_, c). call_ok c \<and> proper_call c) calls" by blast+
qed

section \<open>The entries of one execution\<close>

text \<open>An entry about the execution that the exec entry \<open>x\<close> started, as the database tells executions apart.\<close>

definition of_exec :: "exec_event \<Rightarrow> ring_event \<Rightarrow> bool" where
  "of_exec x e \<longleftrightarrow> ring_tgid e = h_tgid (x_header x)
     \<and> saturate_i64 (ring_eid e) = saturate_i64 (h_execution_id (x_header x))"

fun ring_captured :: "exec_event \<Rightarrow> ring_event \<Rightarrow> io_event list" where
  "ring_captured x (RIo i) = (if of_exec x (RIo i) then [i] else [])"
| "ring_captured x e = []"

fun ring_exit_code :: "exec_event \<Rightarrow> ring_event \<Rightarrow> i32 option \<Rightarrow> i32 option" where
  "ring_exit_code x (RExit y) code = (if of_exec x (RExit y) then Some (e_exit_code y) else code)"
| "ring_exit_code x e code = code"

definition execution_at :: "session_id \<Rightarrow> exec_event \<Rightarrow> execution" where
  "execution_at sid x = \<lparr>xc_session = sid, xc_pid = h_tgid (x_header x), xc_execution_id = h_execution_id (x_header x)\<rparr>"

lemma ring_event_ok_pid: "ring_event_ok self pre e \<Longrightarrow> ring_pid e = ring_tgid e"
  by (cases e) auto

lemma of_exec_key: "ring_pid e = ring_tgid e \<Longrightarrow> of_exec x e \<longleftrightarrow> ring_key e = (int_u32 (h_tgid (x_header x)), saturate_i64 (h_execution_id (x_header x)))"
  by (simp add: of_exec_def ring_key_def)

subsection \<open>One entry\<close>

lemma on_exec_keeps:
  assumes "corr_on_exec rnd c info = Some (c', sid)" "tracked c t = Some p"
  shows "\<exists>p'. tracked c' t = Some p' \<and> p_session_id p' = p_session_id p" "ei_pid info = t \<Longrightarrow> sid = p_session_id p"
proof -
  show "ei_pid info = t \<Longrightarrow> sid = p_session_id p"
    using assms by (auto simp: corr_on_exec_def tracked_def Let_def)
  then show "\<exists>p'. tracked c' t = Some p' \<and> p_session_id p' = p_session_id p"
    using corr_on_exec_tracked [OF assms(1)] assms(2) by (auto simp: process_of_def)
qed

lemma session_for_keeps:
  assumes "corr_session_for rnd c info = Some (c', sid)" "tracked c t = Some p"
  shows "tracked c' t = Some p" "ei_pid info = t \<Longrightarrow> sid = p_session_id p"
  using corr_session_for_tracked [OF assms(1)] assms(2) by (auto split: option.splits)

text \<open>While the process is tracked, the calls of its entries carry its session.\<close>

lemma tracked_call:
  assumes "ring_call rnd e c = Some (c', call)" "ring_pid e = ring_tgid e" "tracked c (h_tgid (x_header x)) = Some p"
  shows "captured (execution_at (p_session_id p) x) call = map io_of_struct (ring_captured x e)"
    and "exit_of (execution_at (p_session_id p) x) call code = ring_exit_code x e code"
    and "\<not> exits (h_tgid (x_header x)) [e] \<Longrightarrow>
      \<exists>p'. tracked c' (h_tgid (x_header x)) = Some p' \<and> p_session_id p' = p_session_id p"
proof -
  have "captured (execution_at (p_session_id p) x) call = map io_of_struct (ring_captured x e)
    \<and> exit_of (execution_at (p_session_id p) x) call code = ring_exit_code x e code
    \<and> (\<not> exits (h_tgid (x_header x)) [e] \<longrightarrow>
        (\<exists>p'. tracked c' (h_tgid (x_header x)) = Some p' \<and> p_session_id p' = p_session_id p))"
  proof (cases e)
    case (RExec y)
    with assms(1) obtain sid where s: "corr_on_exec rnd c (info_of_exec (exec_of_struct y)) = Some (c', sid)"
      "call = CallExec (exec_session_info sid (exec_of_struct y)) (exec_of_struct y)"
      by (auto simp: Let_def)
    with on_exec_keeps(1) [OF s(1) assms(3)] RExec show ?thesis by simp
  next
    case (RIo i)
    with assms(1) obtain sid ty where s: "corr_session_for rnd c (info_of_io (io_of_struct i)) = Some (c', sid)"
      "call = CallIo (io_session_info sid (io_of_struct i)) (io_of_struct i) ty" "ty = Read \<or> ty = Write"
      by (auto simp: Let_def)
    with session_for_keeps [OF s(1) assms(3)] RIo assms(2) show ?thesis
      by (auto simp: concerns_def execution_at_def of_exec_def)
  next
    case (RExit y)
    with assms(1) obtain sid c1 complete where s: "corr_session_for rnd c (info_of_exit (exit_of_struct y)) = Some (c1, sid)"
      "call = CallExit (exit_session_info sid (exit_of_struct y)) (exit_of_struct y) complete"
      "c' = fst (corr_on_exit c1 (h_pid (e_header y)))"
      by (auto simp: Let_def)
    with session_for_keeps [OF s(1) assms(3)] RExit assms(2) show ?thesis
      by (auto simp: concerns_def execution_at_def of_exec_def corr_on_exit_tracked)
  qed
  then show "captured (execution_at (p_session_id p) x) call = map io_of_struct (ring_captured x e)"
    and "exit_of (execution_at (p_session_id p) x) call code = ring_exit_code x e code"
    and "\<not> exits (h_tgid (x_header x)) [e] \<Longrightarrow>
      \<exists>p'. tracked c' (h_tgid (x_header x)) = Some p' \<and> p_session_id p' = p_session_id p" by blast+
qed

text \<open>Entries of other executions leave it alone, whoever is tracked.\<close>

lemma foreign_call:
  assumes "ring_call rnd e c = Some (c', call)" "ring_pid e = ring_tgid e" "\<not> of_exec x e"
  shows "captured (execution_at sid x) call = []" "exit_of (execution_at sid x) call code = code"
    "\<not> starts (execution_at sid x) call"
  using assms
  by (cases e; auto simp: concerns_def execution_at_def of_exec_def Let_def)+

lemma no_start:
  assumes "ring_call rnd e c = Some (c', call)" "ring_pid e = ring_tgid e" "\<forall>y. e = RExec y \<longrightarrow> \<not> of_exec x e"
  shows "\<not> starts (execution_at sid x) call"
  using assms by (cases e) (auto simp: concerns_def execution_at_def of_exec_def Let_def)


subsection \<open>Sequences of entries\<close>

lemma turn_event_simp [simp]: "turn_event (rnd, env, e) = e"
  by (simp add: turn_event_def)

lemma foreign_entry: "\<not> of_exec x e \<Longrightarrow> ring_captured x e = []" "\<not> of_exec x e \<Longrightarrow> ring_exit_code x e code = code"
  by (cases e; simp)+

lemma foreign_calls:
  assumes "ring_calls ts c = Some (c', calls)" "\<forall>e \<in> set (map turn_event ts). ring_pid e = ring_tgid e \<and> \<not> of_exec x e"
  shows "captured_by (execution_at sid x) calls = []" "fold (exit_of (execution_at sid x) \<circ> snd) calls code = code"
    "concat (map (ring_captured x) (map turn_event ts)) = []" "fold (ring_exit_code x) (map turn_event ts) code = code"
proof -
  have "captured_by (execution_at sid x) calls = [] \<and> fold (exit_of (execution_at sid x) \<circ> snd) calls code = code
      \<and> concat (map (ring_captured x) (map turn_event ts)) = [] \<and> fold (ring_exit_code x) (map turn_event ts) code = code"
    using assms
  proof (induction ts arbitrary: c calls)
    case (Cons t ts)
    obtain rnd env e where t: "t = (rnd, env, e)" by (cases t)
    from Cons.prems obtain c1 call calls' where *: "ring_call (Some rnd) e c = Some (c1, call)"
      "ring_calls ts c1 = Some (c', calls')" "calls = (env, call) # calls'"
      by (auto simp: t split: Option.bind_splits)
    have e: "ring_pid e = ring_tgid e" "\<not> of_exec x e" using Cons.prems by (simp_all add: t)
    note 1 = foreign_call [OF *(1) e]
    have "captured_by (execution_at sid x) calls' = [] \<and> fold (exit_of (execution_at sid x) \<circ> snd) calls' code = code
      \<and> concat (map (ring_captured x) (map turn_event ts)) = [] \<and> fold (ring_exit_code x) (map turn_event ts) code = code"
      using Cons.prems * by (intro Cons.IH) auto
    with 1 e(2) Cons.prems(1,2) show ?case by (simp add: * captured_by_def t comp_def foreign_entry)
  qed (simp add: captured_by_def)
  then show "captured_by (execution_at sid x) calls = []" "fold (exit_of (execution_at sid x) \<circ> snd) calls code = code"
    "concat (map (ring_captured x) (map turn_event ts)) = []" "fold (ring_exit_code x) (map turn_event ts) code = code"
    by blast+
qed

lemma tracked_calls:
  assumes "ring_calls ts c = Some (c', calls)" "\<forall>e \<in> set (map turn_event ts). ring_pid e = ring_tgid e"
    "\<not> exits (h_tgid (x_header x)) (map turn_event ts)" "tracked c (h_tgid (x_header x)) = Some p"
  shows "captured_by (execution_at (p_session_id p) x) calls
      = map io_of_struct (concat (map (ring_captured x) (map turn_event ts)))
    \<and> fold (exit_of (execution_at (p_session_id p) x) \<circ> snd) calls code = fold (ring_exit_code x) (map turn_event ts) code
    \<and> (\<exists>p'. tracked c' (h_tgid (x_header x)) = Some p' \<and> p_session_id p' = p_session_id p)"
  using assms
proof (induction ts arbitrary: c calls p code)
  case Nil
  then show ?case by (simp add: captured_by_def)
next
  case (Cons t ts)
  obtain rnd env e where t: "t = (rnd, env, e)" by (cases t)
  from Cons.prems obtain c1 call calls' where *: "ring_call (Some rnd) e c = Some (c1, call)"
    "ring_calls ts c1 = Some (c', calls')" "calls = (env, call) # calls'"
    by (auto simp: t split: Option.bind_splits)
  have e: "ring_pid e = ring_tgid e" "\<not> exits (h_tgid (x_header x)) [e]"
    "\<not> exits (h_tgid (x_header x)) (map turn_event ts)"
    using Cons.prems exits_simps(5) [of _ "[e]" "map turn_event ts"] by (simp_all add: t)
  note 1 = tracked_call [OF *(1) e(1) Cons.prems(4)]
  obtain p' where p': "tracked c1 (h_tgid (x_header x)) = Some p'" "p_session_id p' = p_session_id p"
    using 1(3) e(2) by blast
  from Cons.IH [OF *(2) _ e(3) p'(1), of "ring_exit_code x e code"] Cons.prems(2) 1(1,2) p'(2)
  show ?case by (simp add: * captured_by_def t)
qed

lemma saturate_0: "saturate_i64 w = 0 \<longleftrightarrow> w = 0" "saturate_i64 0 = saturate_i64 w \<longleftrightarrow> w = 0"
  by (auto simp: saturate_i64_def I64_MAX_def uint_0_iff)

text \<open>Only an exec, or an entry with the exec before it and no exit since, belongs to the execution.\<close>

lemma of_exec_live:
  assumes "ring_event_ok self evs e" "of_exec x e" "h_execution_id (x_header x) \<noteq> 0" "\<forall>z. e \<noteq> RExec z"
  shows "\<exists>a z b. evs = a @ RExec z # b \<and> of_exec x (RExec z) \<and> \<not> exits (h_tgid (x_header x)) b"
proof -
  have "saturate_i64 (ring_eid e) \<noteq> 0" using assms(2,3) by (simp add: of_exec_def saturate_0)
  then have "ring_eid e \<noteq> 0" by (simp add: saturate_0)
  then have "exec_live (ring_tgid e) (ring_eid e) evs"
  proof (cases e)
    case (RExec z)
    with assms(4) show ?thesis by blast
  next
    case (RIo i)
    then show ?thesis using assms(1) by simp
  next
    case (RExit y)
    then show ?thesis using assms(1) \<open>ring_eid e \<noteq> 0\<close> by simp
  qed
  then obtain a z b where z: "evs = a @ RExec z # b" "h_tgid (x_header z) = ring_tgid e"
    "h_execution_id (x_header z) = ring_eid e" "\<not> exits (ring_tgid e) b"
    unfolding exec_live_def by blast
  then have "of_exec x (RExec z)" "\<not> exits (h_tgid (x_header x)) b" using assms(2) by (simp_all add: of_exec_def)
  with z(1) show ?thesis by blast
qed

lemma of_exec_self: "of_exec x (RExec x)"
  by (simp add: of_exec_def)

lemma foreign_after_exit:
  assumes "ring_event_ok self (pre @ RExec x # mid) e" "exits (h_tgid (x_header x)) mid"
    "\<forall>z. RExec z \<in> set (pre @ mid @ [e]) \<longrightarrow> \<not> of_exec x (RExec z)" "h_execution_id (x_header x) \<noteq> 0"
  shows "\<not> of_exec x e"
proof
  assume e: "of_exec x e"
  then have "\<forall>z. e \<noteq> RExec z" using assms(3) by auto
  from of_exec_live [OF assms(1) e assms(4) this] obtain a z b
    where z: "pre @ RExec x # mid = a @ RExec z # b" "of_exec x (RExec z)" "\<not> exits (h_tgid (x_header x)) b" by blast
  have "RExec z \<in> set (pre @ RExec x # mid)" unfolding z(1) by simp
  then have "z = x" using z(2) assms(3) by auto
  moreover have "RExec x \<notin> set pre" "RExec x \<notin> set mid" using assms(3) of_exec_self by auto
  ultimately have "b = mid" using z(1) append_Cons_eq_iff [of "RExec x" pre mid a b] by simp
  with z(3) assms(2) show False by simp
qed

lemma foreign_before:
  assumes "ring_ok self pre" "e \<in> set pre" "\<forall>z. RExec z \<in> set pre \<longrightarrow> \<not> of_exec x (RExec z)"
    "h_execution_id (x_header x) \<noteq> 0"
  shows "\<not> of_exec x e"
proof
  assume e: "of_exec x e"
  then have "\<forall>z. e \<noteq> RExec z" using assms(2,3) by auto
  obtain evs1 evs2 where s: "pre = evs1 @ e # evs2" using split_list [OF assms(2)] by blast
  then have "ring_event_ok self evs1 e" using assms(1) by (auto intro: ring_ok_split)
  from of_exec_live [OF this e assms(4) \<open>\<forall>z. e \<noteq> RExec z\<close>] s assms(3) show False by fastforce
qed

lemma first_exit:
  assumes "exits t evs"
  obtains seg y rest where "evs = seg @ RExit y # rest" "h_tgid (e_header y) = t" "\<not> exits t seg"
proof -
  let ?P = "\<lambda>e. \<exists>y. e = RExit y \<and> h_tgid (e_header y) = t"
  have "\<exists>e \<in> set evs. ?P e" using assms by (auto simp: exits_def)
  then obtain seg e rest where "evs = seg @ e # rest" "?P e" "\<forall>e \<in> set seg. \<not> ?P e"
    using split_list_first_prop [of evs ?P] by blast
  then show thesis using that by (auto simp: exits_def)
qed

lemma execution_calls_until_exit:
  assumes "ring_calls (ts1 @ (rnd, env, RExit y) # ts2) c = Some (c', calls)"
    "\<forall>e \<in> set (map turn_event (ts1 @ (rnd, env, RExit y) # ts2)). ring_pid e = ring_tgid e"
    "h_tgid (e_header y) = h_tgid (x_header x)" "\<not> exits (h_tgid (x_header x)) (map turn_event ts1)"
    "tracked c (h_tgid (x_header x)) = Some p" "\<forall>e \<in> set (map turn_event ts2). \<not> of_exec x e"
  shows "captured_by (execution_at (p_session_id p) x) calls
      = map io_of_struct (concat (map (ring_captured x) (map turn_event (ts1 @ (rnd, env, RExit y) # ts2))))
    \<and> exit_by (execution_at (p_session_id p) x) calls
      = fold (ring_exit_code x) (map turn_event (ts1 @ (rnd, env, RExit y) # ts2)) None"
proof -
  let ?X = "execution_at (p_session_id p) x"
  obtain c1 calls1 c2 call calls2 where calls: "ring_calls ts1 c = Some (c1, calls1)"
    "ring_call (Some rnd) (RExit y) c1 = Some (c2, call)" "ring_calls ts2 c2 = Some (c', calls2)"
    "calls = calls1 @ (env, call) # calls2"
    using assms(1) unfolding ring_calls_append by (auto split: Option.bind_splits)
  have pid1: "\<forall>e \<in> set (map turn_event ts1). ring_pid e = ring_tgid e"
    and pid2: "ring_pid (RExit y) = ring_tgid (RExit y)"
    and rest: "\<forall>e \<in> set (map turn_event ts2). ring_pid e = ring_tgid e \<and> \<not> of_exec x e"
    using assms(2,6) by auto
  from tracked_calls [OF calls(1) pid1 assms(4,5), of "None"] obtain p' where
    1: "captured_by ?X calls1 = map io_of_struct (concat (map (ring_captured x) (map turn_event ts1)))"
      "fold (exit_of ?X \<circ> snd) calls1 None = fold (ring_exit_code x) (map turn_event ts1) None"
      "tracked c1 (h_tgid (x_header x)) = Some p'" "p_session_id p' = p_session_id p" by auto
  note 2 = tracked_call [OF calls(2) pid2 1(3), unfolded 1(4)]
  note 3 = foreign_calls [OF calls(3) rest]
  show ?thesis
    using 1 2 3 unfolding exit_by_def by (simp add: calls(4) captured_by_def del: concat_eq_Nil_conv)
qed

lemma execution_calls:
  assumes "ring_ok self (pre @ RExec x # map turn_event ts)" "h_execution_id (x_header x) \<noteq> 0"
    "\<forall>z. RExec z \<in> set (pre @ map turn_event ts) \<longrightarrow> \<not> of_exec x (RExec z)"
    "ring_calls ts c = Some (c', calls)" "tracked c (h_tgid (x_header x)) = Some p"
  shows "captured_by (execution_at (p_session_id p) x) calls
      = map io_of_struct (concat (map (ring_captured x) (map turn_event ts)))
    \<and> exit_by (execution_at (p_session_id p) x) calls = fold (ring_exit_code x) (map turn_event ts) None"
proof -
  let ?t = "h_tgid (x_header x)" and ?X = "execution_at (p_session_id p) x"
  have ok: "ring_event_ok self (pre @ RExec x # evs1) e" if "map turn_event ts = evs1 @ e # evs2" for evs1 e evs2
    using assms(1) that ring_ok_split [of self "pre @ RExec x # evs1" e evs2] by simp
  have pid: "\<forall>e \<in> set (map turn_event ts). ring_pid e = ring_tgid e"
    using ok ring_event_ok_pid by (metis in_set_conv_decomp)
  show ?thesis
  proof (cases "exits ?t (map turn_event ts)")
    case False
    show ?thesis
      unfolding exit_by_def using tracked_calls [OF assms(4) pid False assms(5)] by blast
  next
    case True
    then obtain seg y rest where split: "map turn_event ts = seg @ RExit y # rest" "h_tgid (e_header y) = ?t" "\<not> exits ?t seg"
      by (rule first_exit)
    then obtain ts1 u ts2 where ts: "ts = ts1 @ u # ts2" "map turn_event ts1 = seg" "turn_event u = RExit y" "map turn_event ts2 = rest"
      by (auto simp: map_eq_append_conv)
    obtain rnd env where u: "u = (rnd, env, RExit y)" using ts(3) by (cases u) simp
    have "\<not> of_exec x e" if e: "e \<in> set rest" for e
    proof -
      obtain r1 r2 where r: "rest = r1 @ e # r2" using split_list [OF e] by blast
      have "ring_event_ok self (pre @ RExec x # (seg @ RExit y # r1)) e"
        using ok [of "seg @ RExit y # r1" e r2] split(1) r by simp
      then show ?thesis
        using assms(2,3) split r by (intro foreign_after_exit [where mid = "seg @ RExit y # r1"]) auto
    qed
    with ts(4) have "\<forall>e \<in> set (map turn_event ts2). \<not> of_exec x e" by simp
    from execution_calls_until_exit [OF assms(4) [unfolded ts(1) u] pid [unfolded ts(1) u] split(2) split(3) [folded ts(2)] assms(5) this]
    show ?thesis by (simp only: ts(1) u)
  qed
qed


section \<open>From the ring to the detail\<close>

text \<open>The text that the detail shows for one captured read or write.\<close>

definition shown_data :: "io_event \<Rightarrow> string" where
  "shown_data i = lossy_string (take (unat (io_data_len i)) (io_data i))"

lemma in_ring_captured: "i \<in> set (ring_captured x e) \<longleftrightarrow> e = RIo i \<and> of_exec x e"
  by (cases e) auto

lemma shown_captured:
  assumes "ring_ok self evs"
  shows "map (lossy_string \<circ> pio_data) (filter (\<lambda>io. P (pio_fd io)) (map io_of_struct (concat (map (ring_captured x) evs))))
    = map shown_data (filter (\<lambda>i. P (io_fd i)) (concat (map (ring_captured x) evs)))"
proof -
  have "lossy_string (pio_data (io_of_struct i)) = shown_data i" if i: "i \<in> set (concat (map (ring_captured x) evs))" for i
  proof -
    have "RIo i \<in> set evs"
    proof -
      from i obtain e where e: "e \<in> set evs" "i \<in> set (ring_captured x e)" by auto
      then show ?thesis by (simp add: in_ring_captured)
    qed
    then obtain evs1 evs2 where s: "evs = evs1 @ RIo i # evs2" using split_list by metis
    have "ring_event_ok self evs1 (RIo i)" using assms unfolding s by (rule ring_ok_split)
    then have "unat (io_data_len i) \<le> MAX_DATA_LEN" by simp
    then show ?thesis by (simp add: shown_data_def io_of_struct_def Let_def min_absorb1)
  qed
  then show ?thesis unfolding filter_map map_map by (intro map_cong) (auto simp: comp_def)
qed

lemma rows_before:
  assumes "ring_calls ts correlator_default = Some (c, calls)"
    "\<forall>e \<in> set (map turn_event ts). ring_pid e = ring_tgid e \<and> \<not> of_exec x e"
  shows "list_all (\<lambda>r. \<not> of_execution (execution_at sid x) r) (db_events (collect calls (empty_database fk)))"
proof -
  have "row_key r \<noteq> (int_u32 (h_tgid (x_header x)), saturate_i64 (h_execution_id (x_header x)))"
    if r: "r \<in> set (db_events (collect calls (empty_database fk)))" for r
  proof -
    have "row_key r \<in> call_key ` snd ` set calls"
      using collect_keys [of calls "empty_database fk"] r by (auto simp: empty_database_def)
    also have "call_key ` snd ` set calls = set (map (call_key \<circ> snd) calls)" by (simp add: image_comp)
    also have "\<dots> = ring_key ` set (map turn_event ts)"
      unfolding ring_calls_keys(1) [OF assms(1)] by (simp add: image_comp)
    finally obtain e where "e \<in> set (map turn_event ts)" "row_key r = ring_key e" by blast
    with assms(2) show ?thesis using of_exec_key [of e x] by metis
  qed
  then show ?thesis by (auto simp: list_all_iff of_execution_def row_key_def execution_at_def)
qed

lemma answered_calls:
  assumes "ring_calls ts c = Some (c', calls)" "\<forall>t \<in> set ts. answers_all (fst (snd t))"
    "\<forall>e \<in> set (map turn_event ts). ring_pid e = ring_tgid e \<and> ((\<exists>z. e = RExec z) \<longrightarrow> \<not> of_exec x e)"
  shows "calls_ok (execution_at sid x) calls"
  using assms
proof (induction ts arbitrary: c calls)
  case (Cons t ts)
  obtain rnd env e where t: "t = (rnd, env, e)" by (cases t)
  from Cons.prems obtain c1 call calls' where *: "ring_call (Some rnd) e c = Some (c1, call)"
    "ring_calls ts c1 = Some (c', calls')" "calls = (env, call) # calls'"
    by (auto simp: t split: Option.bind_splits)
  have "calls_ok (execution_at sid x) calls'" using Cons.prems * by (intro Cons.IH) auto
  moreover have "\<not> starts (execution_at sid x) call"
    using Cons.prems by (intro no_start [OF *(1)]) (auto simp: t)
  ultimately show ?case
    using ring_call_key(2,3) [OF *(1)] Cons.prems(2) by (simp add: calls_ok_def * t)
qed (simp add: calls_ok_def)


definition expected_exit_code :: "exec_event \<Rightarrow> ring_event list \<Rightarrow> i32 option" where
  "expected_exit_code x evs = fold (ring_exit_code x) evs None"

definition captured_entries :: "exec_event \<Rightarrow> ring_event list \<Rightarrow> io_event list" where
  "captured_entries x evs = concat (map (ring_captured x) evs)"

lemma unrelated_entries:
  assumes "\<forall>e \<in> set evs. \<not> of_exec x e"
  shows "captured_entries x evs = []" "fold (ring_exit_code x) evs code = code"
proof -
  show "captured_entries x evs = []" using assms by (simp add: captured_entries_def foreign_entry)
  show "fold (ring_exit_code x) evs code = code"
    using assms by (induction evs) (simp_all add: foreign_entry)
qed

lemma ring_ok_prefix: "ring_ok self (evs @ rest) \<Longrightarrow> ring_ok self evs"
  by (induction rest rule: rev_induct) (simp_all flip: append_assoc)

text \<open>The sink calls of a run, split at one exec entry.\<close>

text \<open>The collector's run, cut at one exec entry.\<close>

lemma consume_cut:
  assumes "\<forall>t \<in> set (ts1 @ (rnd, env, RExec x) # ts2). \<exists>self pre. ring_event_ok self pre (turn_event t)"
    "filter_config_is_empty config"
    "ring_calls ts1 correlator_default = Some (c1, calls1)"
    "corr_on_exec (Some rnd) c1 (info_of_exec (exec_of_struct x)) = Some (c2, sid)"
    "ring_calls ts2 c2 = Some (c3, calls2)"
  shows "consume_ring config (map turn_item (ts1 @ (rnd, env, RExec x) # ts2)) (correlator_default, empty_database fk) =
      Some (c3, collect calls2 (sqlite_on_exec env (exec_session_info sid (exec_of_struct x)) (exec_of_struct x)
        (collect calls1 (empty_database fk))))"
proof -
  have "ring_calls (ts1 @ (rnd, env, RExec x) # ts2) correlator_default =
      Some (c3, calls1 @ (env, CallExec (exec_session_info sid (exec_of_struct x)) (exec_of_struct x)) # calls2)"
    unfolding ring_calls_append by (simp add: assms(3-5) Let_def)
  with consume_turns [OF assms(1,2), of correlator_default "empty_database fk"] show ?thesis
    by (simp add: collect_def sqlite_sink_def)
qed

lemma split_at_exec:
  assumes "ring_ok self (pre @ RExec x # post)" "h_execution_id (x_header x) \<noteq> 0"
    "\<forall>z. RExec z \<in> set (pre @ post) \<longrightarrow> \<not> of_exec x (RExec z)"
    "map turn_event turns = pre @ RExec x # post" "\<forall>t \<in> set turns. answers_all (fst (snd t))"
    "filter_config_is_empty config" "int (length turns) < I64_MAX"
  obtains c env sid calls1 calls2 where
    "consume_ring config (map turn_item turns) (correlator_default, empty_database fk) =
       Some (c, collect calls2 (sqlite_on_exec env (exec_session_info sid (exec_of_struct x)) (exec_of_struct x)
         (collect calls1 (empty_database fk))))"
    "answers_all env" "env = fst (snd (turns ! length pre))"
    "execution_of (exec_session_info sid (exec_of_struct x)) (exec_of_struct x) = execution_at sid x"
    "readable_db (collect calls1 (empty_database fk))"
    "list_all (\<lambda>r. \<not> of_execution (execution_at sid x) r) (db_events (collect calls1 (empty_database fk)))"
    "calls_ok (execution_at sid x) calls2"
    "db_seq (collect calls1 (empty_database fk)) + 1 + int (length calls2) < I64_MAX"
    "captured_by (execution_at sid x) calls2 = map io_of_struct (captured_entries x (pre @ RExec x # post))"
    "exit_by (execution_at sid x) calls2 = expected_exit_code x (pre @ RExec x # post)"
    "px_pid (exec_of_struct x) = h_tgid (x_header x)"
proof -
  have ok: "\<exists>evs. ring_event_ok self evs e" if "e \<in> set (pre @ RExec x # post)" for e
    using assms(1) that ring_ok_split by (metis split_list)
  then have pid: "ring_pid e = ring_tgid e" if "e \<in> set (pre @ RExec x # post)" for e
    using that ring_event_ok_pid by blast
  obtain ts1 u ts2 where ts: "turns = ts1 @ u # ts2" "map turn_event ts1 = pre" "turn_event u = RExec x" "map turn_event ts2 = post"
    using assms(4) by (auto simp: map_eq_append_conv)
  obtain rnd env where u: "u = (rnd, env, RExec x)" using ts(3) by (cases u) simp
  obtain c1 calls1 where 1: "ring_calls ts1 correlator_default = Some (c1, calls1)" using ring_calls_total by blast
  let ?e = "exec_of_struct x"
  obtain c2 sid where 2: "corr_on_exec (Some rnd) c1 (info_of_exec ?e) = Some (c2, sid)"
    using corr_total [of "Some rnd" c1 "info_of_exec ?e"] by fastforce
  obtain c3 calls2 where 3: "ring_calls ts2 c2 = Some (c3, calls2)" using ring_calls_total by blast
  let ?si = "exec_session_info sid ?e" and ?db1 = "collect calls1 (empty_database fk)"
  let ?db = "collect calls2 (sqlite_on_exec env ?si ?e ?db1)"
  have "\<forall>t \<in> set turns. \<exists>self pre. ring_event_ok self pre (turn_event t)"
    using ok assms(4) by (metis (no_types, lifting) image_eqI list.set_map)
  note run = consume_cut [OF this [unfolded ts(1) u] assms(6) 1 2 3, folded u ts(1)]
  have x: "execution_of ?si ?e = execution_at sid x"
    using pid [of "RExec x"] by (simp add: execution_of_def execution_at_def)
  have "ring_ok self pre" using assms(1) by (rule ring_ok_prefix)
  then have foreign: "\<not> of_exec x e" if "e \<in> set pre" for e
    using foreign_before [OF _ that _ assms(2)] assms(3) by auto
  have answered: "calls_ok (execution_at sid x) calls1" "calls_ok (execution_at sid x) calls2"
    using assms(3,5) pid ts by (auto intro!: answered_calls [OF 1] answered_calls [OF 3])
  have readable: "readable_db ?db1"
    using wf_empty_database [of fk] by (intro readable_calls [OF answered(1)]) (simp add: readable_db_def empty_database_def)
  have none: "list_all (\<lambda>r. \<not> of_execution (execution_of ?si ?e) r) (db_events ?db1)"
    unfolding x using rows_before [OF 1] foreign pid ts(2) by simp
  have "length calls1 = length ts1" "length calls2 = length ts2"
    using ring_calls_keys(2) [OF 1] ring_calls_keys(2) [OF 3] map_eq_imp_length_eq by blast+
  then have bound: "db_seq ?db1 + 1 + int (length calls2) < I64_MAX"
    using collect_seq [of calls1 "empty_database fk"] assms(7) by (simp add: ts(1) empty_database_def)
  obtain p where p: "tracked c2 (h_tgid (x_header x)) = Some p" "p_session_id p = sid"
    using corr_on_exec_tracked [OF 2] pid [of "RExec x"] by (simp add: process_of_def)
  have all: "captured_entries x (pre @ RExec x # post) = captured_entries x post"
    "expected_exit_code x (pre @ RExec x # post) = fold (ring_exit_code x) post None"
    using unrelated_entries [of pre x] foreign by (simp_all add: captured_entries_def expected_exit_code_def)
  have calls: "captured_by (execution_at sid x) calls2 = map io_of_struct (captured_entries x (pre @ RExec x # post))"
    "exit_by (execution_at sid x) calls2 = expected_exit_code x (pre @ RExec x # post)"
    unfolding all using execution_calls [OF _ assms(2) _ 3 p(1), of self pre] assms(1,3) ts(4)
    by (simp_all add: p(2) captured_entries_def)
  have "answers_all env" "env = fst (snd (turns ! length pre))"
    using assms(5) ts(1,2) u by (auto simp: nth_append)
  from that [OF run this x readable none [unfolded x] answered(2) bound calls] pid [of "RExec x"]
  show thesis by (simp add: exec_of_struct_def Let_def)
qed

lemma ring_detail:
  assumes "ring_ok self (pre @ RExec x # post)" "h_execution_id (x_header x) \<noteq> 0"
    "\<forall>z. RExec z \<in> set (pre @ post) \<longrightarrow> \<not> of_exec x (RExec z)"
    "map turn_event turns = pre @ RExec x # post" "\<forall>t \<in> set turns. answers_all (fst (snd t))"
    "filter_config_is_empty config" "int (length turns) < I64_MAX"
  shows "\<exists>c db id d. consume_ring config (map turn_item turns) (correlator_default, empty_database fk) = Some (c, db)
    \<and> repo_get_detail (Some (steady db)) id = Inr (Some d) \<and> 0 < id \<and> id < I64_MAX
    \<and> es_pid (ed_summary d) = h_tgid (x_header x)
    \<and> es_filename (ed_summary d) = Some (cstr_from_bytes (x_filename x))
    \<and> es_argv (ed_summary d) = Some (se_json (fst (snd (turns ! length pre))) (px_argv (exec_of_struct x)))
    \<and> es_exit_code (ed_summary d) = expected_exit_code x (pre @ RExec x # post)
    \<and> map ic_data (ed_stdin_data d) =
        map shown_data (filter (\<lambda>i. io_fd i = 0) (captured_entries x (pre @ RExec x # post)))
    \<and> map ic_data (ed_stdout_data d) =
        map shown_data (filter (\<lambda>i. io_fd i \<in> {1, 2}) (captured_entries x (pre @ RExec x # post)))"
proof -
  obtain c env sid calls1 calls2 where
    run: "consume_ring config (map turn_item turns) (correlator_default, empty_database fk) =
       Some (c, collect calls2 (sqlite_on_exec env (exec_session_info sid (exec_of_struct x)) (exec_of_struct x)
         (collect calls1 (empty_database fk))))"
    and env: "answers_all env" "env = fst (snd (turns ! length pre))"
    and x: "execution_of (exec_session_info sid (exec_of_struct x)) (exec_of_struct x) = execution_at sid x"
    and readable: "readable_db (collect calls1 (empty_database fk))"
    and none: "list_all (\<lambda>r. \<not> of_execution (execution_at sid x) r) (db_events (collect calls1 (empty_database fk)))"
    and answered: "calls_ok (execution_at sid x) calls2"
    and bound: "db_seq (collect calls1 (empty_database fk)) + 1 + int (length calls2) < I64_MAX"
    and calls: "captured_by (execution_at sid x) calls2 = map io_of_struct (captured_entries x (pre @ RExec x # post))"
      "exit_by (execution_at sid x) calls2 = expected_exit_code x (pre @ RExec x # post)"
    and pid: "px_pid (exec_of_struct x) = h_tgid (x_header x)"
    by (rule split_at_exec [OF assms, of fk]) (rule that)
  let ?db1 = "collect calls1 (empty_database fk)"
  have "0 \<le> db_seq ?db1" using readable by (simp add: readable_db_def wf_database_def)
  with bound have id: "0 < db_seq ?db1 + 1" "db_seq ?db1 + 1 < I64_MAX" by simp_all
  have shown: "map (lossy_string \<circ> pio_data) (filter (\<lambda>io. P (pio_fd io)) (captured_by (execution_at sid x) calls2))
      = map shown_data (filter (\<lambda>i. P (io_fd i)) (captured_entries x (pre @ RExec x # post)))" for P
    using shown_captured [OF assms(1), of P x, folded captured_entries_def] unfolding calls(1) .
  obtain d where "repo_get_detail (Some (steady (collect calls2 (sqlite_on_exec env (exec_session_info sid (exec_of_struct x))
      (exec_of_struct x) ?db1)))) (db_seq ?db1 + 1) = Inr (Some d)" "es_pid (ed_summary d) = h_tgid (x_header x)"
      "es_filename (ed_summary d) = Some (px_filename (exec_of_struct x))"
      "es_argv (ed_summary d) = Some (se_json env (px_argv (exec_of_struct x)))"
      "es_exit_code (ed_summary d) = expected_exit_code x (pre @ RExec x # post)"
      "map ic_data (ed_stdin_data d) = map shown_data (filter (\<lambda>i. io_fd i = 0) (captured_entries x (pre @ RExec x # post)))"
      "map ic_data (ed_stdout_data d) = map shown_data (filter (\<lambda>i. io_fd i \<in> {1, 2}) (captured_entries x (pre @ RExec x # post)))"
    using recorded_detail [OF readable none [folded x] env(1) answered [folded x] bound]
    unfolding x calls(2) pid shown [of "\<lambda>fd. fd = 0"] shown [of "\<lambda>fd. fd \<in> {1, 2}"]
    by (elim exE conjE) (rule that; assumption)
  with run id env(2) show ?thesis
    by (intro exI conjI) (assumption | simp add: exec_of_struct_def Let_def)+
qed

section \<open>An example run\<close>

text \<open>Process 7 executes a program, reads a byte, writes two and exits with code 3.\<close>

definition full_trace :: "(tracepoint \<times> kenv) list" where
  "full_trace = [(EnterExecve, sample_kenv 10 0), (ExitExecve, sample_kenv 11 0),
     (EnterRead, sample_kenv 12 0), (ExitRead, sample_kenv 13 1),
     (EnterWrite, sample_kenv 14 1), (ExitWrite, sample_kenv 15 2), (EnterExitGroup, sample_kenv 16 3)]"

lemma full_reachable: "ebpf_reachable 1 [] (ebpf_run full_trace (ebpf_init 1 []))"
  by (rule ebpf_run_reachable) (auto simp: full_trace_def intro: ebpf_reachable.start)

lemma full_events: "\<exists>x i w y. s_events (ebpf_run full_trace (ebpf_init 1 offsets)) = [RExec x, RIo i, RIo w, RExit y]
    \<and> ring_tgid (RExec x) = 7 \<and> ring_eid (RExec x) = 11
    \<and> ring_tgid (RIo i) = 7 \<and> ring_eid (RIo i) = 11 \<and> io_fd i = 0 \<and> shown_data i = lossy_string [65]
    \<and> ring_tgid (RIo w) = 7 \<and> ring_eid (RIo w) = 11 \<and> io_fd w = 1 \<and> shown_data w = lossy_string [65, 65]
    \<and> ring_tgid (RExit y) = 7 \<and> ring_eid (RExit y) = 11 \<and> e_exit_code y = 3"
  by (simp add: full_trace_def sample_kenv_def ebpf_init_def try_sys_enter_execve_def sample_upto
      check_not_self_def try_sys_exit_execve_def try_sys_enter_read_def try_sys_exit_read_def
      try_sys_enter_write_def try_sys_exit_write_def try_sys_enter_exit_group_def
      tgid_of_def map_insert_def map_remove_def set_scratch_def fill_io_data_def io_event_zeroed_def
      MAX_DATA_LEN_def Let_def shown_data_def sample_two unwrap_or_def)

end
