(* ===== verification/Running.thy ===== *)
theory Running
  imports Server Pipeline
begin

text \<open>
  The running program: the tasks that \<open>run\<close> and \<open>consume_events\<close> of \<open>shspectr/src/ebpf.rs\<close> start, side by
  side with the kernel programs. One state holds the maps of the kernel programs with the ring buffer,
  the consumer's position in it, the correlator, the sink's store, the cancellation token, the signals,
  the task of the web server and where the event loop is. A step is a kernel program that fires, one
  move of the event loop, a signal, or a step of the other two tasks; any order is possible.

  \<open>surroundings\<close> says what the steps may meet: the sinks (a sink comes with what its store answers), the
  answers of the random source, the file system and pool library, and the addresses that can be bound.
\<close>

section \<open>State\<close>

datatype outcome = ShutDown | LoopError

datatype loop_state = Selecting | Draining | Finished outcome | Panicked

datatype 'addr server_task =
    NoServer | Starting "'addr server_config" | Serving db_pool | ServerEnded "server_error option" | ServerPanicked

record ('addr, 's) running =
  rn_kernel :: ebpf_state
  rn_taken :: nat
  rn_correlator :: correlator
  rn_sink :: 's
  rn_cancelled :: bool
  rn_ctrl_c :: signal_wait
  rn_terminate :: signal_wait
  rn_server :: "'addr server_task"
  rn_loop :: loop_state

record ('addr, 's) surroundings =
  su_config :: filter_config
  su_sinks :: "'s sink set"
  su_random :: "u8 list option set"
  su_host :: pool_host
  su_binds :: "'addr \<Rightarrow> bool"

definition entries_left :: "('addr, 's) running \<Rightarrow> nat" where
  "entries_left r = length (s_events (rn_kernel r)) - rn_taken r"

section \<open>The start\<close>

definition consume_start :: "ebpf_state \<Rightarrow> 'addr server_config option \<Rightarrow> 's \<Rightarrow> ('addr, 's) running" where
  "consume_start maps web_config store =
     \<lparr>rn_kernel = maps, rn_taken = 0, rn_correlator = correlator_default, rn_sink = store,
      rn_cancelled = False, rn_ctrl_c = SigPending, rn_terminate = SigPending,
      rn_server = (case web_config of None \<Rightarrow> NoServer | Some c \<Rightarrow> Starting c), rn_loop = Selecting\<rparr>"

text \<open>
  \<open>run\<close> up to the first \<open>select!\<close>. When the ring buffer cannot be registered with the runtime, the tasks that
  were spawned before are dropped with it.
\<close>

definition run_collector :: "load_env \<Rightarrow> path \<Rightarrow> 'addr server_config option \<Rightarrow> 's \<Rightarrow> load_error + ('addr, 's) running" where
  "run_collector env artifact web_config store =
     (case snd (run_setup env artifact) of
        Inl e \<Rightarrow> Inl e
      | Inr ld \<Rightarrow>
          if \<not> le_runtime env then Inl RuntimeNotCreated
          else if \<not> le_register env then Inl RingNotRegistered
          else Inr (consume_start (ld_maps ld) web_config store))"

text \<open>\<open>main\<close>: the configuration, then \<open>run\<close>. \<open>store\<close> is what the chosen sink starts with.\<close>

definition main_program :: "host \<Rightarrow> (output_sink \<Rightarrow> string \<Rightarrow> bool) \<Rightarrow> (string \<Rightarrow> 'addr option) \<Rightarrow> load_env \<Rightarrow> path
    \<Rightarrow> (output_sink \<Rightarrow> 's) \<Rightarrow> cli \<Rightarrow> (main_error + load_error) + (filter_config \<times> ('addr, 's) running)" where
  "main_program h opens parse_addr env artifact store c =
     (case main_config h opens parse_addr c of
        Inl e \<Rightarrow> Inl (Inl e)
      | Inr (config, out, web_config) \<Rightarrow>
          (case run_collector env artifact web_config (store out) of
             Inl e \<Rightarrow> Inl (Inr e)
           | Inr r \<Rightarrow> Inr (config, r)))"

section \<open>Steps\<close>

text \<open>
  One move of the event loop. At the \<open>select!\<close>, which is biased, the cancellation wins; otherwise the
  ring buffer is readable and is drained until it is empty, without another look at the token. An entry
  whose handler panics takes the task down.
\<close>

definition loop_turn :: "filter_config \<Rightarrow> u8 list option \<Rightarrow> 's sink \<Rightarrow> ('addr, 's) running \<Rightarrow> ('addr, 's) running option" where
  "loop_turn config rnd sink r =
     (case rn_loop r of
        Selecting \<Rightarrow> Some (r\<lparr>rn_loop := if rn_cancelled r then Finished ShutDown else Draining\<rparr>)
      | Draining \<Rightarrow>
          (if rn_taken r < length (s_events (rn_kernel r)) then
             (case handle_event rnd config sink (ring_bytes (s_events (rn_kernel r) ! rn_taken r))
                     (rn_correlator r, rn_sink r) of
                None \<Rightarrow> Some (r\<lparr>rn_loop := Panicked\<rparr>)
              | Some (c, s) \<Rightarrow> Some (r\<lparr>rn_taken := Suc (rn_taken r), rn_correlator := c, rn_sink := s\<rparr>))
           else Some (r\<lparr>rn_loop := Selecting\<rparr>))
      | _ \<Rightarrow> None)"

text \<open>One move of the web server's task: it starts, or fails to; it stops; and then it cancels the token.\<close>

inductive server_turn :: "('addr, 's) surroundings \<Rightarrow> ('addr, 's) running \<Rightarrow> ('addr, 's) running \<Rightarrow> bool"
  for su where
  serves: "rn_server r = Starting c \<Longrightarrow> start_server (su_host su) (su_binds su) c = Inr pool \<Longrightarrow>
    server_turn su r (r\<lparr>rn_server := Serving pool\<rparr>)"
| refused: "rn_server r = Starting c \<Longrightarrow> start_server (su_host su) (su_binds su) c = Inl e \<Longrightarrow>
    server_turn su r (r\<lparr>rn_server := ServerEnded (Some e)\<rparr>)"
| stops: "rn_server r = Serving pool \<Longrightarrow> shutdown_signal (rn_ctrl_c r) (rn_terminate r) = Some True \<Longrightarrow>
    server_turn su r (r\<lparr>rn_server := ServerEnded None\<rparr>)"
| fails: "rn_server r = Serving pool \<Longrightarrow> server_turn su r (r\<lparr>rn_server := ServerEnded (Some ServeError)\<rparr>)"
| panics: "rn_server r = Serving pool \<Longrightarrow> shutdown_signal (rn_ctrl_c r) (rn_terminate r) = None \<Longrightarrow>
    server_turn su r (r\<lparr>rn_server := ServerPanicked\<rparr>)"
| cancels: "rn_server r = ServerEnded e \<Longrightarrow> server_turn su r (r\<lparr>rn_cancelled := True\<rparr>)"

inductive running_step :: "('addr, 's) surroundings \<Rightarrow> ('addr, 's) running \<Rightarrow> ('addr, 's) running \<Rightarrow> bool"
  for su where
  fire: "wf_kenv k \<Longrightarrow> running_step su r (r\<lparr>rn_kernel := fst (ebpf_fire tp k (rn_kernel r))\<rparr>)"
| loop: "rnd \<in> su_random su \<Longrightarrow> sink \<in> su_sinks su \<Longrightarrow> loop_turn (su_config su) rnd sink r = Some r' \<Longrightarrow>
    running_step su r r'"
| unreadable: "rn_loop r = Selecting \<Longrightarrow> \<not> rn_cancelled r \<Longrightarrow> running_step su r (r\<lparr>rn_loop := Finished LoopError\<rparr>)"
| server: "server_turn su r r' \<Longrightarrow> running_step su r r'"
| signals: "rn_ctrl_c r \<in> {SigPending, c} \<Longrightarrow> rn_terminate r \<in> {SigPending, t} \<Longrightarrow>
    running_step su r (r\<lparr>rn_ctrl_c := c, rn_terminate := t\<rparr>)"
| interrupted: "rn_ctrl_c r \<noteq> SigPending \<Longrightarrow> running_step su r (r\<lparr>rn_cancelled := True\<rparr>)"

inductive running_reachable :: "('addr, 's) surroundings \<Rightarrow> ('addr, 's) running \<Rightarrow> ('addr, 's) running \<Rightarrow> bool"
  for su r0 where
  start: "running_reachable su r0 r0"
| step: "running_reachable su r0 r \<Longrightarrow> running_step su r r' \<Longrightarrow> running_reachable su r0 r'"

inductive_cases running_stepE: "running_step su r r'"
inductive_cases server_turnE: "server_turn su r r'"

section \<open>What each step changes\<close>

lemma server_turn_frame:
  assumes "server_turn su r r'"
  shows "rn_kernel r' = rn_kernel r" "rn_taken r' = rn_taken r" "rn_correlator r' = rn_correlator r"
    "rn_sink r' = rn_sink r" "rn_loop r' = rn_loop r" "rn_ctrl_c r' = rn_ctrl_c r" "rn_terminate r' = rn_terminate r"
  using assms by (cases; simp)+

lemma loop_turn_frame:
  assumes "loop_turn config rnd sink r = Some r'"
  shows "rn_kernel r' = rn_kernel r" "rn_cancelled r' = rn_cancelled r" "rn_server r' = rn_server r"
    "rn_ctrl_c r' = rn_ctrl_c r" "rn_terminate r' = rn_terminate r"
  using assms by (auto simp: loop_turn_def split: loop_state.splits if_splits option.splits)

lemma loop_turn_cases:
  assumes "loop_turn config rnd sink r = Some r'"
  obtains (idle) "rn_taken r' = rn_taken r" "rn_correlator r' = rn_correlator r" "rn_sink r' = rn_sink r"
  | (entry) "rn_taken r < length (s_events (rn_kernel r))" "rn_taken r' = Suc (rn_taken r)"
      "handle_event rnd config sink (ring_bytes (s_events (rn_kernel r) ! rn_taken r)) (rn_correlator r, rn_sink r)
        = Some (rn_correlator r', rn_sink r')"
  using assms by (auto simp: loop_turn_def split: loop_state.splits if_splits option.splits)

lemma fire_extends: "\<exists>new. s_events (fst (ebpf_fire tp k s)) = s_events s @ new"
proof (cases tp)
  case EnterExecve
  then show ?thesis
    by (auto simp: try_sys_enter_execve_def set_scratch_def Let_def split: option.split prod.split)
next
  case ExitExecve
  then show ?thesis by (auto simp: try_sys_exit_execve_def Let_def split: option.split)
next
  case EnterExitGroup
  then show ?thesis by (auto simp: try_sys_enter_exit_group_def Let_def split: option.split)
next
  case EnterWrite
  then show ?thesis using writes.enter_frame(1) [of k s] by auto
next
  case ExitWrite
  then show ?thesis using write_events [of k s] by auto
next
  case EnterRead
  then show ?thesis using reads.enter_frame(1) [of k s] by auto
next
  case ExitRead
  then show ?thesis using read_events [of k s] by auto
qed

section \<open>The loop handles a prefix of the ring, in order\<close>

text \<open>An item of the inner loop: the answers of its turn and the bytes of the entry.\<close>

definition items_ok :: "('addr, 's) surroundings \<Rightarrow> (u8 list option \<times> 's sink \<times> u8 list) list \<Rightarrow> bool" where
  "items_ok su items \<longleftrightarrow> (\<forall>(rnd, sink, data) \<in> set items. rnd \<in> su_random su \<and> sink \<in> su_sinks su)"

definition handled_prefix :: "('addr, 's) surroundings \<Rightarrow> 's \<Rightarrow> ('addr, 's) running \<Rightarrow> bool" where
  "handled_prefix su store r \<longleftrightarrow> rn_taken r \<le> length (s_events (rn_kernel r))
     \<and> (\<exists>items. items_ok su items
          \<and> map (snd \<circ> snd) items = map ring_bytes (take (rn_taken r) (s_events (rn_kernel r)))
          \<and> consume_ring (su_config su) items (correlator_default, store) = Some (rn_correlator r, rn_sink r))"

lemma consume_ring_append:
  "consume_ring config (xs @ ys) cs = Option.bind (consume_ring config xs cs) (consume_ring config ys)"
  by (induction xs arbitrary: cs) (auto split: Option.bind_split)

lemma handled_prefix_same:
  assumes "handled_prefix su store r" "s_events (rn_kernel r') = s_events (rn_kernel r) @ new"
    "rn_taken r' = rn_taken r" "rn_correlator r' = rn_correlator r" "rn_sink r' = rn_sink r"
  shows "handled_prefix su store r'"
  using assms unfolding handled_prefix_def by simp

lemma handled_prefix_entry:
  assumes "handled_prefix su store r" "rnd \<in> su_random su" "sink \<in> su_sinks su"
    "rn_kernel r' = rn_kernel r" "rn_taken r < length (s_events (rn_kernel r))" "rn_taken r' = Suc (rn_taken r)"
    "handle_event rnd (su_config su) sink (ring_bytes (s_events (rn_kernel r) ! rn_taken r)) (rn_correlator r, rn_sink r)
        = Some (rn_correlator r', rn_sink r')"
  shows "handled_prefix su store r'"
proof -
  let ?data = "ring_bytes (s_events (rn_kernel r) ! rn_taken r)"
  from assms(1) obtain items where items: "items_ok su items"
    "map (snd \<circ> snd) items = map ring_bytes (take (rn_taken r) (s_events (rn_kernel r)))"
    "consume_ring (su_config su) items (correlator_default, store) = Some (rn_correlator r, rn_sink r)"
    by (auto simp: handled_prefix_def)
  have "consume_ring (su_config su) (items @ [(rnd, sink, ?data)]) (correlator_default, store)
      = Some (rn_correlator r', rn_sink r')"
    using items(3) assms(7) by (simp add: consume_ring_append)
  moreover have "items_ok su (items @ [(rnd, sink, ?data)])" using items(1) assms(2,3) by (auto simp: items_ok_def)
  moreover have "map (snd \<circ> snd) (items @ [(rnd, sink, ?data)]) =
      map ring_bytes (take (rn_taken r') (s_events (rn_kernel r')))"
    using items(2) assms(4-6) by (simp add: take_Suc_conv_app_nth)
  ultimately show ?thesis using assms(4-6) unfolding handled_prefix_def by auto
qed

lemma running_step_handles:
  assumes "running_step su r r'" "handled_prefix su store r"
  shows "handled_prefix su store r'"
  using assms(1)
proof cases
  case (fire k tp)
  obtain new where "s_events (fst (ebpf_fire tp k (rn_kernel r))) = s_events (rn_kernel r) @ new"
    using fire_extends by blast
  then show ?thesis unfolding fire by (intro handled_prefix_same [OF assms(2)]) simp_all
next
  case (loop rnd sink)
  from loop(3) show ?thesis
  proof (cases rule: loop_turn_cases)
    case idle
    then show ?thesis
      using loop_turn_frame(1) [OF loop(3)] by (intro handled_prefix_same [OF assms(2), where new = "[]"]) simp_all
  next
    case entry
    then show ?thesis
      using loop_turn_frame(1) [OF loop(3)] loop(1,2) by (intro handled_prefix_entry [OF assms(2)]) simp_all
  qed
next
  case server
  then show ?thesis
    using server_turn_frame [OF server] by (intro handled_prefix_same [OF assms(2), where new = "[]"]) simp_all
qed (use assms(2) in \<open>auto simp: handled_prefix_def\<close>)

lemma kernel_reachable_step:
  "running_step su r r' \<Longrightarrow> ebpf_reachable self offsets (rn_kernel r) \<Longrightarrow> ebpf_reachable self offsets (rn_kernel r')"
  by (cases rule: running_step.cases)
    (auto simp: loop_turn_frame server_turn_frame intro: ebpf_reachable.step [OF _ ebpf_step.fire])

lemma start_facts:
  assumes "run_collector env artifact web store = Inr r0"
  shows "\<exists>t. resolve_task_field_offsets (le_sysfs env) = Inr t
    \<and> r0 = consume_start (ebpf_init (le_pid env) (offsets_as_array t)) web store"
proof -
  from assms obtain trace ld where run: "run_setup env artifact = (trace, Inr ld)"
    and r0: "r0 = consume_start (ld_maps ld) web store"
    unfolding run_collector_def by (cases "run_setup env artifact") (auto split: sum.splits if_splits)
  from setup_maps [OF run] r0 show ?thesis by metis
qed

lemma running_invariant:
  assumes "run_collector env artifact web store = Inr r0" "running_reachable su r0 r"
  shows "\<exists>offsets. ebpf_reachable (le_pid env) offsets (rn_kernel r)" "handled_prefix su store r"
proof -
  obtain t where r0: "r0 = consume_start (ebpf_init (le_pid env) (offsets_as_array t)) web store"
    using start_facts [OF assms(1)] by blast
  from assms(2) have "ebpf_reachable (le_pid env) (offsets_as_array t) (rn_kernel r) \<and> handled_prefix su store r"
  proof induction
    case start
    have "handled_prefix su store r0"
      unfolding r0 handled_prefix_def by (intro conjI exI [of _ "[]"]) (simp_all add: consume_start_def items_ok_def)
    then show ?case unfolding r0 by (auto simp: consume_start_def intro: ebpf_reachable.start)
  next
    case (step r r')
    then show ?case
      using running_step_handles [OF step.hyps(2)] kernel_reachable_step [OF step.hyps(2)] by simp
  qed
  then show "\<exists>offsets. ebpf_reachable (le_pid env) offsets (rn_kernel r)" "handled_prefix su store r" by auto
qed

end
