(* ===== verification/Shutdown.thy ===== *)
theory Shutdown
  imports Running
begin

text \<open>
  How the running program stops: the event loop ends once the token is cancelled (\<open>consume_events\<close> in
  \<open>shspectr/src/ebpf.rs\<close>), nothing is recorded afterwards, and the token is only cancelled for a reason.
\<close>

section \<open>Shutting down\<close>

text \<open>\<open>n\<close> turns of the loop, with what the random source and the sink answer in each.\<close>

fun loop_turns :: "filter_config \<Rightarrow> (nat \<Rightarrow> u8 list option \<times> 's sink) \<Rightarrow> nat \<Rightarrow> ('addr, 's) running \<Rightarrow> ('addr, 's) running" where
  "loop_turns config answers 0 r = r"
| "loop_turns config answers (Suc n) r =
     (case loop_turn config (fst (answers n)) (snd (answers n)) r of
        None \<Rightarrow> r
      | Some r' \<Rightarrow> loop_turns config answers n r')"

lemma finished_stays: "rn_loop r = Finished x \<Longrightarrow> loop_turns config answers n r = r"
  by (cases n) (simp_all add: loop_turn_def)

lemma cancelled_at_select:
  "rn_loop r = Selecting \<Longrightarrow> rn_cancelled r \<Longrightarrow> 1 \<le> n \<Longrightarrow>
    loop_turns config answers n r = r\<lparr>rn_loop := Finished ShutDown\<rparr>"
  by (cases n) (simp_all add: loop_turn_def finished_stays)

lemma drains:
  assumes "rn_loop r = Draining" "rn_cancelled r" "\<forall>i. fst (answers i) \<noteq> None"
    "rn_taken r \<le> length (s_events (rn_kernel r))" "entries_left r + 2 \<le> n"
  shows "rn_loop (loop_turns config answers n r) = Finished ShutDown
    \<and> rn_taken (loop_turns config answers n r) = length (s_events (rn_kernel r))"
  using assms(1,2,4,5)
proof (induction n arbitrary: r)
  case (Suc n)
  show ?case
  proof (cases "rn_taken r < length (s_events (rn_kernel r))")
    case False
    then have "loop_turn config (fst (answers n)) (snd (answers n)) r = Some (r\<lparr>rn_loop := Selecting\<rparr>)"
      using Suc.prems(1) by (simp add: loop_turn_def)
    then show ?thesis using Suc.prems False by (simp add: cancelled_at_select entries_left_def)
  next
    case True
    have "fst (answers n) \<noteq> None" using assms(3) by blast
    then obtain rnd sink where a: "answers n = (rnd, sink)" "rnd \<noteq> None" by (cases "answers n") simp
    obtain c s where "handle_event rnd config sink (ring_bytes (s_events (rn_kernel r) ! rn_taken r)) (rn_correlator r, rn_sink r) = Some (c, s)"
      using handle_event_total [OF a(2)] by fastforce
    then have turn: "loop_turn config (fst (answers n)) (snd (answers n)) r
        = Some (r\<lparr>rn_taken := Suc (rn_taken r), rn_correlator := c, rn_sink := s\<rparr>)" (is "_ = Some ?r")
      using Suc.prems(1) True by (simp add: loop_turn_def a(1))
    have "rn_loop (loop_turns config answers n ?r) = Finished ShutDown
        \<and> rn_taken (loop_turns config answers n ?r) = length (s_events (rn_kernel ?r))"
      using Suc.prems True by (intro Suc.IH) (simp_all add: entries_left_def)
    then show ?thesis unfolding loop_turns.simps turn by simp
  qed
qed simp

text \<open>
  C5: The event loop ends. Once the token is cancelled, and while the kernel submits nothing more and the
  random source works, the loop is finished after at most two turns more than there are entries left in
  the ring buffer, whatever the entries are and whatever the filter and the sink do; if it was draining
  the ring buffer it has handled every entry in it, and if it was at its select it handles none.
\<close>

theorem shutdown_terminates:
  assumes "rn_cancelled r" "rn_loop r \<in> {Selecting, Draining}" "\<forall>i. fst (answers i) \<noteq> None"
    and "rn_taken r \<le> length (s_events (rn_kernel r))" "entries_left r + 2 \<le> n"
  shows "rn_loop (loop_turns config answers n r) = Finished ShutDown
    \<and> rn_taken (loop_turns config answers n r) =
        (if rn_loop r = Draining then length (s_events (rn_kernel r)) else rn_taken r)"
proof (cases "rn_loop r = Draining")
  case True
  then show ?thesis using drains [OF _ assms(1,3-5)] by simp
next
  case False
  then have "rn_loop r = Selecting" using assms(2) by simp
  then show ?thesis using assms(1,5) by (simp add: cancelled_at_select)
qed

text \<open>A run that drains two entries with the stdout sink when the token is cancelled.\<close>

definition sample_running :: "(string, log_record list) running" where
  "sample_running = (consume_start (ebpf_run sample_trace (ebpf_init 1 [])) None [])
     \<lparr>rn_cancelled := True, rn_loop := Draining\<rparr>"

theorem shutdown_terminates_witness:
  "rn_loop (loop_turns \<lparr>filter_pty = False, filter_ancestors = []\<rparr> (\<lambda>i. (Some [1, 2, 3, 4, 5, 6, 7, 8], stdout_sink)) 4 sample_running)
      = Finished ShutDown
    \<and> rn_taken (loop_turns \<lparr>filter_pty = False, filter_ancestors = []\<rparr> (\<lambda>i. (Some [1, 2, 3, 4, 5, 6, 7, 8], stdout_sink)) 4 sample_running) = 2"
proof -
  have "length (s_events (rn_kernel sample_running)) = 2" "rn_cancelled sample_running" "rn_loop sample_running = Draining"
    "rn_taken sample_running = 0"
    using sample_events by (auto simp: sample_running_def consume_start_def)
  then show ?thesis
    using shutdown_terminates [of sample_running "\<lambda>i. (Some [1, 2, 3, 4, 5, 6, 7, 8], stdout_sink)" 4
        "\<lparr>filter_pty = False, filter_ancestors = []\<rparr>"]
    by (simp add: entries_left_def)
qed

text \<open>
  C15: A cancellation is final: once the token is cancelled and the loop is not draining, no step of any
  task, no signal and no further kernel event makes it handle another entry, so neither the sessions
  nor the stored events change again.
\<close>

theorem nothing_after_cancellation:
  assumes "running_reachable su r r'" "rn_cancelled r" "rn_loop r \<noteq> Draining"
  shows "rn_cancelled r' \<and> rn_taken r' = rn_taken r \<and> rn_correlator r' = rn_correlator r \<and> rn_sink r' = rn_sink r
    \<and> (rn_loop r' = rn_loop r \<or> rn_loop r' = Finished ShutDown)"
  using assms
proof induction
  case (step r1 r2)
  then have r1: "rn_cancelled r1" "rn_loop r1 \<noteq> Draining" by auto
  from step.hyps(2) have "rn_cancelled r2 \<and> rn_taken r2 = rn_taken r1 \<and> rn_correlator r2 = rn_correlator r1
    \<and> rn_sink r2 = rn_sink r1 \<and> (rn_loop r2 = rn_loop r1 \<or> rn_loop r1 = Selecting \<and> rn_loop r2 = Finished ShutDown)"
  proof cases
    case (loop rnd sink)
    with r1 show ?thesis by (auto simp: loop_turn_def split: loop_state.splits)
  next
    case server
    then show ?thesis using r1(1) by cases simp_all
  qed (use r1 in auto)
  with step show ?case by auto
qed simp


theorem nothing_after_cancellation_witness:
  "\<exists>su r. running_reachable su (sample_running\<lparr>rn_loop := Selecting\<rparr>) r \<and> rn_loop r = Finished ShutDown
     \<and> rn_taken r = 0 \<and> entries_left r = 2"
proof -
  let ?r = "sample_running\<lparr>rn_loop := Selecting\<rparr>" and ?r' = "sample_running\<lparr>rn_loop := Finished ShutDown\<rparr>"
  define su :: "(string, log_record list) surroundings" where
    "su = \<lparr>su_config = \<lparr>filter_pty = False, filter_ancestors = []\<rparr>, su_sinks = {stdout_sink}, su_random = {None},
       su_host = \<lparr>ph_exists = (\<lambda>p. True), ph_store = (\<lambda>p. None), ph_build = True, ph_get = True, ph_query = True\<rparr>,
       su_binds = (\<lambda>a. True)\<rparr>"
  have "loop_turn (su_config su) None stdout_sink ?r = Some ?r'" by (simp add: loop_turn_def sample_running_def)
  then have "running_step su ?r ?r'" by (intro running_step.loop) (simp_all add: su_def)
  then have reach: "running_reachable su ?r ?r'" by (blast intro: running_reachable.intros)
  have "rn_taken ?r' = rn_taken ?r"
    using nothing_after_cancellation [OF reach] by (simp add: sample_running_def)
  then have "rn_taken ?r' = 0" "entries_left ?r' = 2"
    using sample_events by (auto simp: sample_running_def consume_start_def entries_left_def)
  with reach show ?thesis by fastforce
qed

section \<open>Why a recording stops\<close>

text \<open>What every reachable state keeps: a cancelled token, an ended server and a stopped loop have a reason.\<close>

fun server_reason :: "('addr, 's) surroundings \<Rightarrow> 'addr server_config option \<Rightarrow> signal_wait \<Rightarrow> signal_wait
    \<Rightarrow> 'addr server_task \<Rightarrow> bool" where
  "server_reason su web ctrl_c terminate NoServer \<longleftrightarrow> web = None"
| "server_reason su web ctrl_c terminate (Starting c) \<longleftrightarrow> web = Some c"
| "server_reason su web ctrl_c terminate (Serving pool) \<longleftrightarrow>
     (\<exists>c. web = Some c \<and> start_server (su_host su) (su_binds su) c = Inr pool)"
| "server_reason su web ctrl_c terminate (ServerEnded None) \<longleftrightarrow>
     web \<noteq> None \<and> (ctrl_c \<noteq> SigPending \<or> terminate = SigDelivered)"
| "server_reason su web ctrl_c terminate (ServerEnded (Some e)) \<longleftrightarrow>
     (\<exists>c. web = Some c \<and> (start_server (su_host su) (su_binds su) c = Inl e \<or> e = ServeError))"
| "server_reason su web ctrl_c terminate ServerPanicked \<longleftrightarrow> web \<noteq> None \<and> terminate = SigNotInstalled"

definition reasons :: "('addr, 's) surroundings \<Rightarrow> 'addr server_config option \<Rightarrow> ('addr, 's) running \<Rightarrow> bool" where
  "reasons su web r \<longleftrightarrow>
     (rn_loop r = Finished ShutDown \<longrightarrow> rn_cancelled r)
     \<and> (rn_cancelled r \<longrightarrow> rn_ctrl_c r \<noteq> SigPending \<or> (\<exists>e. rn_server r = ServerEnded e))
     \<and> server_reason su web (rn_ctrl_c r) (rn_terminate r) (rn_server r)"

lemma server_reason_signals:
  "server_reason su web c t srv \<Longrightarrow> c \<in> {SigPending, c'} \<Longrightarrow> t \<in> {SigPending, t'} \<Longrightarrow> server_reason su web c' t' srv"
  by (cases "(su, web, c, t, srv)" rule: server_reason.cases) auto

lemma reasons_start: "reasons su web (consume_start maps web store)"
  by (auto simp: reasons_def consume_start_def split: option.split)

lemma server_turn_reasons:
  assumes "server_turn su r r'" "reasons su web r"
  shows "reasons su web r'"
  using assms
  by cases (auto simp: reasons_def shutdown_signal_def split: if_splits signal_wait.splits option.splits)

lemma running_step_reasons:
  assumes "running_step su r r'" "reasons su web r"
  shows "reasons su web r'"
  using assms(1)
proof cases
  case (loop rnd sink)
  have "rn_loop r' = Finished ShutDown \<longrightarrow> rn_cancelled r"
    using loop(3) assms(2)
    by (auto simp: loop_turn_def reasons_def split: loop_state.splits if_splits option.splits)
  then show ?thesis using loop_turn_frame [OF loop(3)] assms(2) by (simp add: reasons_def)
next
  case server
  then show ?thesis using assms(2) by (rule server_turn_reasons)
next
  case (signals c t)
  then show ?thesis using assms(2) server_reason_signals [OF _ signals(2,3)]
    by (auto simp: reasons_def)
qed (use assms(2) in \<open>auto simp: reasons_def\<close>)


lemma reachable_reasons:
  assumes "run_collector env artifact web store = Inr r0" "running_reachable su r0 r"
  shows "reasons su web r"
  using assms(2)
proof induction
  case start
  show ?case using start_facts [OF assms(1)] reasons_start by metis
next
  case (step r r')
  then show ?case using running_step_reasons by blast
qed



text \<open>A start that succeeds, as process 1 on the sample kernel, with or without a web server.\<close>

definition good_env :: load_env where
  "good_env = sample_load_env\<lparr>le_attach := \<lambda>n. True, le_pid := 1\<rparr>"

lemma good_start: "\<exists>offsets. run_collector good_env (Path True []) web store
    = Inr (consume_start (ebpf_init 1 offsets) web store)"
proof -
  obtain t where t: "resolve_task_field_offsets (Some (btf_blob kernel_entries kernel_strings)) = Inr t"
      "offsets_as_array t = [10, 20, 30, 11, 40, 12, 13, 50, 14, 15, 16, 17]"
    using kernel_resolves by blast
  have "is_ok (snd (run_setup good_env (Path True [])))"
    by (simp add: run_setup_def load_ebpf_bytes_def good_env_def sample_load_env_def setup_steps_def configure_steps_def
        attach_steps_def take_map_def set_self_tgid_def resolved_offsets_def t set_offset_def attach_tracepoint_def
        TRACEPOINTS_def fresh_loader_def ebpf_init_def OFFSET_COUNT_def)
  then obtain trace ld where run: "run_setup good_env (Path True []) = (trace, Inr ld)"
    by (cases "run_setup good_env (Path True [])") (auto elim: is_okE)
  then have "run_collector good_env (Path True []) web store = Inr (consume_start (ld_maps ld) web store)"
    by (simp add: run_collector_def good_env_def sample_load_env_def)
  moreover have "le_pid good_env = 1" by (simp add: good_env_def sample_load_env_def)
  ultimately show ?thesis using setup_maps [OF run] by metis
qed



text \<open>
  The second reason is real: when the handler of Ctrl+C cannot be installed, a collector without a web
  server shuts down by itself, with no signal received and nothing recorded.
\<close>

lemma stops_without_signal_handler:
  "\<exists>su r0 r. run_collector good_env (Path True []) None ([] :: log_record list) = Inr (r0 :: (string, log_record list) running)
     \<and> running_reachable su r0 r \<and> rn_loop r = Finished ShutDown \<and> rn_ctrl_c r = SigNotInstalled
     \<and> rn_terminate r = SigPending \<and> rn_taken r = 0"
proof -
  define su :: "(string, log_record list) surroundings" where
    "su = \<lparr>su_config = \<lparr>filter_pty = False, filter_ancestors = []\<rparr>, su_sinks = {stdout_sink}, su_random = {None},
       su_host = \<lparr>ph_exists = (\<lambda>p. False), ph_store = (\<lambda>p. None), ph_build = True, ph_get = True, ph_query = True\<rparr>,
       su_binds = (\<lambda>a. True)\<rparr>"
  obtain offsets where start: "run_collector good_env (Path True []) None ([] :: log_record list)
      = Inr (consume_start (ebpf_init 1 offsets) (None :: string server_config option) [])" (is "_ = Inr ?r0")
    by (rule exE [OF good_start]) (rule that)
  let ?r1 = "?r0\<lparr>rn_ctrl_c := SigNotInstalled, rn_terminate := SigPending\<rparr>"
  let ?r2 = "?r1\<lparr>rn_cancelled := True\<rparr>"
  let ?r3 = "?r2\<lparr>rn_loop := Finished ShutDown\<rparr>"
  have 1: "running_step su ?r0 ?r1" by (rule running_step.signals) (simp_all add: consume_start_def)
  have 2: "running_step su ?r1 ?r2" by (rule running_step.interrupted) simp
  have 3: "running_step su ?r2 ?r3"
    by (rule running_step.loop [of None _ stdout_sink]) (simp_all add: su_def loop_turn_def consume_start_def)
  have "running_reachable su ?r0 ?r3"
    by (rule running_reachable.step [OF running_reachable.step [OF running_reachable.step [OF running_reachable.start 1] 2] 3])
  with start show ?thesis
    by (intro exI [of _ su] exI [of _ ?r0] exI [of _ ?r3]) (simp add: consume_start_def)
qed

end
