(* ===== verification/Served.thy ===== *)
theory Served
  imports Shutdown
begin

text \<open>
  From the kernel to the HTTP response: what the web server answers at any moment of a run of the whole
  program. The invariant of theory Running says that the event loop has handled a prefix of the ring
  buffer; theory Pipeline what the database then shows; theory Server how a request reads it.
\<close>

section \<open>What is served is what was captured\<close>

lemma turn_item_simp [simp]: "turn_item (rnd, env, e) = (Some rnd, sqlite_sink env, ring_bytes e)"
  by (simp add: turn_item_def)

lemma turns_of_items:
  assumes "map (snd \<circ> snd) items = map ring_bytes evs"
    "\<forall>(rnd, sink, data) \<in> set items. rnd \<noteq> None \<and> sink \<in> sqlite_sink ` Collect answers_all"
  shows "\<exists>turns. map turn_item turns = items \<and> map turn_event turns = evs \<and> (\<forall>t \<in> set turns. answers_all (fst (snd t)))"
  using assms
proof (induction items arbitrary: evs)
  case (Cons x items)
  then obtain e evs' where evs: "evs = e # evs'" by (cases evs) auto
  obtain rnd sink data where x: "x = (Some rnd, sink, data)" using Cons.prems(2) by (cases x) auto
  with Cons.prems obtain env where env: "sink = sqlite_sink env" "answers_all env" by auto
  obtain turns where "map turn_item turns = items" "map turn_event turns = evs'" "\<forall>t \<in> set turns. answers_all (fst (snd t))"
    using Cons.IH [of evs'] Cons.prems evs by auto
  then show ?case
    using Cons.prems(1) env evs x
    by (intro exI [of _ "(rnd, env, e) # turns"]) simp
qed simp

lemma chunks_of_shown: "map ic_data cs = map shown_data is \<Longrightarrow> chunks_text cs = concat (map shown_data is)"
  by (simp add: chunks_text_def)

text \<open>
  A text that a terminal would show as it is: it has no escape character and none of the control
  characters from U+0080 to U+009F, which also begin escape sequences.
\<close>

definition free_of_escapes :: "string \<Rightarrow> bool" where
  "free_of_escapes s \<longleftrightarrow> CHR 0x1B \<notin> set s
     \<and> successively (\<lambda>a b. \<not> (a = CHR 0xC2 \<and> 0x80 \<le> u8_of_char b \<and> u8_of_char b \<le> 0x9F)) s"

text \<open>
  C1: What the kernel observes is what the web server serves. Start the collector with the SQLite sink
  on an empty database and let it run, without a filter, with a working random source and with all
  statements answered; let kernel programs, event loop, signals and web server take steps in any order. At
  every moment with fewer than 2 ^ 63 - 1 entries handled, for every exec entry that the event loop has handled and whose execution id is not zero and
  not repeated by another handled exec entry of the process, the database holds an event whose detail
  names the process, the file and the exit code of the execution's handled exit entry, if any. While the
  queries of the web server are answered and the template renders, the request for the event's detail panel is
  answered with the panel rendered from a view whose input is the HTML conversion of exactly the text that
  the handled entries of this execution captured from descriptor 0, in order, and whose output is that of
  the text captured from the descriptors 1 and 2, whatever else is recorded. Where such a text has no
  terminal escapes, the request for the raw text is answered with exactly it. (With escapes the raw text
  still has them, which its documentation denies; the property does not state that.)
\<close>

theorem captured_output_is_served:
  assumes "run_collector env artifact web (empty_database fk) = Inr r0" "running_reachable su r0 r"
    and "filter_config_is_empty (su_config su)" "None \<notin> su_random su" "su_sinks su = sqlite_sink ` Collect answers_all"
    and "take (rn_taken r) (s_events (rn_kernel r)) = pre @ RExec x # post"
    and "h_execution_id (x_header x) \<noteq> 0" "\<forall>z. RExec z \<in> set (pre @ post) \<longrightarrow> \<not> of_exec x (RExec z)"
    and "int (rn_taken r) < I64_MAX" "\<forall>i. fr_path_decode fr (dec_int i) = Some (dec_int i)"
    and "\<forall>v. fr_event_detail fr v \<noteq> None"
    and "input = concat (map shown_data (filter (\<lambda>e. io_fd e = 0)
          (captured_entries x (take (rn_taken r) (s_events (rn_kernel r))))))"
    and "output = concat (map shown_data (filter (\<lambda>e. io_fd e \<in> {1, 2})
          (captured_entries x (take (rn_taken r) (s_events (rn_kernel r))))))"
  shows "\<exists>i d v html hs. repo_get_detail (Some (steady (rn_sink r))) i = Inr (Some d)
    \<and> es_pid (ed_summary d) = h_tgid (x_header x)
    \<and> es_filename (ed_summary d) = Some (cstr_from_bytes (x_filename x))
    \<and> es_exit_code (ed_summary d) = expected_exit_code x (take (rn_taken r) (s_events (rn_kernel r)))
    \<and> dv_id v = i \<and> dv_pid v = dec (unat (h_tgid (x_header x)))
    \<and> dv_stdin_html v = ansi_to_html (fr_env fr) input \<and> dv_stdout_html v = ansi_to_html (fr_env fr) output
    \<and> fr_event_detail fr v = Some html
    \<and> serve_request fr cache True (rn_sink r) (detail_request i)
        = Some \<lparr>rs_status = OK, rs_headers = hs, rs_body = Text html\<rparr>
    \<and> (free_of_escapes input \<longrightarrow> (\<exists>hs. serve_request fr cache True (rn_sink r) (raw_request i ''stdin'')
        = Some \<lparr>rs_status = OK, rs_headers = hs, rs_body = Text input\<rparr>))
    \<and> (free_of_escapes output \<longrightarrow> (\<exists>hs. serve_request fr cache True (rn_sink r) (raw_request i ''stdout'')
        = Some \<lparr>rs_status = OK, rs_headers = hs, rs_body = Text output\<rparr>))"
proof -
  let ?evs = "take (rn_taken r) (s_events (rn_kernel r))"
  obtain offsets where "ebpf_reachable (le_pid env) offsets (rn_kernel r)"
    using running_invariant(1) [OF assms(1,2)] by blast
  from ebpf_reachable_inv [OF this] have "ring_ok (le_pid env) (?evs @ drop (rn_taken r) (s_events (rn_kernel r)))"
    by (simp add: ebpf_inv_def)
  then have ok: "ring_ok (le_pid env) (pre @ RExec x # post)" unfolding assms(6) [symmetric] by (rule ring_ok_prefix)
  from running_invariant(2) [OF assms(1,2)] obtain items where items: "items_ok su items"
    "map (snd \<circ> snd) items = map ring_bytes ?evs" "rn_taken r \<le> length (s_events (rn_kernel r))"
    "consume_ring (su_config su) items (correlator_default, empty_database fk) = Some (rn_correlator r, rn_sink r)"
    by (auto simp: handled_prefix_def)
  have "rnd \<noteq> None" if "rnd \<in> su_random su" for rnd using that assms(4) by (cases rnd) simp_all
  then have "\<forall>(rnd, sink, data) \<in> set items. rnd \<noteq> None \<and> sink \<in> sqlite_sink ` Collect answers_all"
    using items(1) unfolding items_ok_def assms(5) by blast
  then obtain turns where turns: "map turn_item turns = items" "map turn_event turns = ?evs"
    "\<forall>t \<in> set turns. answers_all (fst (snd t))"
    using turns_of_items [OF items(2)] by blast
  have "length turns = rn_taken r" using arg_cong [OF turns(2), of length] items(3) by simp
  then have bound: "int (length turns) < I64_MAX" using assms(9) by simp
  from ring_detail [OF ok assms(7,8) turns(2) [unfolded assms(6)] turns(3) assms(3) bound, of fk]
  obtain i d where d: "repo_get_detail (Some (steady (rn_sink r))) i = Inr (Some d)" "0 < i" "i < I64_MAX"
      "es_pid (ed_summary d) = h_tgid (x_header x)" "es_filename (ed_summary d) = Some (cstr_from_bytes (x_filename x))"
      "es_exit_code (ed_summary d) = expected_exit_code x ?evs"
      "map ic_data (ed_stdin_data d) = map shown_data (filter (\<lambda>i. io_fd i = 0) (captured_entries x ?evs))"
      "map ic_data (ed_stdout_data d) = map shown_data (filter (\<lambda>i. io_fd i \<in> {1, 2}) (captured_entries x ?evs))"
    unfolding assms(6) turns(1) items(4) by auto
  have i: "0 \<le> i" "i \<le> I64_MAX" "fr_path_decode fr (dec_int i) = Some (dec_int i)" using d(2,3) assms(10) by auto
  let ?v = "event_detail_view_from (fr_env fr) d"
  obtain html where html: "fr_event_detail fr ?v = Some html" using assms(11) by blast
  have texts: "chunks_text (ed_stdin_data d) = input" "chunks_text (ed_stdout_data d) = output"
    unfolding assms(12,13) using chunks_of_shown [OF d(7)] chunks_of_shown [OF d(8)] by simp_all
  have "es_id (ed_summary d) = i" using d(1) by (rule detail_id)
  then have view: "dv_id ?v = i" "dv_pid ?v = dec (unat (h_tgid (x_header x)))"
    "dv_stdin_html ?v = ansi_to_html (fr_env fr) input" "dv_stdout_html ?v = ansi_to_html (fr_env fr) output"
    using d(4) by (simp_all add: event_detail_view_from_def Let_def texts)
  from detail_answer [OF d(1) i html, of cache] raw_answer [OF d(1) i, of cache] d(1,4-6) view html show ?thesis
    unfolding texts by blast
qed


lemma reachable_fires:
  "running_reachable su r0 r \<Longrightarrow> \<forall>(tp, k) \<in> set fs. wf_kenv k \<Longrightarrow>
    running_reachable su r0 (r\<lparr>rn_kernel := ebpf_run fs (rn_kernel r)\<rparr>)"
proof (induction fs arbitrary: r)
  case (Cons f fs)
  obtain tp k where f: "f = (tp, k)" by (cases f)
  let ?r = "r\<lparr>rn_kernel := fst (ebpf_fire tp k (rn_kernel r))\<rparr>"
  have "running_reachable su r0 ?r"
    using Cons.prems f by (intro running_reachable.step [OF _ running_step.fire]) simp_all
  from Cons.IH [OF this] Cons.prems(2) f show ?case by simp
qed simp

lemma reachable_turns:
  assumes "\<forall>i. fst (answers i) \<in> su_random su \<and> snd (answers i) \<in> su_sinks su"
  shows "running_reachable su r0 r \<Longrightarrow> running_reachable su r0 (loop_turns (su_config su) answers n r)"
proof (induction n arbitrary: r)
  case (Suc n)
  show ?case
  proof (cases "loop_turn (su_config su) (fst (answers n)) (snd (answers n)) r")
    case None
    then show ?thesis using Suc.prems by simp
  next
    case (Some r')
    have "fst (answers n) \<in> su_random su" "snd (answers n) \<in> su_sinks su" using assms by blast+
    then have "running_step su r r'" using Some by (rule running_step.loop)
    with Suc show ?thesis by (simp add: Some running_reachable.step)
  qed
qed simp

lemma drain_turns:
  assumes "rn_loop r = Draining" "\<forall>i. fst (answers i) \<noteq> None" "rn_taken r + n \<le> length (s_events (rn_kernel r))"
  shows "rn_taken (loop_turns config answers n r) = rn_taken r + n
    \<and> rn_kernel (loop_turns config answers n r) = rn_kernel r"
  using assms(1,3)
proof (induction n arbitrary: r)
  case (Suc n)
  have "fst (answers n) \<noteq> None" using assms(2) by blast
  then obtain rnd sink where a: "answers n = (rnd, sink)" "rnd \<noteq> None" by (cases "answers n") simp
  obtain c s where "handle_event rnd config sink (ring_bytes (s_events (rn_kernel r) ! rn_taken r)) (rn_correlator r, rn_sink r) = Some (c, s)"
    using handle_event_total [OF a(2)] by fastforce
  then have turn: "loop_turn config (fst (answers n)) (snd (answers n)) r
      = Some (r\<lparr>rn_taken := Suc (rn_taken r), rn_correlator := c, rn_sink := s\<rparr>)" (is "_ = Some ?r")
    using Suc.prems by (simp add: loop_turn_def a(1))
  have "rn_taken (loop_turns config answers n ?r) = rn_taken ?r + n \<and> rn_kernel (loop_turns config answers n ?r) = rn_kernel ?r"
    using Suc.prems by (intro Suc.IH) simp_all
  then show ?case unfolding loop_turns.simps turn by simp
qed simp


text \<open>
  A run of the whole program: process 7 executes a program, reads \<open>A\<close>, writes \<open>AA\<close> and exits with code 3;
  the event loop handles the four entries; the request for the output is answered with what was written.
\<close>

theorem captured_output_is_served_witness:
  "\<exists>su r0 r i d v html hs hs'. run_collector good_env (Path True []) (None :: string server_config option) (empty_database True) = Inr r0
     \<and> running_reachable su r0 r \<and> repo_get_detail (Some (steady (rn_sink r))) i = Inr (Some d)
     \<and> es_pid (ed_summary d) = 7 \<and> es_exit_code (ed_summary d) = Some 3
     \<and> dv_stdout_html v = ansi_to_html (fr_env plain_front) (lossy_string [65, 65])
     \<and> fr_event_detail plain_front v = Some html
     \<and> serve_request plain_front [] True (rn_sink r) (detail_request i)
       = Some \<lparr>rs_status = OK, rs_headers = hs', rs_body = Text html\<rparr>
     \<and> serve_request plain_front [] True (rn_sink r) (raw_request i ''stdout'')
       = Some \<lparr>rs_status = OK, rs_headers = hs, rs_body = Text (lossy_string [65, 65])\<rparr>"
proof -
  define su :: "(string, database) surroundings" where
    "su = \<lparr>su_config = \<lparr>filter_pty = False, filter_ancestors = []\<rparr>, su_sinks = sqlite_sink ` Collect answers_all,
       su_random = {Some [1, 2, 3, 4, 5, 6, 7, 8]},
       su_host = \<lparr>ph_exists = (\<lambda>p. True), ph_store = (\<lambda>p. None), ph_build = True, ph_get = True, ph_query = True\<rparr>,
       su_binds = (\<lambda>a. True)\<rparr>"
  let ?answers = "\<lambda>i :: nat. (Some [1, 2, 3, 4, 5, 6, 7, 8] :: u8 list option, sqlite_sink sample_sql_env)"
  obtain offsets where start: "run_collector good_env (Path True []) (None :: string server_config option) (empty_database True)
      = Inr (consume_start (ebpf_init 1 offsets) None (empty_database True))" (is "_ = Inr ?r0")
    by (rule exE [OF good_start]) (rule that)
  define K where "K = ebpf_run full_trace (ebpf_init 1 offsets)"
  let ?r1 = "?r0\<lparr>rn_kernel := K\<rparr>"
  let ?r2 = "?r1\<lparr>rn_loop := Draining\<rparr>" and ?last = "loop_turns (su_config su) ?answers 4 (?r1\<lparr>rn_loop := Draining\<rparr>)"
  obtain x i w y where ev: "s_events (rn_kernel ?r2) = [RExec x, RIo i, RIo w, RExit y]"
    and *: "ring_tgid (RExec x) = 7" "ring_eid (RExec x) = 11" "io_fd i = 0" "io_fd w = 1"
      "shown_data w = lossy_string [65, 65]" "e_exit_code y = 3"
      "ring_tgid (RIo i) = 7" "ring_eid (RIo i) = 11" "ring_tgid (RIo w) = 7" "ring_eid (RIo w) = 11"
      "ring_tgid (RExit y) = 7" "ring_eid (RExit y) = 11"
    using full_events [of offsets, folded K_def] by auto
  have "rn_taken ?last = 4 \<and> rn_kernel ?last = rn_kernel ?r2"
    using drain_turns [of ?r2 ?answers 4] ev by (simp add: consume_start_def)
  then have taken: "take (rn_taken ?last) (s_events (rn_kernel ?last)) = [] @ RExec x # [RIo i, RIo w, RExit y]"
    "rn_taken ?last = 4" using ev by simp_all
  have answered: "answers_all sample_sql_env" by (simp add: answers_all_def sample_sql_env_def)
  have "\<forall>(tp, k) \<in> set full_trace. wf_kenv k" by (simp add: full_trace_def)
  from reachable_fires [OF running_reachable.start [of su ?r0] this]
  have 1: "running_reachable su ?r0 ?r1" by (simp add: K_def consume_start_def)
  have 2: "running_step su ?r1 ?r2"
    using answered by (intro running_step.loop [of "fst (?answers 0)" _ "snd (?answers 0)"])
      (simp_all add: su_def loop_turn_def consume_start_def)
  have reach: "running_reachable su ?r0 ?last"
    using answered by (intro reachable_turns [OF _ running_reachable.step [OF 1 2]]) (simp add: su_def)
  have of: "of_exec x (RIo i)" "of_exec x (RIo w)" "of_exec x (RExit y)" using * by (simp_all add: of_exec_def)
  have side: "filter_config_is_empty (su_config su)" "None \<notin> su_random su" "su_sinks su = sqlite_sink ` Collect answers_all"
    by (simp_all add: su_def filter_config_is_empty_def)
  have x: "h_execution_id (x_header x) \<noteq> 0" "\<forall>z. RExec z \<in> set ([] @ [RIo i, RIo w, RExit y]) \<longrightarrow> \<not> of_exec x (RExec z)"
    "int (rn_taken ?last) < I64_MAX" "\<forall>i. fr_path_decode plain_front (dec_int i) = Some (dec_int i)"
    using * taken(2) by (simp_all add: plain_front_def I64_MAX_def)
  have aa: "lossy_string [65, 65] = ''AA''"
    using lossy_string_valid [OF valid_ascii, of "''AA''"] by (simp add: ascii_def u8_of_char_def)
  have renders: "\<forall>v. fr_event_detail plain_front v \<noteq> None" by (simp add: plain_front_def)
  have out: "concat (map shown_data (filter (\<lambda>e. io_fd e \<in> {1, 2})
      (captured_entries x (take (rn_taken ?last) (s_events (rn_kernel ?last)))))) = ''AA''"
    "expected_exit_code x (take (rn_taken ?last) (s_events (rn_kernel ?last))) = Some 3"
    using * of aa unfolding taken(1) by (simp_all add: captured_entries_def expected_exit_code_def)
  have free: "free_of_escapes ''AA''" and pid: "h_tgid (x_header x) = 7"
    using * by (simp_all add: free_of_escapes_def)
  from captured_output_is_served [OF start reach side taken(1) x renders refl refl, of "[]", unfolded out pid] free obtain k d v html hs hs' where
    "repo_get_detail (Some (steady (rn_sink ?last))) k = Inr (Some d)" "es_pid (ed_summary d) = 7" "es_exit_code (ed_summary d) = Some 3"
    "dv_stdout_html v = ansi_to_html (fr_env plain_front) ''AA''" "fr_event_detail plain_front v = Some html"
    "serve_request plain_front [] True (rn_sink ?last) (detail_request k)
       = Some \<lparr>rs_status = OK, rs_headers = hs', rs_body = Text html\<rparr>"
    "serve_request plain_front [] True (rn_sink ?last) (raw_request k ''stdout'')
       = Some \<lparr>rs_status = OK, rs_headers = hs, rs_body = Text ''AA''\<rparr>"
    by blast
  then show ?thesis using start reach unfolding aa by blast
qed

end
