(* ===== verification/Placeholders.thy ===== *)
theory Placeholders
  imports Where
begin

text \<open>
  The text of the WHERE clause carries no value of the filter: two filters of the same shape give the
  same text, so whatever a query contains reaches the database as a bound parameter only. The proof
  runs two builds side by side: \<open>alike\<close> relates two states of the build with the same conditions and the
  same number of parameters, and every step of the build keeps it.
\<close>

section \<open>The shape of a filter\<close>

text \<open>
  Whether a field is there, whether it is negated, and for a pattern the number of its alternatives. A
  user name that resolves to no user id is as if it were not there.
\<close>

definition exact_shape :: "'a filter_value option \<Rightarrow> bool option" where
  "exact_shape x = map_option fv_negated x"

definition pattern_shape :: "string filter_value option \<Rightarrow> (bool \<times> nat) option" where
  "pattern_shape x = map_option (\<lambda>fv. (fv_negated fv, length (str_split (CHR ''|'') (fv_value fv)))) x"

definition user_shape :: "passwd_cache \<Rightarrow> string filter_value option \<Rightarrow> bool option" where
  "user_shape cache x =
     Option.bind x (\<lambda>fv. map_option (\<lambda>_. fv_negated fv) (user_uid cache (fv_value fv)))"

definition same_shape :: "passwd_cache \<Rightarrow> event_filter \<Rightarrow> event_filter \<Rightarrow> bool" where
  "same_shape cache f g \<longleftrightarrow>
     pattern_shape (f_comm f) = pattern_shape (f_comm g)
     \<and> exact_shape (f_exit_code f) = exact_shape (f_exit_code g)
     \<and> pattern_shape (f_session_id f) = pattern_shape (f_session_id g)
     \<and> exact_shape (f_pid f) = exact_shape (f_pid g)
     \<and> exact_shape (f_ppid f) = exact_shape (f_ppid g)
     \<and> exact_shape (f_gid f) = exact_shape (f_gid g)
     \<and> exact_shape (f_euid f) = exact_shape (f_euid g)
     \<and> exact_shape (f_tty f) = exact_shape (f_tty g)
     \<and> pattern_shape (f_file f) = pattern_shape (f_file g)
     \<and> pattern_shape (f_cmd f) = pattern_shape (f_cmd g)
     \<and> user_shape cache (f_user f) = user_shape cache (f_user g)
     \<and> (f_text f = None \<longleftrightarrow> f_text g = None)"

section \<open>Two builds side by side\<close>

definition alike :: "where_state \<Rightarrow> where_state \<Rightarrow> bool" where
  "alike a b \<longleftrightarrow> fst a = fst b \<and> length (snd a) = length (snd b)"

lemma alike_refl [simp]: "alike a a"
  by (simp add: alike_def)

lemma alike_push: "alike a b \<Longrightarrow> length vs = length ws \<Longrightarrow> alike (push c vs a) (push c ws b)"
  by (simp add: alike_def push_def)

lemma alike_exact:
  "alike a b \<Longrightarrow> fv_negated v = fv_negated w \<Longrightarrow>
    alike (add_exact f column v nullable a) (add_exact f column w nullable b)"
  unfolding add_exact_def Let_def by (simp add: alike_def push_def)

lemma like_parts_length:
  "length xs = length ys \<Longrightarrow> like_parts column negated xs i = like_parts column negated ys i"
  by (induction xs ys arbitrary: i rule: list_induct2) simp_all

lemma alike_like:
  assumes "alike a b" "length (str_split (CHR ''|'') p) = length (str_split (CHR ''|'') q)"
  shows "alike (add_like column p negated nullable a) (add_like column q negated nullable b)"
  using assms like_parts_length [OF assms(2), of column]
  unfolding add_like_def Let_def by (simp add: alike_def push_def)

lemma alike_text: "alike a b \<Longrightarrow> alike (add_text s a) (add_text t b)"
  by (simp add: add_text_def alike_def push_def)

text \<open>A step for an optional field.\<close>

lemma alike_if_some:
  assumes "alike a b" "x = None \<longleftrightarrow> y = None"
    "\<And>v w. x = Some v \<Longrightarrow> y = Some w \<Longrightarrow> alike (f v a) (f w b)"
  shows "alike (if_some x f a) (if_some y f b)"
  using assms by (cases x; cases y) (auto simp: if_some_def)

lemma alike_exact_field:
  assumes "alike a b" "exact_shape x = exact_shape y"
  shows "alike (if_some x (\<lambda>fv. add_exact f column fv nullable) a) (if_some y (\<lambda>fv. add_exact f column fv nullable) b)"
  using assms by (intro alike_if_some) (auto simp: exact_shape_def intro: alike_exact)

lemma alike_pattern_field:
  assumes "alike a b" "pattern_shape x = pattern_shape y"
    "\<And>v. length (str_split (CHR ''|'') (p v)) = length (str_split (CHR ''|'') v)"
  shows "alike (if_some x (\<lambda>fv. add_like column (p (fv_value fv)) (fv_negated fv) nullable) a)
     (if_some y (\<lambda>fv. add_like column (p (fv_value fv)) (fv_negated fv) nullable) b)"
  using assms by (intro alike_if_some) (auto simp: pattern_shape_def intro: alike_like)

lemma alike_user_field:
  assumes "alike a b" "user_shape cache x = user_shape cache y"
  shows "alike (if_some x (add_user cache) a) (if_some y (add_user cache) b)"
proof -
  have some: "if_some z (add_user cache) st = (case Option.bind z (\<lambda>fv. map_option (\<lambda>u. (u, fv_negated fv)) (user_uid cache (fv_value fv))) of
      None \<Rightarrow> st | Some (u, n) \<Rightarrow> add_exact sql_u32 ''uid'' \<lparr>fv_value = u, fv_negated = n\<rparr> False st)" for z st
    by (auto simp: if_some_def add_user_def split: option.splits)
  show ?thesis
    using assms unfolding some user_shape_def
    by (auto split: option.splits Option.bind_splits intro: alike_exact)
qed

section \<open>The number of alternatives survives the translation\<close>

lemma alternatives_session:
  "length (str_split (CHR ''|'') (escape_like_pattern v @ ''%'')) = length (str_split (CHR ''|'') v)"
  using str_split_ne [of "CHR ''|''" v] by (simp add: str_split_append str_split_escape)

lemma where_conditions_alike:
  assumes "same_shape cache f g"
  shows "alike (where_conditions cache f) (where_conditions cache g)"
  using assms unfolding where_conditions_def Let_def same_shape_def
  by (intro alike_if_some [where f = add_text] alike_user_field alike_exact_field
      alike_pattern_field [where p = glob_to_like_pattern] alike_pattern_field [where p = cmd_pattern]
      alike_pattern_field [where p = "\<lambda>v. escape_like_pattern v @ ''%''"] alike_refl alike_text)
    (simp_all add: str_split_glob alternatives_cmd alternatives_session)

text \<open>
  C8: No value of a query becomes part of the SQL text. Two filters with the same fields, negations and
  numbers of alternatives give the same text and the same number of parameters, whatever names,
  patterns, numbers and free text they hold; so a quote or a keyword of SQL in a query is compared with
  the columns but never read as SQL.
\<close>

theorem clause_text_carries_no_value:
  assumes "same_shape cache f g"
  shows "fst (build_where_clause cache f) = fst (build_where_clause cache g)
    \<and> length (snd (build_where_clause cache f)) = length (snd (build_where_clause cache g))"
  using where_conditions_alike [OF assms] by (simp add: alike_def build_where_clause_def split_beta)

text \<open>A hostile query and a harmless one.\<close>

definition hostile_filter :: event_filter where
  "hostile_filter = event_filter_default\<lparr>
     f_comm := Some \<lparr>fv_value = [CHR 0x27] @ '' OR 1=1 --'', fv_negated = False\<rparr>,
     f_text := Some (''); DROP TABLE events; --'')\<rparr>"

definition harmless_filter :: event_filter where
  "harmless_filter = event_filter_default\<lparr>
     f_comm := Some \<lparr>fv_value = ''sh'', fv_negated = False\<rparr>, f_text := Some ''make''\<rparr>"

theorem clause_text_carries_no_value_witness:
  "fst (build_where_clause [] hostile_filter) = fst (build_where_clause [] harmless_filter)
   \<and> snd (build_where_clause [] hostile_filter) \<noteq> snd (build_where_clause [] harmless_filter)"
proof -
  have "same_shape [] hostile_filter harmless_filter"
    by (simp add: same_shape_def hostile_filter_def harmless_filter_def event_filter_default_def pattern_shape_def)
  from clause_text_carries_no_value [OF this]
  have "fst (build_where_clause [] hostile_filter) = fst (build_where_clause [] harmless_filter)" by blast
  moreover have "hd (snd (build_where_clause [] hostile_filter)) \<noteq> hd (snd (build_where_clause [] harmless_filter))"
    by (simp add: build_where_clause_def where_conditions_def hostile_filter_def harmless_filter_def event_filter_default_def
        if_some_def push_def add_like_def add_text_def glob_to_like_pattern_def escape_like_pattern_def BACKSLASH_def Let_def)
  ultimately show ?thesis by auto
qed

end
