(* ===== verification/Answered.thy ===== *)
theory Answered
  imports Served Placeholders
begin

text \<open>
  No request takes the web server down, and none is answered with a server error that the stored rows
  caused. \<open>answering_source\<close> is what the handlers rely on: the repository answers, and what it hands out has
  well-formed session ids, because the row view cuts the id at a byte position. The SQL repository
  interprets it on every database that the collector can leave behind (\<open>stored_ok\<close>).
\<close>

section \<open>What the collector leaves behind\<close>

definition stored_ok :: "database \<Rightarrow> bool" where
  "stored_ok db \<longleftrightarrow> readable_db db \<and> (\<forall>r \<in> set (db_events db). session_id_is_valid (er_session_id r))"

lemma stored_ok_empty: "stored_ok (empty_database fk)"
  using wf_empty_database [of fk] by (simp add: stored_ok_def readable_db_def empty_database_def)

lemma call_row_session: "er_session_id (call_row env c) = si_session_id (call_session c)"
  by (cases c) (simp_all add: exec_row_def exit_row_def io_row_def)

lemma stored_ok_call:
  assumes "stored_ok db" "call_ok c" "session_id_is_valid (si_session_id (call_session c))"
  shows "stored_ok (sink_do (sqlite_sink env) c db)"
proof -
  have "er_session_id ` set (db_events (sink_do (sqlite_sink env) c db))
      \<subseteq> insert (si_session_id (call_session c)) (er_session_id ` set (db_events db))"
    using sink_image [of er_session_id env c db] by (simp add: call_row_session)
  then show ?thesis
    using assms sink_readable [OF assms(2), of db env] by (auto simp: stored_ok_def image_subset_iff)
qed

text \<open>A handled entry keeps the correlator's invariant and calls the sink with a well-formed session id.\<close>

definition good_outcome :: "'s sink \<Rightarrow> 's \<Rightarrow> correlator \<times> 's \<Rightarrow> bool" where
  "good_outcome sink s cs \<longleftrightarrow> corr_inv (fst cs)
     \<and> (snd cs = s \<or> (\<exists>call. snd cs = sink_do sink call s \<and> call_ok call \<and> session_id_is_valid (si_session_id (call_session call))))"

lemma good_outcome_quiet: "corr_inv c \<Longrightarrow> good_outcome sink s (c, s)"
  by (simp add: good_outcome_def)

lemma good_outcome_call:
  "corr_inv c \<Longrightarrow> call_ok call \<Longrightarrow> session_id_is_valid (si_session_id (call_session call)) \<Longrightarrow>
    good_outcome sink s (c, sink_do sink call s)"
  by (auto simp: good_outcome_def)

lemma exec_outcome:
  assumes "handle_exec_event rnd config sink data (c, s) = Some cs" "corr_inv c" "random_ok rnd"
  shows "good_outcome sink s cs"
proof (cases "parsed_exec_try_from data")
  case (Inr e)
  with assms(1) obtain c1 sid where c1: "corr_on_exec rnd c (info_of_exec e) = Some (c1, sid)"
    and cs: "cs = (c1, s) \<or> cs = (c1, sink_do sink (CallExec (exec_session_info sid e) e) s)"
    by (auto simp: handle_exec_event_def split: option.splits if_splits)
  from corr_on_exec_inv [OF assms(2,3) c1] cs show ?thesis
    by (auto intro!: good_outcome_quiet good_outcome_call simp: exec_session_info_def simp del: sink_do.simps)
qed (use assms in \<open>auto simp: handle_exec_event_def intro: good_outcome_quiet\<close>)

lemma io_outcome:
  assumes "handle_io_event rnd config sink data ty (c, s) = Some cs" "corr_inv c" "random_ok rnd"
  shows "good_outcome sink s cs"
proof (cases "parsed_io_try_from data")
  case (Inr e)
  with assms(1) obtain c1 sid where c1: "corr_session_for rnd c (info_of_io e) = Some (c1, sid)"
    and cs: "cs = (c1, s) \<or> cs = (c1, sink_do sink (CallIo (io_session_info sid e) e ty) s)"
    by (auto simp: handle_io_event_def split: option.splits if_splits)
  have "call_ok (CallIo si e ty)" for si using parsed_io_data_bound [OF Inr] by (simp add: MAX_DATA_LEN_def)
  with corr_session_for_inv [OF assms(2,3) c1] cs show ?thesis
    by (auto intro!: good_outcome_quiet good_outcome_call simp: io_session_info_def simp del: sink_do.simps)
qed (use assms in \<open>auto simp: handle_io_event_def intro: good_outcome_quiet\<close>)

lemma exit_outcome:
  assumes "handle_exit_event rnd config sink data (c, s) = Some cs" "corr_inv c" "random_ok rnd"
  shows "good_outcome sink s cs"
proof (cases "parsed_exit_try_from data")
  case (Inr e)
  with assms(1) obtain c1 sid where c1: "corr_session_for rnd c (info_of_exit e) = Some (c1, sid)"
    by (auto simp: handle_exit_event_def split: option.splits)
  obtain c2 x where c2: "corr_on_exit c1 (pe_pid e) = (c2, x)" by fastforce
  have sid: "session_id_is_valid sid" and "corr_inv c1" using corr_session_for_inv [OF assms(2,3) c1] by simp_all
  then have inv: "corr_inv c2" using corr_on_exit_inv [of c1 "pe_pid e"] by (simp add: c2)
  have "cs = (c2, s) \<or> cs = (c2, sink_do sink (CallExit (exit_session_info sid e) e
      (case x of None \<Rightarrow> False | Some x \<Rightarrow> xi_session_complete x)) s)"
    using assms(1) Inr c1 c2 by (auto simp: handle_exit_event_def split: if_splits)
  with inv sid show ?thesis
    by (auto intro!: good_outcome_quiet good_outcome_call simp: exit_session_info_def simp del: sink_do.simps)
qed (use assms in \<open>auto simp: handle_exit_event_def intro: good_outcome_quiet\<close>)

lemma handled_outcome:
  assumes "handle_event rnd config sink data (c, s) = Some cs" "corr_inv c" "random_ok rnd"
  shows "good_outcome sink s cs"
proof (cases "event_header_try_from data")
  case (Inr h)
  note outcomes = exec_outcome [OF _ assms(2,3)] exit_outcome [OF _ assms(2,3)] io_outcome [OF _ assms(2,3)]
  show ?thesis
  proof (cases "decoded_event_type h")
    case (Some ty)
    then show ?thesis using assms(1) Inr outcomes by (cases ty) (simp_all add: handle_event_def)
  qed (use assms Inr in \<open>auto simp: handle_event_def intro: good_outcome_quiet\<close>)
qed (use assms in \<open>auto simp: handle_event_def intro: good_outcome_quiet\<close>)

lemma consumed_ok:
  assumes "consume_ring config items (c, db) = Some (c', db')" "corr_inv c" "stored_ok db"
    "\<forall>(rnd, sink, data) \<in> set items. random_ok rnd \<and> sink \<in> range sqlite_sink"
  shows "corr_inv c' \<and> stored_ok db'"
  using assms
proof (induction items arbitrary: c db)
  case (Cons x items)
  obtain rnd sink data where x: "x = (rnd, sink, data)" by (cases x)
  with Cons.prems(4) obtain env where env: "random_ok rnd" "sink = sqlite_sink env" by auto
  obtain c1 db1 where 1: "handle_event rnd config sink data (c, db) = Some (c1, db1)"
      "consume_ring config items (c1, db1) = Some (c', db')"
    using Cons.prems(1) by (auto simp: x split: Option.bind_splits)
  have "corr_inv c1 \<and> stored_ok db1"
    using handled_outcome [OF 1(1) Cons.prems(2) env(1)] Cons.prems(3) env(2) stored_ok_call
    by (auto simp: good_outcome_def)
  then show ?case using Cons.IH [OF 1(2)] Cons.prems(4) by simp
qed simp

text \<open>Every state of the running program has such a database.\<close>

lemma running_stored_ok:
  assumes "run_collector env artifact web (empty_database fk) = Inr r0" "running_reachable su r0 r"
    "\<forall>rnd \<in> su_random su. random_ok rnd" "su_sinks su \<subseteq> range sqlite_sink"
  shows "stored_ok (rn_sink r)"
proof -
  from running_invariant(2) [OF assms(1,2)] obtain items where items: "items_ok su items"
    "consume_ring (su_config su) items (correlator_default, empty_database fk) = Some (rn_correlator r, rn_sink r)"
    by (auto simp: handled_prefix_def)
  have "\<forall>(rnd, sink, data) \<in> set items. random_ok rnd \<and> sink \<in> range sqlite_sink"
    using items(1) assms(3,4) unfolding items_ok_def by blast
  with consumed_ok [OF items(2) corr_inv_default stored_ok_empty] show ?thesis by blast
qed

lemma running_reachable_trans:
  "running_reachable su r r' \<Longrightarrow> running_reachable su r0 r \<Longrightarrow> running_reachable su r0 r'"
  by (induction rule: running_reachable.induct) (auto intro: running_reachable.step)

section \<open>What the handlers rely on\<close>

locale answering_source =
  fixes repo_at :: "'d \<Rightarrow> event_repo" and ok :: "'d \<Rightarrow> bool" and up :: "'d \<Rightarrow> bool"
  assumes list_shows:
    "ok d \<Longrightarrow> rp_list (repo_at d) req f = Inr p \<Longrightarrow> s \<in> set (pg_items p) \<Longrightarrow> session_id_is_valid (es_session_id s)"
    and since_shows:
    "ok d \<Longrightarrow> rp_list_since (repo_at d) a f = Inr ss \<Longrightarrow> s \<in> set ss \<Longrightarrow> session_id_is_valid (es_session_id s)"
    and list_answers: "ok d \<Longrightarrow> up d \<Longrightarrow> is_ok (rp_list (repo_at d) req f)"
    and detail_answers: "ok d \<Longrightarrow> up d \<Longrightarrow> is_ok (rp_get_detail (repo_at d) i)"

section \<open>Rows with well-formed session ids can be shown\<close>

lemma view_is_total: "session_id_is_valid (es_session_id s) \<Longrightarrow> \<exists>v. event_summary_view_from env s = Some v"
proof -
  assume "session_id_is_valid (es_session_id s)"
  then have "slice_to 10 (es_session_id s) = Some (take 10 (es_session_id s))"
    using valid_session_id_ascii [of "es_session_id s"] by (simp add: slice_to_def ascii_boundary)
  then show ?thesis by (simp add: event_summary_view_from_def Let_def split_beta)
qed

lemma views_are_total: "\<forall>s \<in> set ss. session_id_is_valid (es_session_id s) \<Longrightarrow> \<exists>vs. map_views env ss = Some vs"
proof (induction ss)
  case (Cons s ss)
  then show ?case using view_is_total [of s env] by auto
qed simp

lemma rows_are_total: "\<forall>s \<in> set ss. session_id_is_valid (es_session_id s) \<Longrightarrow> \<exists>html. render_rows env row ss = Some html"
proof (induction ss)
  case (Cons s ss)
  then show ?case using view_is_total [of s env] by auto
qed simp

lemma page_is_total:
  "\<forall>s \<in> set (pg_items p). session_id_is_valid (es_session_id s) \<Longrightarrow> \<exists>v. paginated_from env p = Some v"
  using views_are_total [of "pg_items p" env] by (auto simp: paginated_from_def)

section \<open>The handlers answer\<close>

definition renders :: "front \<Rightarrow> bool" where
  "renders fr \<longleftrightarrow> (\<forall>p nav. fr_event_list fr p nav \<noteq> None) \<and> (\<forall>v. fr_event_detail fr v \<noteq> None)
     \<and> (\<forall>s p nav q ks. fr_index fr s p nav q ks \<noteq> None) \<and> (\<forall>p. fr_page_json fr p \<noteq> None)"

text \<open>A response, and if nothing outside the handlers fails, no server error.\<close>

definition answered :: "bool \<Rightarrow> response option \<Rightarrow> bool" where
  "answered fine r \<longleftrightarrow> (\<exists>resp. r = Some resp \<and> (fine \<longrightarrow> rs_status resp \<in> {200, 400, 404, 405}))"

lemmas response_defs = text_response_def status_response_def sse_response_def html_or_error_def error_page_def
  OK_def NOT_FOUND_def INTERNAL_SERVER_ERROR_def

context answering_source
begin

lemma index_answered:
  assumes "ok d"
  shows "answered (up d \<and> renders fr) (index_page fr (repo_at d) q)"
proof (cases "rp_list (repo_at d) list_request_default (event_filter_parse q)")
  case (Inl e)
  then have "\<not> up d" using list_answers [OF assms, of list_request_default "event_filter_parse q"] by auto
  then show ?thesis using Inl by (simp add: answered_def index_page_def Let_def)
next
  case (Inr p)
  obtain v where "paginated_from (fr_env fr) p = Some v" using page_is_total list_shows [OF assms Inr] by blast
  then show ?thesis using Inr
    by (auto simp: answered_def index_page_def Let_def response_defs renders_def split: option.splits) blast
qed

lemma list_answered:
  assumes "ok d"
  shows "answered (up d \<and> renders fr) (list_events fr (repo_at d) headers ps)"
proof (cases "rp_list (repo_at d) (list_request_of ps) (event_filter_parse (pr_q ps))")
  case (Inl e)
  then have "\<not> up d" using list_answers [OF assms, of "list_request_of ps" "event_filter_parse (pr_q ps)"] by auto
  then show ?thesis using Inl by (simp add: answered_def list_events_def Let_def)
next
  case (Inr p)
  obtain v where v: "paginated_from (fr_env fr) p = Some v" using page_is_total list_shows [OF assms Inr] by blast
  show ?thesis
  proof (cases "is_datastar_request headers \<and> pr_append ps")
    case True
    then show ?thesis using Inr v
      by (simp add: answered_def list_events_def infinite_scroll_response_def Let_def response_defs)
  next
    case False
    then show ?thesis using Inr v
      by (auto simp: answered_def list_events_def from_page_with_warnings_def Let_def response_defs renders_def split: option.splits)
  qed
qed

lemma live_answered:
  assumes "\<forall>t \<in> set ticks. ok t"
  shows "answered fine (live_events fr repo (map repo_at ticks) headers q)"
proof -
  have "\<exists>out. live_stream env row f (map repo_at ticks) st = Some out" for env row f st
    using assms
  proof (induction ticks arbitrary: st)
    case (Cons t ticks)
    have "\<forall>s \<in> set (live_batch (repo_at t) f st). session_id_is_valid (es_session_id s)"
      using since_shows [of t "lv_last_seen_id st" f] Cons.prems
      by (cases "rp_list_since (repo_at t) (lv_last_seen_id st) f") (auto simp: live_batch_def)
    from rows_are_total [OF this] obtain html where "render_rows env row (live_batch (repo_at t) f st) = Some html" ..
    then have "live_poll env row f (repo_at t) st \<noteq> None" by (simp add: live_poll_def Let_def)
    then obtain out st' where "live_poll env row f (repo_at t) st = Some (out, st')" by auto
    moreover have "\<exists>out. live_stream env row f (map repo_at ticks) st' = Some out"
      using Cons.IH [of st'] Cons.prems by simp
    ultimately show ?case by auto
  qed simp
  then obtain out where "live_stream (fr_env fr) (fr_event_row fr) (event_filter_parse q) (map repo_at ticks) (live_start repo headers) = Some out"
    by blast
  then show ?thesis by (cases out) (simp add: answered_def live_events_def response_defs)
qed

lemma event_answered:
  assumes "ok d"
  shows "answered (up d \<and> renders fr) (Some (get_event_detail fr (repo_at d) i))"
    "answered (up d \<and> renders fr) (Some (get_event_raw (repo_at d) i kind))"
  using detail_answers [OF assms, of i]
  by (auto simp: answered_def get_event_detail_def get_event_raw_def response_defs renders_def split: sum.splits option.splits)

lemma get_answered:
  assumes "ok d" "\<forall>t \<in> set ticks. ok t"
  shows "answered (up d \<and> renders fr) (serve_get fr (repo_at d) (map repo_at ticks) req)"
proof -
  have rest: "answered fine (Some (bad_request fr))" "answered fine (Some (filter_keywords fr))"
    "answered fine (Some (styles fr))" "answered fine (Some (not_found fr))" for fine
    by (simp_all add: answered_def bad_request_def filter_keywords_def styles_def not_found_def response_defs split: option.splits)
  note answers = rest index_answered [OF assms(1)] list_answered [OF assms(1)] live_answered [OF assms(2)] event_answered [OF assms(1)]
  show ?thesis
    unfolding serve_get_def Let_def
    by (cases "endpoint_of (path_of (rq_target req))") (simp_all add: answers split: option.splits)
qed

lemma request_answered:
  assumes "ok d" "\<forall>t \<in> set ticks. ok t"
  shows "answered (up d \<and> renders fr) (router fr (repo_at d) (map repo_at ticks) req)"
  using get_answered [OF assms, of fr req] by (auto simp: answered_def router_def security_headers_def Let_def)

end

section \<open>The SQL repository answers\<close>

lemma collected_sessions:
  assumes "collect_results (map row_to_summary rows) = Inr ss" "\<forall>r \<in> set rows. session_id_is_valid (er_session_id r)"
  shows "\<forall>s \<in> set ss. session_id_is_valid (es_session_id s)"
proof -
  have same: "es_session_id s = er_session_id r" if "row_to_summary r = Inr s" for r s
    using that by (auto simp: row_to_summary_def bind_result_Inr_iff)
  have "map row_to_summary rows = map Inr ss" using assms(1) by (simp add: collect_results_Inr)
  then have "row_to_summary ` set rows = Inr ` set ss" by (metis set_map)
  then show ?thesis using same assms(2) by (metis imageE imageI)
qed

lemma ordered_rows: "set (order_rows k d rows) = set rows"
  by (cases d) (simp_all add: order_rows_def)

lemma collected_answers:
  "list_all readable_row rows \<Longrightarrow> is_ok (collect_results (map row_to_summary rows))"
  using collect_results_ok [of "map row_to_summary rows"] readable_summary by (fastforce simp: list_all_iff)

text \<open>
  A pool that only shows databases the collector can leave behind, and one that answers. The statements
  of a request may see different ones of these databases.
\<close>

definition shows_stored :: "connection option \<Rightarrow> bool" where
  "shows_stored pool \<longleftrightarrow> (\<forall>conn q db. pool = Some conn \<longrightarrow> conn q = Some db \<longrightarrow> stored_ok db)"

definition answers_queries :: "connection option \<Rightarrow> bool" where
  "answers_queries pool \<longleftrightarrow> (\<exists>conn. pool = Some conn \<and> (\<forall>q. conn q \<noteq> None))"

lemma run_query_Inr: "run_query conn q = Inr db \<longleftrightarrow> conn q = Some db"
  by (simp add: run_query_def ok_or_def split: option.split)

lemma answers_run:
  assumes "answers_queries (Some conn)" "shows_stored (Some conn)"
  obtains db where "run_query conn q = Inr db" "stored_ok db"
proof -
  obtain db where "conn q = Some db" using assms(1) by (auto simp: answers_queries_def)
  then show thesis using that assms(2) by (auto simp: run_query_Inr shows_stored_def)
qed

text \<open>Which rows a list is made of.\<close>

lemma list_reads_rows:
  assumes "repo_list cache (Some conn) req f = Inr p"
  obtains db rows where "conn (page_query (build_where_clause cache f) req) = Some db" "set rows \<subseteq> set (db_events db)"
    "collect_results (map row_to_summary rows) = Inr (pg_items p)"
proof -
  let ?rows = "\<lambda>db. take (unat (lr_page_size req)) (drop (unat (list_request_offset req))
      (order_rows (lr_sort req) (lr_direction req) (filter (selects (where_conditions cache f)) (db_events db))))"
  have "set (?rows db) \<subseteq> set (db_events db)" for db :: database
    by (auto simp: ordered_rows dest!: in_set_takeD in_set_dropD)
  moreover obtain db where "run_query conn (page_query (build_where_clause cache f) req) = Inr db"
      "collect_results (map row_to_summary (?rows db)) = Inr (pg_items p)"
    using assms by (auto simp: repo_list_def ok_or_def Let_def bind_result_Inr_iff)
  ultimately show thesis using that [of db "?rows db"] by (simp add: run_query_Inr)
qed

lemma since_reads_rows:
  assumes "repo_list_since cache (Some conn) a f = Inr ss"
  obtains db rows where "conn (since_query (build_where_clause cache f) a) = Some db" "set rows \<subseteq> set (db_events db)"
    "collect_results (map row_to_summary rows) = Inr ss"
proof -
  let ?rows = "\<lambda>db. take LIVE_LIMIT (sort_key er_id (filter (selects (since_clause cache f a)) (db_events db)))"
  have "set (?rows db) \<subseteq> set (db_events db)" for db :: database by (auto dest!: in_set_takeD)
  moreover obtain db where "run_query conn (since_query (build_where_clause cache f) a) = Inr db"
      "collect_results (map row_to_summary (?rows db)) = Inr ss"
    using assms by (auto simp: repo_list_since_def ok_or_def Let_def bind_result_Inr_iff)
  ultimately show thesis using that [of db "?rows db"] by (simp add: run_query_Inr)
qed

lemma list_is_answered:
  assumes "answers_queries (Some conn)" "shows_stored (Some conn)"
  shows "is_ok (repo_list cache (Some conn) req f)"
proof -
  obtain db where db: "run_query conn (count_query (build_where_clause cache f)) = Inr db"
    using assms by (rule answers_run)
  obtain db' where db': "run_query conn (page_query (build_where_clause cache f) req) = Inr db'" "stored_ok db'"
    using assms by (rule answers_run)
  let ?rows = "take (unat (lr_page_size req)) (drop (unat (list_request_offset req)) (order_rows (lr_sort req)
      (lr_direction req) (filter (selects (where_conditions cache f)) (db_events db'))))"
  have "set ?rows \<subseteq> set (db_events db')" by (auto simp: ordered_rows dest!: in_set_takeD in_set_dropD)
  then have "list_all readable_row ?rows" using db'(2) by (auto simp: stored_ok_def readable_db_def list_all_iff)
  then obtain items where "collect_results (map row_to_summary ?rows) = Inr items"
    by (blast dest: collected_answers elim: is_okE)
  then show ?thesis using db db'(1) by (simp add: repo_list_def ok_or_def Let_def)
qed

lemma detail_is_answered:
  assumes "answers_queries (Some conn)" "shows_stored (Some conn)"
  shows "is_ok (repo_get_detail (Some conn) i)"
proof -
  obtain db where db: "run_query conn (detail_query i) = Inr db" "stored_ok db" using assms by (rule answers_run)
  have sub: "list_all readable_row (sort_key er_id (filter p (db_events db)))" if "stored_ok db" for p and db :: database
    using that by (simp add: stored_ok_def readable_db_def list_all_iff)
  show ?thesis
  proof (cases "find (\<lambda>r. er_id r = i) (db_events db)")
    case (Some r)
    with db(2) have "readable_row r" by (auto simp: stored_ok_def readable_db_def find_Some_iff list_all_length)
    then obtain d where d: "row_to_detail r = Inr d" using readable_detail by (blast elim: is_okE)
    obtain db1 where db1: "run_query conn (io_query (ed_summary d)) = Inr db1" "stored_ok db1" using assms by (rule answers_run)
    obtain d1 where d1: "fetch_io_chunks conn d = Inr d1"
      unfolding fetch_io_chunks_def db1(1) bind_result_simps using add_chunks_readable [OF sub [OF db1(2)]] by blast
    obtain db2 where db2: "run_query conn (children_query (ed_summary d1)) = Inr db2" "stored_ok db2" using assms by (rule answers_run)
    obtain cs where cs: "fetch_children conn d1 = Inr cs"
      unfolding fetch_children_def db2(1) bind_result_simps
      using collect_results_ok [of "map (row_to_child db2) _"] readable_child sub [OF db2(2)] by (fastforce simp: list_all_iff)
    obtain db3 where "run_query conn (parent_query (ed_summary (d1\<lparr>ed_children := cs\<rparr>))) = Inr db3" using assms by (rule answers_run)
    then obtain q where "fetch_parent conn (d1\<lparr>ed_children := cs\<rparr>) = Inr q" by (simp add: fetch_parent_def)
    then show ?thesis using Some db(1) d d1 cs by (simp add: repo_get_detail_def ok_or_def Let_def)
  qed (simp add: repo_get_detail_def ok_or_def db(1))
qed

interpretation sql_answers: answering_source "sql_event_repository cache" shows_stored answers_queries for cache
proof (unfold_locales, goal_cases)
  case (1 pool req f p s)
  then obtain conn where conn: "pool = Some conn" "repo_list cache (Some conn) req f = Inr p"
    by (auto simp: sql_event_repository_def repo_list_def ok_or_def split: option.splits)
  from list_reads_rows [OF conn(2)] obtain db rows where "conn (page_query (build_where_clause cache f) req) = Some db"
    "set rows \<subseteq> set (db_events db)" "collect_results (map row_to_summary rows) = Inr (pg_items p)" by blast
  with 1 conn(1) show ?case using collected_sessions unfolding shows_stored_def stored_ok_def by (metis subsetD)
next
  case (2 pool a f ss s)
  then obtain conn where conn: "pool = Some conn" "repo_list_since cache (Some conn) a f = Inr ss"
    by (auto simp: sql_event_repository_def repo_list_since_def ok_or_def split: option.splits)
  from since_reads_rows [OF conn(2)] obtain db rows where "conn (since_query (build_where_clause cache f) a) = Some db"
    "set rows \<subseteq> set (db_events db)" "collect_results (map row_to_summary rows) = Inr ss" by blast
  with 2 conn(1) show ?case using collected_sessions unfolding shows_stored_def stored_ok_def by (metis subsetD)
next
  case (3 pool req f)
  then show ?case using list_is_answered by (auto simp: sql_event_repository_def answers_queries_def)
next
  case (4 pool i)
  then show ?case using detail_is_answered by (auto simp: sql_event_repository_def answers_queries_def)
qed

text \<open>
  A query that SQLite refuses is a server error, whatever the rows are: a list whose filter has more
  alternatives, or a longer pattern, than SQLite takes is answered with 500.
\<close>

lemma refused_query_is_a_server_error:
  assumes "conn (count_query (build_where_clause cache (event_filter_parse (pr_q ps)))) = None"
  shows "list_events fr (sql_event_repository cache (Some conn)) headers ps = Some (status_response INTERNAL_SERVER_ERROR)"
  using assms by (simp add: list_events_def sql_event_repository_def repo_list_def run_query_def ok_or_def Let_def)

section \<open>Every request\<close>

text \<open>
  C6: No request takes the web server down, and no stored row makes one fail. At every moment of a run of
  the whole program, with any filter of the collector, any failures of its statements, any query, path,
  headers and method, and however the statements of a request and the ticks of a live tail fall into the
  run, the router gives a response. The response is a server error only if the pool has no connection, a
  query is not answered by SQLite (which refuses, for example, a thousand alternatives in one filter), or
  a template does not render: as long as the pool hands out a connection that answers the queries and the
  templates render, it is not, whatever was recorded. (Sums wrap here, as in a release build; a debug build
  panics on them instead.)
\<close>

theorem every_request_is_answered:
  assumes "run_collector env artifact web (empty_database fk) = Inr r0" "running_reachable su r0 r"
    and "\<forall>rnd \<in> su_random su. random_ok rnd" "su_sinks su \<subseteq> range sqlite_sink"
    and "\<forall>conn q db. Some conn \<in> set (pool # ticks) \<longrightarrow> conn q = Some db
      \<longrightarrow> (\<exists>r'. running_reachable su r r' \<and> db = rn_sink r')"
  shows "\<exists>resp. router fr (sql_event_repository cache pool) (map (sql_event_repository cache) ticks) req = Some resp
    \<and> ((\<exists>conn. pool = Some conn \<and> (\<forall>q. conn q \<noteq> None)) \<and> renders fr \<longrightarrow> rs_status resp \<in> {200, 400, 404, 405})"
proof -
  have "stored_ok (rn_sink r')" if "running_reachable su r r'" for r'
    using running_stored_ok [OF assms(1) running_reachable_trans [OF that assms(2)] assms(3,4)] .
  with assms(5) have "shows_stored pool" "\<forall>t \<in> set ticks. shows_stored t" by (fastforce simp: shows_stored_def)+
  from sql_answers.request_answered [OF this, of fr cache req] show ?thesis
    by (simp add: answered_def answers_queries_def)
qed

theorem every_request_is_answered_witness:
  "\<exists>r0 :: (string, database) running. run_collector good_env (Path True []) None (empty_database True) = Inr r0
     \<and> (\<exists>resp. router plain_front (sql_event_repository [] (Some (steady (rn_sink r0)))) [sql_event_repository [] (Some (steady (rn_sink r0)))]
            \<lparr>rq_method = ''GET'', rq_target = ''/api/v1/events/live?q=%'', rq_headers = Map.empty\<rparr> = Some resp
          \<and> rs_status resp \<in> {200, 400, 404, 405})"
proof -
  define su :: "(string, database) surroundings" where
    "su = \<lparr>su_config = \<lparr>filter_pty = True, filter_ancestors = []\<rparr>, su_sinks = range sqlite_sink,
       su_random = {None, Some [1, 2, 3, 4, 5, 6, 7, 8]},
       su_host = \<lparr>ph_exists = (\<lambda>p. True), ph_store = (\<lambda>p. None), ph_build = True, ph_get = True, ph_query = True\<rparr>,
       su_binds = (\<lambda>a. True)\<rparr>"
  obtain offsets where start: "run_collector good_env (Path True []) (None :: string server_config option) (empty_database True)
      = Inr (consume_start (ebpf_init 1 offsets) None (empty_database True))" (is "_ = Inr ?r0")
    by (rule exE [OF good_start]) (rule that)
  have reach: "running_reachable su ?r0 ?r0" by (rule running_reachable.start)
  have side: "\<forall>rnd \<in> su_random su. random_ok rnd" "su_sinks su \<subseteq> range sqlite_sink"
    "\<forall>conn q db. Some conn \<in> set (Some (steady (rn_sink ?r0)) # [Some (steady (rn_sink ?r0))]) \<longrightarrow> conn q = Some db
      \<longrightarrow> (\<exists>r'. running_reachable su ?r0 r' \<and> db = rn_sink r')"
    using reach by (auto simp: su_def random_ok_def SESSION_ID_SUFFIX_LEN_def steady_def)
  have "renders plain_front" by (simp add: renders_def plain_front_def)
  with every_request_is_answered [OF start reach side, of plain_front "[]"
      "\<lparr>rq_method = ''GET'', rq_target = ''/api/v1/events/live?q=%'', rq_headers = Map.empty\<rparr>"] start
  show ?thesis by (auto simp: steady_def)
qed

end
