(* ===== verification/BuildScript.thy ===== *)
theory BuildScript
  imports Prelude
begin

text \<open>
  The build script of the web server, \<open>shspectr-web/build.rs\<close>: it downloads the style sheet compiler once
  into the output directory and compiles the style sheet that \<open>static_assets.rs\<close> and \<open>app.rs\<close> embed.

  The file system is an abstract state. \<open>build_host\<close> holds what the script asks for: the target that Cargo
  configures, the variable \<open>OUT_DIR\<close>, whether a file exists, and the two commands it runs; a command changes
  the file system and answers with its status, \<open>None\<close> when it cannot be run. A panic ends the script with
  what was done so far.
\<close>

record 'fs build_host =
  bh_os :: string
  bh_arch :: string
  bh_unix :: bool
  bh_out_dir :: "string option"
  bh_exists :: "'fs \<Rightarrow> string \<Rightarrow> bool"
  bh_curl :: "string list \<Rightarrow> 'fs \<Rightarrow> 'fs \<times> bool option"
  bh_run :: "string \<Rightarrow> string list \<Rightarrow> 'fs \<Rightarrow> 'fs \<times> bool option"
  bh_chmod :: "string \<Rightarrow> nat \<Rightarrow> 'fs \<Rightarrow> 'fs"

datatype build_panic =
    OutDirNotSet | UnsupportedOs | UnsupportedArchitecture | CurlNotRun | DownloadFailed | CompilerNotRun | CompilerFailed

section \<open>Names\<close>

definition TAILWIND_VERSION :: string where "TAILWIND_VERSION = ''v4.1.8''"

text \<open>\<open>Path::join\<close> with a relative path.\<close>

definition path_join :: "string \<Rightarrow> string \<Rightarrow> string" where
  "path_join dir name = (if dir = [] \<or> last dir = CHR ''/'' then dir @ name else dir @ CHR ''/'' # name)"

definition tailwind_binary_name :: "'fs build_host \<Rightarrow> build_panic + string" where
  "tailwind_binary_name h =
     bind_result (if bh_os h = ''linux'' then Inr (''linux'', [])
       else if bh_os h = ''macos'' then Inr (''macos'', []) else Inl UnsupportedOs) (\<lambda>(os, ext).
     bind_result (if bh_arch h = ''x86_64'' then Inr ''x64''
       else if bh_arch h = ''aarch64'' then Inr ''arm64'' else Inl UnsupportedArchitecture) (\<lambda>arch.
       Inr (''tailwindcss-'' @ os @ ''-'' @ arch @ ext)))"

definition tailwind_url :: "string \<Rightarrow> string" where
  "tailwind_url binary_name =
     ''https://github.com/tailwindlabs/tailwindcss/releases/download/'' @ TAILWIND_VERSION @ ''/'' @ binary_name"

section \<open>The script\<close>

text \<open>The status of a command: \<open>expect\<close> when it cannot be run, \<open>assert!\<close> on its success.\<close>

definition succeeded :: "build_panic \<Rightarrow> build_panic \<Rightarrow> bool option \<Rightarrow> build_panic + unit" where
  "succeeded not_run failed status =
     (case status of None \<Rightarrow> Inl not_run | Some ok \<Rightarrow> if ok then Inr () else Inl failed)"

definition download_tailwind :: "'fs build_host \<Rightarrow> string \<Rightarrow> string \<Rightarrow> 'fs \<Rightarrow> 'fs \<times> (build_panic + unit)" where
  "download_tailwind h dest binary_name fs =
     (let (fs, status) = bh_curl h [''-sSL'', ''-o'', dest, tailwind_url binary_name] fs
      in case succeeded CurlNotRun DownloadFailed status of
           Inl e \<Rightarrow> (fs, Inl e)
         | Inr _ \<Rightarrow> (if bh_unix h then bh_chmod h dest 493 fs else fs, Inr ()))"

text \<open>The mode \<open>0o755\<close> is 493; a failure to set it is ignored.\<close>

definition compile_styles :: "'fs build_host \<Rightarrow> string \<Rightarrow> string \<Rightarrow> 'fs \<Rightarrow> 'fs \<times> (build_panic + unit)" where
  "compile_styles h binary_path output fs =
     (let (fs, status) = bh_run h binary_path [''-i'', ''static/css/input.css'', ''-o'', output, ''--minify''] fs
      in (fs, succeeded CompilerNotRun CompilerFailed status))"

text \<open>The answer is the list of the directives that the script prints for Cargo.\<close>

definition build_main :: "'fs build_host \<Rightarrow> 'fs \<Rightarrow> 'fs \<times> (build_panic + string list)" where
  "build_main h fs =
     (case bind_result (ok_or OutDirNotSet (bh_out_dir h)) (\<lambda>out_dir.
             bind_result (tailwind_binary_name h) (\<lambda>binary_name. Inr (out_dir, binary_name))) of
        Inl e \<Rightarrow> (fs, Inl e)
      | Inr (out_dir, binary_name) \<Rightarrow>
          let binary_path = path_join out_dir binary_name;
              output = path_join out_dir ''styles.css'';
              (fs, downloaded) = (if bh_exists h fs binary_path then (fs, Inr ())
                else download_tailwind h binary_path binary_name fs)
          in case downloaded of
               Inl e \<Rightarrow> (fs, Inl e)
             | Inr _ \<Rightarrow>
                 (case compile_styles h binary_path output fs of
                    (fs, Inl e) \<Rightarrow> (fs, Inl e)
                  | (fs, Inr _) \<Rightarrow>
                      (fs, Inr [''cargo:rerun-if-changed=static/css/input.css'', ''cargo:rerun-if-changed=templates/'',
                         ''cargo:rustc-env=TAILWIND_CSS_PATH='' @ output])))"

section \<open>What a build leaves behind\<close>

lemma binary_name_ok:
  "tailwind_binary_name h = Inr name \<Longrightarrow> bh_os h \<in> {''linux'', ''macos''} \<and> bh_arch h \<in> {''x86_64'', ''aarch64''}"
  by (auto simp: tailwind_binary_name_def split: if_splits)

lemma compile_styles_Inr:
  "compile_styles h b output fs = (fs', Inr u) \<Longrightarrow>
    bh_run h b [''-i'', ''static/css/input.css'', ''-o'', output, ''--minify''] fs = (fs', Some True)"
  by (auto simp: compile_styles_def succeeded_def split_beta prod_eq_iff split: option.splits if_splits)

text \<open>
  A build that succeeds has run the compiler on the style sheet of the repository with success, and hands
  the path of its output to the crate.
\<close>

lemma build_compiles:
  assumes "build_main h fs = (fs', Inr directives)"
  shows "\<exists>out_dir name fs0. bh_out_dir h = Some out_dir \<and> tailwind_binary_name h = Inr name
    \<and> bh_run h (path_join out_dir name)
        [''-i'', ''static/css/input.css'', ''-o'', path_join out_dir ''styles.css'', ''--minify''] fs0 = (fs', Some True)
    \<and> last directives = ''cargo:rustc-env=TAILWIND_CSS_PATH='' @ path_join out_dir ''styles.css''"
proof -
  obtain out_dir name where ok: "bh_out_dir h = Some out_dir" "tailwind_binary_name h = Inr name"
    using assms by (cases "bh_out_dir h"; cases "tailwind_binary_name h") (simp_all add: build_main_def)
  obtain fs0 u where run: "compile_styles h (path_join out_dir name) (path_join out_dir ''styles.css'') fs0 = (fs', Inr u)"
    and out: "last directives = ''cargo:rustc-env=TAILWIND_CSS_PATH='' @ path_join out_dir ''styles.css''"
    using assms ok by (auto simp: build_main_def Let_def split: sum.splits prod.splits if_splits)
  show ?thesis by (intro exI conjI) (rule ok, rule ok, rule compile_styles_Inr [OF run], rule out)
qed

text \<open>A compiler that is there is not downloaded again.\<close>

lemma cached_compiler_is_used:
  assumes "bh_out_dir h = Some out_dir" "tailwind_binary_name h = Inr name" "bh_exists h fs (path_join out_dir name)"
  shows "build_main h fs = build_main (h\<lparr>bh_curl := curl\<rparr>) fs"
proof -
  have "tailwind_binary_name (h\<lparr>bh_curl := curl\<rparr>) = tailwind_binary_name h" by (simp add: tailwind_binary_name_def)
  then show ?thesis using assms by (simp add: build_main_def compile_styles_def ok_or_def)
qed

text \<open>
  A download that fails after it has created the file is never repaired: the build fails, and every later
  one takes the partial file, without the permission to execute it, for the compiler.
\<close>

lemma partial_download_is_kept:
  assumes "bh_out_dir h = Some out_dir" "tailwind_binary_name h = Inr name"
    and "\<not> bh_exists h fs (path_join out_dir name)"
    and "bh_curl h [''-sSL'', ''-o'', path_join out_dir name, tailwind_url name] fs = (fs', Some False)"
    and "bh_exists h fs' (path_join out_dir name)" "\<And>args. bh_run h (path_join out_dir name) args fs' = (fs', None)"
  shows "build_main h fs = (fs', Inl DownloadFailed)" "build_main h fs' = (fs', Inl CompilerNotRun)"
  using assms by (simp_all add: build_main_def download_tailwind_def compile_styles_def succeeded_def ok_or_def Let_def)

end
