(* ===== verification/Documented.thy ===== *)
theory Documented
  imports Where "HOL-Library.Sublist"
begin

text \<open>
  What the query language is documented to mean (\<open>shspectr-common/src/filter.rs\<close> and the comments of
  \<open>shspectr-web/src/domain/filter.rs\<close>), stated without the WHERE clause in mind, and where the clause of
  \<open>infrastructure/repositories/event.rs\<close> keeps to it and where it does not.
\<close>

section \<open>The documented meaning\<close>

text \<open>The last component of a path, as characters: what follows its last slash.\<close>

definition base_name :: "string list \<Rightarrow> string list" where
  "base_name cs = rev (takeWhile (\<lambda>c. c \<noteq> ''/'') (rev cs))"

text \<open>
  Names and paths are globs with alternatives, a command is a glob on the base name of the file, a session
  is a prefix, a user is a user id or a name (a name that nobody has matches nobody), the other keywords
  compare numbers, and bare words are a substring of the name, the file or the arguments. LIKE ignores the
  case of ASCII letters. A keyword that is negated selects the rows that it would not.
\<close>

definition documented_match :: "passwd_cache \<Rightarrow> event_filter \<Rightarrow> event_row \<Rightarrow> bool" where
  "documented_match cache f r \<longleftrightarrow>
     er_event_type r = int_u32 (event_type_as_wire Exec)
     \<and> negatable (f_user f) (\<lambda>v. \<exists>uid. user_uid cache v = Some uid \<and> er_uid r = int_u32 uid)
     \<and> negatable (f_comm f) (\<lambda>v. has_text (\<lambda>s. \<exists>alt \<in> set (str_split (CHR ''|'') v). glob (str_chars alt) (str_chars s)) (er_comm r))
     \<and> negatable (f_exit_code f) (\<lambda>v. er_exit_code r = Some (sint v))
     \<and> negatable (f_session_id f) (\<lambda>v. prefix (folded v) (folded (er_session_id r)))
     \<and> negatable (f_pid f) (\<lambda>v. er_pid r = int_u32 v)
     \<and> negatable (f_ppid f) (\<lambda>v. er_ppid r = int_u32 v)
     \<and> negatable (f_gid f) (\<lambda>v. er_gid r = int_u32 v)
     \<and> negatable (f_euid f) (\<lambda>v. er_euid r = int_u32 v)
     \<and> negatable (f_tty f) (\<lambda>v. er_tty_nr r = Some (int_u32 v))
     \<and> negatable (f_file f) (\<lambda>v. has_text (\<lambda>s. \<exists>alt \<in> set (str_split (CHR ''|'') v). glob (str_chars alt) (str_chars s)) (er_filename r))
     \<and> negatable (f_cmd f) (\<lambda>v. has_text (\<lambda>s. \<exists>alt \<in> set (str_split (CHR ''|'') v). glob (str_chars alt) (base_name (str_chars s))) (er_filename r))
     \<and> (case f_text f of None \<Rightarrow> True | Some t \<Rightarrow>
          \<exists>x \<in> {er_comm r, er_filename r, er_argv r}. has_text (\<lambda>s. sublist (folded t) (folded s)) x)"

text \<open>
  Where the clause keeps to it: the session has no alternatives; the user, unless negated, resolves; no
  alternative of the command has a slash, a question mark, or a star other than as its first character;
  and the file of the row, when there is a command to compare it with, has a directory.
\<close>

definition plain_command :: "string list \<Rightarrow> bool" where
  "plain_command p \<longleftrightarrow> ''/'' \<notin> set p \<and> ''?'' \<notin> set p \<and> ''*'' \<notin> set (tl p)"

definition within_documentation :: "passwd_cache \<Rightarrow> event_filter \<Rightarrow> event_row \<Rightarrow> bool" where
  "within_documentation cache f r \<longleftrightarrow>
     (case f_session_id f of None \<Rightarrow> True | Some fv \<Rightarrow> CHR ''|'' \<notin> set (fv_value fv))
     \<and> (case f_user f of None \<Rightarrow> True | Some fv \<Rightarrow> fv_negated fv \<or> user_uid cache (fv_value fv) \<noteq> None)
     \<and> (case f_cmd f of None \<Rightarrow> True | Some fv \<Rightarrow>
          list_all (\<lambda>alt. plain_command (str_chars alt)) (str_split (CHR ''|'') (fv_value fv))
          \<and> (case er_filename r of None \<Rightarrow> True | Some s \<Rightarrow> ''/'' \<in> set (str_chars s)))"

section \<open>Base names\<close>

lemma base_name_last:
  assumes "cs = u @ ''/'' # rest" "''/'' \<notin> set rest"
  shows "base_name cs = rest"
proof -
  have "rev cs = rev rest @ ''/'' # rev u" unfolding assms(1) by simp
  moreover have "takeWhile (\<lambda>c. c \<noteq> ''/'') (rev rest @ ''/'' # rev u) = rev rest"
    using assms(2) by (intro takeWhile_append_stop) (auto simp: list_all_iff)
  ultimately show ?thesis by (simp add: base_name_def)
qed

lemma base_name_split:
  assumes "''/'' \<in> set cs"
  obtains u where "cs = u @ ''/'' # base_name cs" "''/'' \<notin> set (base_name cs)"
proof -
  obtain u rest where "cs = u @ ''/'' # rest" "''/'' \<notin> set rest"
    using split_list_last [OF assms] by blast
  with base_name_last [OF this] that show thesis by blast
qed

lemma folds_to_slash: "fold_char c = ''/'' \<longleftrightarrow> c = ''/''"
  by (cases "c = []") (simp_all add: fold_slash, simp add: fold_char_def)

lemma glob_literal: "''*'' \<notin> set p \<Longrightarrow> ''?'' \<notin> set p \<Longrightarrow> glob p s \<longleftrightarrow> map fold_char s = map fold_char p"
proof (induction p arbitrary: s)
  case (Cons c p)
  then show ?case by (cases s) (auto simp: glob.simps(2))
qed simp

lemma glob_star: "glob (''*'' # p) s \<longleftrightarrow> (\<exists>a b. s = a @ b \<and> glob p b)"
proof (induction s)
  case Nil
  show ?case by (simp add: glob.simps(2))
next
  case (Cons x s)
  have "glob (''*'' # p) (x # s) \<longleftrightarrow> glob p (x # s) \<or> glob (''*'' # p) s" by (subst glob.simps(2)) simp
  also have "\<dots> \<longleftrightarrow> (\<exists>a b. x # s = a @ b \<and> glob p b)"
    unfolding Cons.IH by (auto simp: Cons_eq_append_conv)
  finally show ?case .
qed

lemma literal_without_slash:
  assumes "map fold_char s = map fold_char p" "''/'' \<notin> set p"
  shows "''/'' \<notin> set s"
proof -
  have "''/'' \<notin> fold_char ` set p" using assms(2) folds_to_slash by (metis imageE)
  then have "''/'' \<notin> fold_char ` set s" using arg_cong [OF assms(1), of set] by simp
  then show ?thesis using folds_to_slash by (metis imageI)
qed

lemma plain_glob_suffix:
  assumes "plain_command p" "glob p rest" "cs = u @ ''/'' # rest"
  shows "glob p (base_name cs)"
proof (cases "\<exists>q. p = ''*'' # q")
  case True
  then obtain q where p: "p = ''*'' # q" by blast
  then have q: "''/'' \<notin> set q" "''?'' \<notin> set q" "''*'' \<notin> set q" using assms(1) by (simp_all add: plain_command_def)
  obtain a b where b: "rest = a @ b" "glob q b" using assms(2) unfolding p glob_star by blast
  then have "''/'' \<notin> set b" using literal_without_slash q glob_literal by metis
  have "''/'' \<in> set cs" unfolding assms(3) by simp
  then obtain v where v: "cs = v @ ''/'' # base_name cs" "''/'' \<notin> set (base_name cs)" by (rule base_name_split)
  have "suffix b cs" unfolding assms(3) b(1) by (simp add: suffix_def)
  moreover have "suffix (''/'' # base_name cs) cs" using v(1) unfolding suffix_def by blast
  ultimately have "suffix b (''/'' # base_name cs) \<or> suffix (''/'' # base_name cs) b" by (rule suffix_same_cases)
  moreover have "\<not> suffix (''/'' # base_name cs) b" using \<open>''/'' \<notin> set b\<close> by (auto simp: suffix_def)
  ultimately have "suffix b (base_name cs)" using \<open>''/'' \<notin> set b\<close> by (auto simp: suffix_Cons)
  then show ?thesis using b(2) unfolding p glob_star suffix_def by blast
next
  case False
  then have "''*'' \<notin> set p" "''?'' \<notin> set p" "''/'' \<notin> set p"
    using assms(1) by (cases p; auto simp: plain_command_def)+
  then have "''/'' \<notin> set rest" using assms(2) literal_without_slash glob_literal by metis
  then show ?thesis using base_name_last [OF assms(3)] assms(2) by simp
qed

lemma after_slash_split: "after_slash alt s \<longleftrightarrow> (\<exists>u rest. str_chars s = u @ ''/'' # rest \<and> glob (str_chars alt) rest)"
proof -
  have "after_slash alt s \<longleftrightarrow> (\<exists>n \<le> length (str_chars s). \<exists>rest. drop n (str_chars s) = ''/'' # rest \<and> glob (str_chars alt) rest)"
  proof -
    have "(case t of [] \<Rightarrow> False | x # rest \<Rightarrow> x = ''/'' \<and> glob (str_chars alt) rest) \<longleftrightarrow>
        (\<exists>rest. t = ''/'' # rest \<and> glob (str_chars alt) rest)" for t
      by (cases t) auto
    then show ?thesis
      unfolding after_slash_def tails_def list_ex_iff by (auto simp: less_Suc_eq_le simp del: upt_Suc)
  qed
  also have "\<dots> \<longleftrightarrow> (\<exists>u rest. str_chars s = u @ ''/'' # rest \<and> glob (str_chars alt) rest)"
  proof
    assume "\<exists>n \<le> length (str_chars s). \<exists>rest. drop n (str_chars s) = ''/'' # rest \<and> glob (str_chars alt) rest"
    then show "\<exists>u rest. str_chars s = u @ ''/'' # rest \<and> glob (str_chars alt) rest" by (metis append_take_drop_id)
  next
    assume "\<exists>u rest. str_chars s = u @ ''/'' # rest \<and> glob (str_chars alt) rest"
    then obtain u rest where *: "str_chars s = u @ ''/'' # rest" "glob (str_chars alt) rest" by blast
    then show "\<exists>n \<le> length (str_chars s). \<exists>rest. drop n (str_chars s) = ''/'' # rest \<and> glob (str_chars alt) rest"
      by (intro exI [of _ "length u"]) simp
  qed
  finally show ?thesis .
qed

lemma command_is_base_name:
  assumes "plain_command (str_chars alt)" "''/'' \<in> set (str_chars s)"
  shows "after_slash alt s \<longleftrightarrow> glob (str_chars alt) (base_name (str_chars s))"
  unfolding after_slash_split using plain_glob_suffix [OF assms(1)] base_name_split [OF assms(2)] by metis

section \<open>Prefixes, substrings, users\<close>

lemma starts_is_prefix: "starts_folded v s \<longleftrightarrow> prefix (folded v) (folded s)"
  unfolding starts_folded_def prefix_def by (metis append_eq_conv_conj)

lemma contains_is_sublist: "contains_folded v s \<longleftrightarrow> sublist (folded v) (folded s)"
proof
  assume "contains_folded v s"
  then obtain n where "take (length (folded v)) (drop n (folded s)) = folded v"
    by (auto simp: contains_folded_def tails_def list_ex_iff simp del: upt_Suc)
  then have "folded s = take n (folded s) @ folded v @ drop (length (folded v)) (drop n (folded s))"
    by (metis append_take_drop_id)
  then show "sublist (folded v) (folded s)" unfolding sublist_def by blast
next
  assume "sublist (folded v) (folded s)"
  then obtain a b where "folded s = a @ folded v @ b" by (auto simp: sublist_def)
  then have "length a \<le> length (folded s)" "take (length (folded v)) (drop (length a) (folded s)) = folded v" by simp_all
  then show "contains_folded v s"
    by (auto simp: contains_folded_def tails_def list_ex_iff less_Suc_eq_le simp del: upt_Suc intro!: exI [of _ "length a"])
qed

lemma single_session:
  assumes "CHR ''|'' \<notin> set v"
  shows "session_matches v s \<longleftrightarrow> prefix (folded v) (folded s)"
  using str_split_none [OF assms] by (simp add: session_matches_def starts_is_prefix)

lemma plain_commands:
  assumes "list_all (\<lambda>alt. plain_command (str_chars alt)) (str_split (CHR ''|'') v)"
    "\<forall>s. x = Some s \<longrightarrow> ''/'' \<in> set (str_chars s)"
  shows "has_text (any_alternative after_slash v) x \<longleftrightarrow>
    has_text (\<lambda>s. \<exists>alt \<in> set (str_split (CHR ''|'') v). glob (str_chars alt) (base_name (str_chars s))) x"
  using assms command_is_base_name
  by (cases x) (auto simp: has_text_def any_alternative_def list_ex_iff list_all_iff)

lemma any_glob: "any_alternative glob_match v s \<longleftrightarrow> (\<exists>alt \<in> set (str_split (CHR ''|'') v). glob (str_chars alt) (str_chars s))"
  by (simp add: any_alternative_def list_ex_iff glob_match_def)

lemma resolved_user:
  assumes "case m of None \<Rightarrow> True | Some fv \<Rightarrow> fv_negated fv \<or> user_uid cache (fv_value fv) \<noteq> None"
  shows "(case m of None \<Rightarrow> True | Some fv \<Rightarrow>
      (case user_uid cache (fv_value fv) of None \<Rightarrow> True | Some uid \<Rightarrow> fv_negated fv \<noteq> (er_uid r = int_u32 uid)))
    \<longleftrightarrow> negatable m (\<lambda>v. \<exists>uid. user_uid cache v = Some uid \<and> er_uid r = int_u32 uid)"
  using assms by (auto simp: negatable_def split: option.splits)

lemma accepts_as_documented:
  assumes "within_documentation cache f r"
  shows "filter_accepts cache f r \<longleftrightarrow> documented_match cache f r"
proof -
  have user: "(case f_user f of None \<Rightarrow> True | Some fv \<Rightarrow>
      (case user_uid cache (fv_value fv) of None \<Rightarrow> True | Some uid \<Rightarrow> fv_negated fv \<noteq> (er_uid r = int_u32 uid)))
    \<longleftrightarrow> negatable (f_user f) (\<lambda>v. \<exists>uid. user_uid cache v = Some uid \<and> er_uid r = int_u32 uid)"
    using assms by (intro resolved_user) (simp add: within_documentation_def)
  have session: "negatable (f_session_id f) (\<lambda>v. session_matches v (er_session_id r)) \<longleftrightarrow>
      negatable (f_session_id f) (\<lambda>v. prefix (folded v) (folded (er_session_id r)))"
    using assms by (auto simp: within_documentation_def negatable_def single_session split: option.splits)
  have command: "negatable (f_cmd f) (\<lambda>v. has_text (any_alternative after_slash v) (er_filename r)) \<longleftrightarrow>
      negatable (f_cmd f) (\<lambda>v. has_text (\<lambda>s. \<exists>alt \<in> set (str_split (CHR ''|'') v).
        glob (str_chars alt) (base_name (str_chars s))) (er_filename r))"
  proof (cases "f_cmd f")
    case (Some fv)
    have "has_text (any_alternative after_slash (fv_value fv)) (er_filename r) \<longleftrightarrow>
        has_text (\<lambda>s. \<exists>alt \<in> set (str_split (CHR ''|'') (fv_value fv)). glob (str_chars alt) (base_name (str_chars s))) (er_filename r)"
      using assms Some by (intro plain_commands) (auto simp: within_documentation_def)
    then show ?thesis by (simp add: negatable_def Some)
  qed (simp add: negatable_def)
  have bare: "has_text (contains_folded v) x \<longleftrightarrow> has_text (\<lambda>s. sublist (folded v) (folded s)) x" for v x
    by (cases x) (simp_all add: has_text_def contains_is_sublist)
  show ?thesis
    unfolding filter_accepts_def documented_match_def user session command bare any_glob [abs_def]
    by (auto split: option.splits)
qed

section \<open>The clause\<close>

text \<open>
  C7: The WHERE clause that the repository builds selects exactly the rows that the documentation of the
  query language promises (\<open>documented_match\<close>), with all its placeholders bound, for every filter and row
  within these limits: the session has no alternatives, a user that is not negated resolves, the
  alternatives of a command have a wildcard only as a star in front and no slash, and the row's file, if
  there is a command to compare it with, has a directory. Names, paths and commands are compared as globs,
  the command with the base name of the file, a session by prefix, numbers by equality, and bare words as
  a substring of the name, the file or the arguments, up to the case of ASCII letters; a row whose column
  is NULL matches nothing, so exactly the negated conditions accept it.
\<close>

theorem where_clause_as_documented:
  assumes "valid_filter f" "within_documentation cache f r"
  shows "selects (where_conditions cache f) r = documented_match cache f r
    \<and> list_all (\<lambda>c. params_upto (length (snd (where_conditions cache f))) c \<and> closed_cond c)
         (fst (where_conditions cache f))
    \<and> build_where_clause cache f =
        (''WHERE '' @ render (AllOf (fst (where_conditions cache f))), snd (where_conditions cache f))"
  using where_clause_meaning [OF assms(1), of cache r] accepts_as_documented [OF assms(2)] by simp

text \<open>A command with a star in front and an alternative, a negated exit code that is not there, and a process id.\<close>

definition sample_filter :: event_filter where
  "sample_filter = event_filter_default\<lparr>
     f_cmd := Some \<lparr>fv_value = ''rg|*s'', fv_negated = False\<rparr>,
     f_exit_code := Some \<lparr>fv_value = 1, fv_negated = True\<rparr>,
     f_pid := Some \<lparr>fv_value = 7, fv_negated = False\<rparr>\<rparr>"

lemma sample_chars:
  "str_chars ''*s'' = [''*'', ''s'']" "str_chars ''rg'' = [''r'', ''g'']"
  "str_chars ''/bin/ls'' = [''/'', ''b'', ''i'', ''n'', ''/'', ''l'', ''s'']"
  by (simp_all add: str_chars_ascii u8_of_char_def)

theorem where_clause_as_documented_witness:
  "selects (where_conditions [] sample_filter) sample_event_row
   \<and> \<not> selects (where_conditions [] sample_filter) (sample_event_row\<lparr>er_pid := 8\<rparr>)"
proof -
  have valid: "valid_filter sample_filter"
    by (simp add: sample_filter_def event_filter_default_def valid_filter_def valid_ascii u8_of_char_def)
  have within: "within_documentation [] sample_filter r" if "er_filename r = Some ''/bin/ls''" for r
    using that by (simp add: within_documentation_def sample_filter_def event_filter_default_def sample_chars plain_command_def)
  have "glob (''*'' # [''s'']) [''l'', ''s'']" by (simp add: glob.simps(2))
  moreover have "base_name [''/'', ''b'', ''i'', ''n'', ''/'', ''l'', ''s''] = [''l'', ''s'']" by (simp add: base_name_def)
  ultimately have "documented_match [] sample_filter sample_event_row"
    by (simp add: documented_match_def sample_filter_def sample_event_row_def event_filter_default_def
        negatable_def has_text_def int_u32_def sample_chars)
  moreover have "\<not> documented_match [] sample_filter (sample_event_row\<lparr>er_pid := 8\<rparr>)"
    by (simp add: documented_match_def sample_filter_def sample_event_row_def event_filter_default_def
        negatable_def int_u32_def)
  ultimately show ?thesis
    using where_clause_as_documented [OF valid within, of sample_event_row]
      where_clause_as_documented [OF valid within, of "sample_event_row\<lparr>er_pid := 8\<rparr>"]
    by (simp add: sample_event_row_def)
qed

section \<open>Where they part\<close>

text \<open>
  A command is compared with whatever follows some slash: with a wildcard it also matches a directory and
  what is below it. A file without a directory has no slash, and no command matches it.
\<close>

lemma command_wildcard_matches_directories:
  "after_slash ''b*'' ''/bin/ls'' \<and> \<not> glob (str_chars ''b*'') (base_name (str_chars ''/bin/ls''))"
proof -
  have chars: "str_chars ''b*'' = [''b'', ''*'']" by (simp add: str_chars_ascii u8_of_char_def)
  have "glob [''b'', ''*''] [''b'', ''i'', ''n'', ''/'', ''l'', ''s'']" "\<not> glob [''b'', ''*''] [''l'', ''s'']"
    by (simp_all add: glob.simps(2) fold_char_def u8_of_char_def char_of_u8_def)
  moreover have "[''/'', ''b'', ''i'', ''n'', ''/'', ''l'', ''s''] = [] @ ''/'' # [''b'', ''i'', ''n'', ''/'', ''l'', ''s'']" by simp
  moreover have "base_name [''/'', ''b'', ''i'', ''n'', ''/'', ''l'', ''s''] = [''l'', ''s'']" by (simp add: base_name_def)
  ultimately show ?thesis unfolding after_slash_split chars sample_chars by metis
qed

lemma command_without_directory:
  "\<not> after_slash ''ls'' ''ls'' \<and> glob (str_chars ''ls'') (base_name (str_chars ''ls''))"
proof -
  have chars: "str_chars ''ls'' = [''l'', ''s'']" by (simp add: str_chars_ascii u8_of_char_def)
  have "[''l'', ''s''] \<noteq> u @ ''/'' # rest" for u rest by (auto simp: Cons_eq_append_conv)
  then show ?thesis unfolding after_slash_split chars base_name_def by (simp add: glob.simps(2))
qed

text \<open>A user whom nobody knows, not negated, adds no condition: every row is selected instead of none.\<close>

lemma unknown_user_selects_all:
  assumes "user_uid cache v = None" "er_event_type r = 0"
  shows "filter_accepts cache (event_filter_default\<lparr>f_user := Some \<lparr>fv_value = v, fv_negated = False\<rparr>\<rparr>) r
    \<and> \<not> documented_match cache (event_filter_default\<lparr>f_user := Some \<lparr>fv_value = v, fv_negated = False\<rparr>\<rparr>) r"
  using assms by (simp add: filter_accepts_def documented_match_def event_filter_default_def negatable_def int_u32_def)

end
