(* ===== verification/SinkContract.thy ===== *)
theory SinkContract
  imports SqliteSink
begin

text \<open>
  What one call of the SQLite sink does to the database, stated as a contract over the two tables: which
  rows it may add, which values of which rows it may change, and what it has done when its statements are
  answered. The contract knows nothing of statements or their order.
\<close>

section \<open>The contract\<close>

text \<open>
  A stored event stays as it is. Only the newest exec row of an execution gets an exit code, from an exit
  call of this execution.
\<close>

definition event_kept :: "sink_call \<Rightarrow> event_row list \<Rightarrow> event_row \<Rightarrow> event_row \<Rightarrow> bool" where
  "event_kept c rows r r' \<longleftrightarrow> r' = r
     \<or> (\<exists>si e complete. c = CallExit si e complete
          \<and> newest_exec (si_session_id si) (pe_pid e) (pe_execution_id e) rows r
          \<and> r' = r\<lparr>er_exit_code := Some (sint (pe_exit_code e))\<rparr>)"

text \<open>A stored session stays as it is. Only an exit call that completes it sets its end.\<close>

definition session_kept :: "sink_call \<Rightarrow> session_row \<Rightarrow> session_row \<Rightarrow> bool" where
  "session_kept c s s' \<longleftrightarrow> s' = s
     \<or> (\<exists>si e t. c = CallExit si e True \<and> sr_id s = si_session_id si \<and> s' = s\<lparr>sr_ended_at := Some t\<rparr>)"

text \<open>The events: all that were stored, in their order, and at most the row of the call, under a new id.\<close>

definition events_extended :: "sql_env \<Rightarrow> sink_call \<Rightarrow> database \<Rightarrow> database \<Rightarrow> bool" where
  "events_extended env c db db' \<longleftrightarrow>
     (\<exists>olds new. db_events db' = olds @ new \<and> list_all2 (event_kept c (db_events db)) (db_events db) olds
        \<and> new \<in> {[], [(call_row env c)\<lparr>er_id := db_seq db + 1\<rparr>]})"

text \<open>The sessions: all that were stored, and at most the session of an exec call that had none.\<close>

definition sessions_extended :: "sql_env \<Rightarrow> sink_call \<Rightarrow> database \<Rightarrow> database \<Rightarrow> bool" where
  "sessions_extended env c db db' \<longleftrightarrow>
     (\<exists>olds new. db_sessions db' = olds @ new \<and> list_all2 (session_kept c) (db_sessions db) olds
        \<and> (new = [] \<or> (\<exists>si e. c = CallExec si e \<and> \<not> session_exists (si_session_id si) db
              \<and> new = [session_row_of (se_now env 0) si])))"

text \<open>
  The call is done: its row is stored, its session too if it is an exec call, and after an exit call the
  newest exec row of the execution has the exit code, and a completed session its end.
\<close>

definition call_done :: "sql_env \<Rightarrow> sink_call \<Rightarrow> database \<Rightarrow> database \<Rightarrow> bool" where
  "call_done env c db db' \<longleftrightarrow>
     (call_row env c)\<lparr>er_id := db_seq db + 1\<rparr> \<in> set (db_events db')
     \<and> (case c of
          CallExec si e \<Rightarrow> session_exists (si_session_id si) db'
        | CallExit si e complete \<Rightarrow>
            (\<forall>r \<in> set (db_events db). newest_exec (si_session_id si) (pe_pid e) (pe_execution_id e) (db_events db) r \<longrightarrow>
               r\<lparr>er_exit_code := Some (sint (pe_exit_code e))\<rparr> \<in> set (db_events db'))
            \<and> (complete \<longrightarrow> (\<forall>s \<in> set (db_sessions db'). sr_id s = si_session_id si \<longrightarrow> sr_ended_at s \<noteq> None))
        | CallIo _ _ _ \<Rightarrow> True)"

section \<open>The calls keep it\<close>

lemma event_kept_refl [simp]: "event_kept c rows r r"
  by (simp add: event_kept_def)

lemma session_kept_refl [simp]: "session_kept c s s"
  by (simp add: session_kept_def)

lemma all_kept [simp]: "list_all2 (event_kept c rows) xs xs" "list_all2 (session_kept c) ss ss"
  by (simp_all add: list_all2_refl)

lemma nothing_extended:
  "db_events db' = db_events db \<Longrightarrow> events_extended env c db db'"
  "db_sessions db' = db_sessions db \<Longrightarrow> sessions_extended env c db db'"
  unfolding events_extended_def sessions_extended_def by (metis all_kept append_Nil2 insertI1)+

lemma row_extended:
  "db_events db' = db_events db @ [(call_row env c)\<lparr>er_id := db_seq db + 1\<rparr>] \<Longrightarrow> events_extended env c db db'"
  unfolding events_extended_def by (metis all_kept(1) insertCI)

lemma insert_run:
  assumes "sql_run env n (insert_event r) db = (db', ok)"
  shows "db' = (if ok then db\<lparr>db_events := db_events db @ [r\<lparr>er_id := db_seq db + 1\<rparr>], db_seq := db_seq db + 1\<rparr> else db)"
  using assms by (auto simp: sql_run_def insert_event_def Let_def split: if_splits)

lemma insert_run_ok:
  assumes "\<not> se_fails env n" "db_seq db < I64_MAX" "db_fk db \<longrightarrow> session_exists (er_session_id r) db"
  shows "sql_run env n (insert_event r) db
    = (db\<lparr>db_events := db_events db @ [r\<lparr>er_id := db_seq db + 1\<rparr>], db_seq := db_seq db + 1\<rparr>, True)"
  using assms by (simp add: sql_run_def insert_event_def Let_def)

lemma kept_map:
  assumes "\<And>x. x \<in> set xs \<Longrightarrow> P x (g x)"
  shows "list_all2 P xs (map g xs)"
  using assms by (simp add: list_all2_map2 list.rel_refl_strong)

text \<open>The tables after an exit call, for each of the three statements it can stop at.\<close>

lemma exit_tables:
  assumes "wf_database db" "sqlite_on_exit env si e complete db = db'"
  obtains "db' = db"
  | p ended where "db_events db' = map (\<lambda>r. if p \<and> newest_exec (si_session_id si) (pe_pid e) (pe_execution_id e) (db_events db) r
        then r\<lparr>er_exit_code := Some (sint (pe_exit_code e))\<rparr> else r) (db_events db)
        @ [(exit_row (se_now env 0) (si_session_id si) e)\<lparr>er_id := db_seq db + 1\<rparr>]"
      "db_sessions db' = map (\<lambda>r. if ended \<and> sr_id r = si_session_id si
        then r\<lparr>sr_ended_at := Some (se_now env 2)\<rparr> else r) (db_sessions db)"
      "ended \<longrightarrow> complete" "\<not> se_fails env 1 \<longrightarrow> p" "\<not> se_fails env 1 \<and> \<not> se_fails env 2 \<and> complete \<longrightarrow> ended"
proof -
  let ?x = "(exit_row (se_now env 0) (si_session_id si) e)\<lparr>er_id := db_seq db + 1\<rparr>"
  let ?db1 = "db\<lparr>db_events := db_events db @ [?x], db_seq := db_seq db + 1\<rparr>"
  let ?fill = "\<lambda>p r. if p \<and> newest_exec (si_session_id si) (pe_pid e) (pe_execution_id e) (db_events db) r
      then r\<lparr>er_exit_code := Some (sint (pe_exit_code e))\<rparr> else r"
  let ?close = "\<lambda>ended r. if ended \<and> sr_id r = si_session_id si then r\<lparr>sr_ended_at := Some (se_now env 2)\<rparr> else r"
  obtain db1 ok1 where 1: "sql_run env 0 (insert_event (exit_row (se_now env 0) (si_session_id si) e)) db = (db1, ok1)" by fastforce
  note run = insert_run [OF 1]
  show thesis
  proof (cases ok1)
    case False
    then have "db' = db" using assms(2) 1 run by (simp add: sqlite_on_exit_def insert_exit_def)
    then show thesis by (rule that(1))
  next
    case True
    then have db1: "db1 = ?db1" using run by simp
    let ?db2 = "backfill_exit_code (si_session_id si) e ?db1"
    have rows: "db_events ?db2 = map (?fill True) (db_events db) @ [?x]"
      using backfill_rows_exact [OF assms(1) exit_row_no_exec, where n = "db_seq db + 1"] by simp
    have same: "db_sessions ?db2 = db_sessions db" by (simp add: backfill_exit_code_def Let_def update_events_def)
    have plain: "map (?fill False) rs = rs" "map (?close False) ss = ss" for rs ss by simp_all
    show thesis
    proof (cases "se_fails env 1")
      case True
      then have "db' = ?db1" using assms(2) 1 \<open>ok1\<close> db1 by (simp add: sqlite_on_exit_def insert_exit_def sql_run_def)
      then show thesis using True by (intro that(2) [of False False]) simp_all
    next
      case ok: False
      show thesis
      proof (cases "complete \<and> \<not> se_fails env 2")
        case True
        then have "db' = update_sessions (\<lambda>r. sr_id r = si_session_id si) (\<lambda>r. r\<lparr>sr_ended_at := Some (se_now env 2)\<rparr>) ?db2"
          using assms(2) 1 \<open>ok1\<close> db1 ok by (simp add: sqlite_on_exit_def insert_exit_def sql_run_def)
        then show thesis
          using rows same True by (intro that(2) [of True True]) (simp_all add: update_sessions_def)
      next
        case False
        then have "db' = ?db2"
          using assms(2) 1 \<open>ok1\<close> db1 ok by (auto simp: sqlite_on_exit_def insert_exit_def sql_run_def)
        then show thesis using rows same False by (intro that(2) [of True False]) auto
      qed
    qed
  qed
qed

lemma exec_tables:
  "db_sessions (sqlite_on_exec env si e db) \<in> {db_sessions db, db_sessions (insert_session_or_ignore (session_row_of (se_now env 0) si) db)}"
  "db_events (sqlite_on_exec env si e db) \<in> {db_events db, db_events db @ [(call_row env (CallExec si e))\<lparr>er_id := db_seq db + 1\<rparr>]}"
proof -
  let ?db1 = "fst (ensure_session env si db)"
  have 1: "?db1 \<in> {db, insert_session_or_ignore (session_row_of (se_now env 0) si) db}"
    by (simp add: ensure_session_def sql_run_def)
  then have same: "db_events ?db1 = db_events db" "db_seq ?db1 = db_seq db"
    by (auto simp: insert_session_or_ignore_def)
  obtain db2 ok where 2: "insert_exec env (si_session_id si) e ?db1 = (db2, ok)" by fastforce
  note run = insert_run [OF 2 [unfolded insert_exec_def]]
  show "db_sessions (sqlite_on_exec env si e db) \<in> {db_sessions db, db_sessions (insert_session_or_ignore (session_row_of (se_now env 0) si) db)}"
    "db_events (sqlite_on_exec env si e db) \<in> {db_events db, db_events db @ [(call_row env (CallExec si e))\<lparr>er_id := db_seq db + 1\<rparr>]}"
    using 1 same 2 run by (auto simp: sqlite_on_exec_def)
qed

lemma exec_extends:
  "events_extended env (CallExec si e) db (sqlite_on_exec env si e db)"
  "sessions_extended env (CallExec si e) db (sqlite_on_exec env si e db)"
proof -
  show "events_extended env (CallExec si e) db (sqlite_on_exec env si e db)"
    using exec_tables(2) [of env si e db] by (auto intro: nothing_extended row_extended simp del: call_row.simps)
  have "db_sessions (insert_session_or_ignore (session_row_of (se_now env 0) si) db) =
      db_sessions db @ (if session_exists (si_session_id si) db then [] else [session_row_of (se_now env 0) si])"
    by (simp add: insert_session_or_ignore_def session_row_of_def)
  with exec_tables(1) [of env si e db] show "sessions_extended env (CallExec si e) db (sqlite_on_exec env si e db)"
    unfolding sessions_extended_def by (cases "session_exists (si_session_id si) db") (auto, force+)
qed

lemma io_extends:
  "events_extended env (CallIo si e ty) db (sqlite_on_io env si e ty db)"
  "sessions_extended env (CallIo si e ty) db (sqlite_on_io env si e ty db)"
proof -
  obtain db' ok where run: "sql_run env 0 (insert_event (io_row (se_now env 0) (si_session_id si) e ty)) db = (db', ok)" by fastforce
  from insert_run [OF run] run show "events_extended env (CallIo si e ty) db (sqlite_on_io env si e ty db)"
    "sessions_extended env (CallIo si e ty) db (sqlite_on_io env si e ty db)"
    by (auto simp: sqlite_on_io_def insert_io_def intro: nothing_extended row_extended)
qed

lemma exit_extends:
  assumes "wf_database db"
  shows "events_extended env (CallExit si e complete) db (sqlite_on_exit env si e complete db)"
    "sessions_extended env (CallExit si e complete) db (sqlite_on_exit env si e complete db)"
proof -
  obtain db' where db': "sqlite_on_exit env si e complete db = db'" by blast
  have "events_extended env (CallExit si e complete) db db' \<and> sessions_extended env (CallExit si e complete) db db'"
    using assms db'
  proof (cases rule: exit_tables)
    case 1
    then show ?thesis by (simp add: nothing_extended)
  next
    case (2 p ended)
    have "events_extended env (CallExit si e complete) db db'"
      unfolding events_extended_def 2(1) by (intro exI conjI, rule refl, rule kept_map) (auto simp: event_kept_def)
    moreover have "sessions_extended env (CallExit si e complete) db db'"
      unfolding sessions_extended_def 2(2)
      by (rule exI, rule exI [of _ "[]"]) (use 2(3) in \<open>auto intro!: kept_map simp: session_kept_def\<close>)
    ultimately show ?thesis ..
  qed
  then show "events_extended env (CallExit si e complete) db (sqlite_on_exit env si e complete db)"
    "sessions_extended env (CallExit si e complete) db (sqlite_on_exit env si e complete db)" by (simp_all add: db')
qed

lemma call_extends:
  assumes "wf_database db"
  shows "events_extended env c db (sink_do (sqlite_sink env) c db)"
    "sessions_extended env c db (sink_do (sqlite_sink env) c db)"
  using exec_extends io_extends exit_extends [OF assms] by (cases c; simp add: sqlite_sink_def)+

text \<open>What a call needs to be done: its statements are answered, an id is left, and its session is there.\<close>

definition storable :: "sql_env \<Rightarrow> sink_call \<Rightarrow> database \<Rightarrow> bool" where
  "storable env c db \<longleftrightarrow> (\<forall>n. \<not> se_fails env n) \<and> db_seq db < I64_MAX
     \<and> ((\<exists>si e. c = CallExec si e) \<or> session_exists (si_session_id (call_session c)) db)"

lemma exit_is_done:
  assumes "wf_database db" "storable env (CallExit si e complete) db"
  shows "call_done env (CallExit si e complete) db (sqlite_on_exit env si e complete db)"
proof -
  obtain db' where db': "sqlite_on_exit env si e complete db = db'" by blast
  show ?thesis
    unfolding db' using assms(1) db'
  proof (cases rule: exit_tables)
    case 1
    have "sql_run env 0 (insert_event (exit_row (se_now env 0) (si_session_id si) e)) db
        = (db\<lparr>db_events := db_events db @ [(exit_row (se_now env 0) (si_session_id si) e)\<lparr>er_id := db_seq db + 1\<rparr>],
             db_seq := db_seq db + 1\<rparr>, True)"
      using assms(2) by (intro insert_run_ok) (simp_all add: storable_def exit_row_def)
    then have "length (db_events (sqlite_on_exit env si e complete db)) = Suc (length (db_events db))"
      using assms(2)
      by (simp add: sqlite_on_exit_def insert_exit_def sql_run_def storable_def backfill_exit_code_def Let_def
          update_events_def update_sessions_def)
    with 1 db' show "call_done env (CallExit si e complete) db db'" by simp
  next
    case (2 p ended)
    have ended: p "complete \<longrightarrow> ended" using 2(4,5) assms(2) by (simp_all add: storable_def)
    then show "call_done env (CallExit si e complete) db db'" unfolding call_done_def 2(1,2) by auto
  qed
qed

lemma call_is_done:
  assumes "wf_database db" "storable env c db"
  shows "call_done env c db (sink_do (sqlite_sink env) c db)"
proof (cases c)
  case (CallExec si e)
  from assms(2) have "\<not> se_fails env 0" "\<not> se_fails env 1" "db_seq db < I64_MAX" by (simp_all add: storable_def)
  from exec_is_recorded [OF this, of si e] show ?thesis by (simp add: CallExec call_done_def sqlite_sink_def)
next
  case (CallExit si e complete)
  with assms exit_is_done show ?thesis by (simp add: sqlite_sink_def)
next
  case (CallIo si e ty)
  have "sql_run env 0 (insert_event (io_row (se_now env 0) (si_session_id si) e ty)) db
      = (db\<lparr>db_events := db_events db @ [(io_row (se_now env 0) (si_session_id si) e ty)\<lparr>er_id := db_seq db + 1\<rparr>],
           db_seq := db_seq db + 1\<rparr>, True)"
    using assms(2) by (intro insert_run_ok) (simp_all add: storable_def io_row_def CallIo)
  then show ?thesis by (simp add: CallIo call_done_def sqlite_sink_def sqlite_on_io_def insert_io_def)
qed

section \<open>The property\<close>

text \<open>
  C11: Every call of the SQLite sink keeps its contract on every consistent database. Whichever of its
  statements fail, the database stays consistent (session ids are unique; event ids are positive and
  strictly increasing in insertion order; when foreign keys are enforced every event has its session), no
  stored event or session is lost or reordered, the only new event can be the call's own row under the next
  id and the only new session that of an exec call which had none, an exit code changes only in the newest
  exec row of the execution that the call reports the exit of, and the end of a session only in the session
  that the call completes. And when its statements are answered, ids are not exhausted, and an exit or I/O
  call's session is stored, then the call is done: its row is stored, an exec call's session is stored, and
  after an exit call the exec row has the exit code and a completed session its end.
\<close>

theorem sqlite_call_contract:
  assumes "wf_database db"
  shows "wf_database (sink_do (sqlite_sink env) c db)
    \<and> events_extended env c db (sink_do (sqlite_sink env) c db)
    \<and> sessions_extended env c db (sink_do (sqlite_sink env) c db)
    \<and> (storable env c db \<longrightarrow> call_done env c db (sink_do (sqlite_sink env) c db))"
  using sqlite_sink_wf [OF assms] call_extends [OF assms] call_is_done [OF assms] by blast

text \<open>The exit of the sample process: its exec row gets the code, an earlier session its end.\<close>

theorem sqlite_call_contract_witness:
  "\<exists>r x. db_events (sink_do (sqlite_sink sample_sql_env) (CallExit sample_session sample_exit True) sample_db) = [r, x]
    \<and> er_pid r = 7 \<and> er_exit_code r = Some 3 \<and> er_id x = 2"
proof -
  let ?c = "CallExit sample_session sample_exit True"
  let ?db = "sink_do (sqlite_sink sample_sql_env) ?c sample_db"
  let ?r = "(exec_row ''2024-01-01 00:00:00'' ''ls'' ''ox_k7m3qx9p'' sample_exec)\<lparr>er_id := 1\<rparr>"
  let ?x = "(call_row sample_sql_env ?c)\<lparr>er_id := 2\<rparr>" and ?r' = "?r\<lparr>er_exit_code := Some 3\<rparr>"
  have db: "db_events sample_db = [?r]" "db_seq sample_db = 1" "session_exists ''ox_k7m3qx9p'' sample_db"
    by (simp_all add: sample_run Let_def)
  have "storable sample_sql_env ?c sample_db"
    by (simp add: storable_def db I64_MAX_def) (simp add: sample_sql_env_def sample_session_def db)
  with sqlite_call_contract [OF wf_sample_db, of sample_sql_env ?c]
  have stored: "call_done sample_sql_env ?c sample_db ?db" and ext: "events_extended sample_sql_env ?c sample_db ?db" by blast+
  have "newest_exec ''ox_k7m3qx9p'' 7 42 [?r] ?r"
    by (simp add: newest_exec_def exec_of_execution_def exec_row_def sample_exec_def)
  then have in_db: "?x \<in> set (db_events ?db)" "?r' \<in> set (db_events ?db)"
    using stored by (simp_all add: call_done_def db sample_session_def sample_exit_def del: call_row.simps)
  from ext obtain o1 new where new: "db_events ?db = o1 # new" "new \<in> {[], [?x]}"
    by (auto simp: events_extended_def db list_all2_Cons1 simp del: call_row.simps)
  have "er_id ?x = 2" "er_id ?r' = 1" by (simp_all del: call_row.simps)
  then have "?x \<noteq> ?r'" by (metis numeral_eq_one_iff semiring_norm(85))
  with in_db new have "db_events ?db = [?r', ?x]" by (auto simp del: call_row.simps)
  then show ?thesis by (simp add: exec_row_def sample_exec_def int_u32_def)
qed

end
