(* ===== verification/TestPrelude.thy ===== *)
theory TestPrelude
  imports Text
begin

text \<open>
  What the unit tests share: the string functions that only tests use, and rules to evaluate decimal
  numbers and the parsers of numbers. The test theories translate the \<open>#[test]\<close> functions of the
  repository: each is a truth value, the conjunction of its assertions, over the model's definitions.
\<close>

fun str_contains :: "string \<Rightarrow> string \<Rightarrow> bool" where
  "str_contains [] t = (t = [])"
| "str_contains (c # cs) t = (take (length t) (c # cs) = t \<or> str_contains cs t)"

definition starts_with :: "string \<Rightarrow> string \<Rightarrow> bool" where
  "starts_with s t \<longleftrightarrow> take (length t) s = t"

lemma contains_prefix: "str_contains (s @ t) s"
  by (cases s; cases t) simp_all

lemma digit_chars:
  "digit_char 0 = CHR ''0''" "digit_char (Suc 0) = CHR ''1''" "digit_char 1 = CHR ''1''" "digit_char 2 = CHR ''2''"
  "digit_char 3 = CHR ''3''" "digit_char 4 = CHR ''4''" "digit_char 5 = CHR ''5''" "digit_char 6 = CHR ''6''"
  "digit_char 7 = CHR ''7''" "digit_char 8 = CHR ''8''" "digit_char 9 = CHR ''9''"
  by code_simp+

lemma dec_step:
  "n < 10 \<Longrightarrow> dec n = [digit_char n]"
  "\<not> n < 10 \<Longrightarrow> dec n = dec (n div 10) @ [digit_char (n mod 10)]"
  by (simp_all add: dec.simps [of n])

lemmas dec_eval = dec_step digit_chars dec_int_def

lemma lossy_bytes_of: "valid_string s \<Longrightarrow> lossy_string (bytes_of s) = s"
  by (simp add: lossy_string_def valid_string_def utf8_lossy_valid comp_def)

lemma lossy_ascii: "ascii s \<Longrightarrow> lossy_string (bytes_of s) = s"
  by (simp add: lossy_bytes_of valid_ascii)

lemmas number_eval = parse_u32_def parse_i32_def parse_i64_def parse_signed_def parse_unsigned_def parse_digits_def
  digit_val_def is_digit_def u8_of_char_def

end
