(* ===== verification/FilterTests.thy ===== *)
theory FilterTests
  imports Query Listing TestPrelude
begin

text \<open>
  The unit tests of \<open>shspectr-web/src/domain/filter.rs\<close> and \<open>domain/listing.rs\<close>, on the model: a test is a
  truth value with the assertions of the test function, and holds.
\<close>

section \<open>Parsing a query\<close>

lemma parse_query_words:
  assumes "str_trim q = q" "split_whitespace q = ws" "q \<noteq> []"
  shows "event_filter_parse q =
    (let (f, bare_words) = foldl parse_token (event_filter_default\<lparr>f_raw := Some q\<rparr>, []) ws
     in if bare_words \<noteq> [] then f\<lparr>f_text := Some (str_join '' '' bare_words)\<rparr> else f)"
  using assms by (simp add: event_filter_parse_def)

lemma sample_words:
  "str_trim ''cargo build'' = ''cargo build''" "split_whitespace ''cargo build'' = [''cargo'', ''build'']"
  "str_trim ''pid:1 comm:bash'' = ''pid:1 comm:bash''" "split_whitespace ''pid:1 comm:bash'' = [''pid:1'', ''comm:bash'']"
  "str_trim ''user:root comm:bash cargo exit:0'' = ''user:root comm:bash cargo exit:0''"
  "split_whitespace ''user:root comm:bash cargo exit:0'' = [''user:root'', ''comm:bash'', ''cargo'', ''exit:0'']"
  "str_trim [] = []" "str_trim ''   '' = []"
  by code_simp+

lemmas parse_eval = parse_single_token ascii_single_token ascii_def u8_of_char_def is_white_def white_space_def
  parse_token_def parse_rest_def apply_keyword_def wrap_def warn_def number_warning_def quoted_def
  number_eval
  event_filter_default_def event_filter_is_empty_def filter_value_new_def filter_value_negated_def

definition test_parse_empty_query :: bool where
  "test_parse_empty_query \<longleftrightarrow> (let f = event_filter_parse '''' in event_filter_is_empty f
      \<and> f_raw f = None)"

definition test_parse_whitespace_query :: bool where
  "test_parse_whitespace_query \<longleftrightarrow> (let f = event_filter_parse ''   '' in event_filter_is_empty f)"

lemma empty_tests_pass:
  "test_parse_empty_query"
  "test_parse_whitespace_query"
  by (simp_all add: event_filter_parse_def sample_words(7,8) event_filter_default_def event_filter_is_empty_def
      test_parse_empty_query_def test_parse_whitespace_query_def)

definition test_parse_bare_words :: bool where
  "test_parse_bare_words \<longleftrightarrow> (let f = event_filter_parse ''cargo build'' in f_text f = Some ''cargo build''
      \<and> f_comm f = None)"

definition test_parse_mixed_filters :: bool where
  "test_parse_mixed_filters \<longleftrightarrow> (let f = event_filter_parse ''user:root comm:bash cargo exit:0'' in f_user f = Some (filter_value_new ''root'')
      \<and> f_comm f = Some (filter_value_new ''bash'')
      \<and> f_exit_code f = Some (filter_value_new 0)
      \<and> f_text f = Some ''cargo'')"

definition test_parse_known_keywords_no_warnings :: bool where
  "test_parse_known_keywords_no_warnings \<longleftrightarrow> (let f = event_filter_parse ''pid:1 comm:bash'' in f_warnings f = [])"

lemma word_tests_pass:
  "test_parse_bare_words"
  "test_parse_mixed_filters"
  "test_parse_known_keywords_no_warnings"
  by (simp_all add: parse_query_words [OF sample_words(1,2)] parse_query_words [OF sample_words(3,4)]
      parse_query_words [OF sample_words(5,6)] parse_eval
      test_parse_bare_words_def test_parse_mixed_filters_def test_parse_known_keywords_no_warnings_def)

definition test_parse_user_filter :: bool where
  "test_parse_user_filter \<longleftrightarrow> (let f = event_filter_parse ''user:root'' in f_user f = Some (filter_value_new ''root'')
      \<and> f_text f = None)"

definition test_parse_comm_filter :: bool where
  "test_parse_comm_filter \<longleftrightarrow> (let f = event_filter_parse ''comm:bash'' in f_comm f = Some (filter_value_new ''bash''))"

definition test_parse_exit_filter :: bool where
  "test_parse_exit_filter \<longleftrightarrow> (let f = event_filter_parse ''exit:0'' in f_exit_code f = Some (filter_value_new 0))"

definition test_parse_exit_filter_negative :: bool where
  "test_parse_exit_filter_negative \<longleftrightarrow> (let f = event_filter_parse ''exit:-1'' in f_exit_code f = Some (filter_value_new (- 1)))"

definition test_parse_session_filter :: bool where
  "test_parse_session_filter \<longleftrightarrow> (let f = event_filter_parse ''session:ox_abc'' in f_session_id f = Some (filter_value_new ''ox_abc''))"

definition test_parse_pid_filter :: bool where
  "test_parse_pid_filter \<longleftrightarrow> (let f = event_filter_parse ''pid:1234'' in f_pid f = Some (filter_value_new 1234))"

definition test_parse_invalid_exit_ignored :: bool where
  "test_parse_invalid_exit_ignored \<longleftrightarrow> (let f = event_filter_parse ''exit:notanumber'' in f_exit_code f = None
      \<and> f_text f = None
      \<and> length (f_warnings f) = 1
      \<and> str_contains (f_warnings f ! 0) ''expects a number'')"

definition test_is_empty_with_no_criteria :: bool where
  "test_is_empty_with_no_criteria \<longleftrightarrow> event_filter_is_empty event_filter_default"

definition test_is_empty_false_with_criteria :: bool where
  "test_is_empty_false_with_criteria \<longleftrightarrow> (let f = event_filter_parse ''pid:1'' in \<not> event_filter_is_empty f)"

definition test_parse_ppid_filter :: bool where
  "test_parse_ppid_filter \<longleftrightarrow> (let f = event_filter_parse ''ppid:1'' in f_ppid f = Some (filter_value_new 1))"

definition test_parse_ppid_invalid :: bool where
  "test_parse_ppid_invalid \<longleftrightarrow> (let f = event_filter_parse ''ppid:abc'' in f_ppid f = None)"

definition test_parse_gid_filter :: bool where
  "test_parse_gid_filter \<longleftrightarrow> (let f = event_filter_parse ''gid:1000'' in f_gid f = Some (filter_value_new 1000))"

definition test_parse_euid_filter :: bool where
  "test_parse_euid_filter \<longleftrightarrow> (let f = event_filter_parse ''euid:0'' in f_euid f = Some (filter_value_new 0))"

definition test_parse_tty_filter :: bool where
  "test_parse_tty_filter \<longleftrightarrow> (let f = event_filter_parse ''tty:0'' in f_tty f = Some (filter_value_new 0))"

definition test_parse_file_filter :: bool where
  "test_parse_file_filter \<longleftrightarrow> (let f = event_filter_parse ''file:/usr/bin/*'' in f_file f = Some (filter_value_new ''/usr/bin/*''))"

definition test_parse_file_glob_question_mark :: bool where
  "test_parse_file_glob_question_mark \<longleftrightarrow> (let f = event_filter_parse ''file:/usr/bin/bas?'' in f_file f = Some (filter_value_new ''/usr/bin/bas?''))"

definition test_parse_negation_exact :: bool where
  "test_parse_negation_exact \<longleftrightarrow> (let f = event_filter_parse ''!exit:0'' in f_exit_code f = Some (filter_value_negated 0))"

definition test_parse_negation_glob :: bool where
  "test_parse_negation_glob \<longleftrightarrow> (let f = event_filter_parse ''!comm:bash'' in f_comm f = Some (filter_value_negated ''bash''))"

definition test_parse_negation_prefix :: bool where
  "test_parse_negation_prefix \<longleftrightarrow> (let f = event_filter_parse ''!session:ox_'' in f_session_id f = Some (filter_value_negated ''ox_''))"

definition test_parse_bang_alone_is_bare :: bool where
  "test_parse_bang_alone_is_bare \<longleftrightarrow> (let f = event_filter_parse ''!'' in f_text f = Some ''!'')"

definition test_parse_bang_no_keyword :: bool where
  "test_parse_bang_no_keyword \<longleftrightarrow> (let f = event_filter_parse ''!foo'' in f_text f = Some ''!foo'')"

definition test_parse_double_bang :: bool where
  "test_parse_double_bang \<longleftrightarrow> (let f = event_filter_parse ''!!exit:0'' in f_text f = Some ''!!exit:0''
      \<and> f_exit_code f = None)"

definition test_parse_user_numeric :: bool where
  "test_parse_user_numeric \<longleftrightarrow> (let f = event_filter_parse ''user:1000'' in f_user f = Some (filter_value_new ''1000''))"

definition test_parse_numeric_field_invalid_warns :: bool where
  "test_parse_numeric_field_invalid_warns \<longleftrightarrow> (let f = event_filter_parse ''pid:abc'' in length (f_warnings f) = 1
      \<and> str_contains (f_warnings f ! 0) ''expects a number''
      \<and> str_contains (f_warnings f ! 0) ''abc''
      \<and> f_text f = None)"

definition test_parse_numeric_field_valid_no_warning :: bool where
  "test_parse_numeric_field_valid_no_warning \<longleftrightarrow> (let f = event_filter_parse ''pid:123'' in f_warnings f = [])"

definition test_parse_exit_invalid_warns :: bool where
  "test_parse_exit_invalid_warns \<longleftrightarrow> (let f = event_filter_parse ''exit:abc'' in length (f_warnings f) = 1
      \<and> str_contains (f_warnings f ! 0) ''expects a number''
      \<and> f_text f = None)"

definition test_parse_cmd_filter :: bool where
  "test_parse_cmd_filter \<longleftrightarrow> (let f = event_filter_parse ''cmd:ps'' in f_cmd f = Some (filter_value_new ''ps''))"

definition test_parse_cmd_glob :: bool where
  "test_parse_cmd_glob \<longleftrightarrow> (let f = event_filter_parse ''cmd:git*'' in f_cmd f = Some (filter_value_new ''git*''))"

definition test_parse_cmd_negated :: bool where
  "test_parse_cmd_negated \<longleftrightarrow> (let f = event_filter_parse ''!cmd:git'' in f_cmd f = Some (filter_value_negated ''git''))"

lemma token_tests_pass:
  "test_parse_user_filter"
  "test_parse_comm_filter"
  "test_parse_exit_filter"
  "test_parse_exit_filter_negative"
  "test_parse_session_filter"
  "test_parse_pid_filter"
  "test_parse_invalid_exit_ignored"
  "test_is_empty_with_no_criteria"
  "test_is_empty_false_with_criteria"
  "test_parse_ppid_filter"
  "test_parse_ppid_invalid"
  "test_parse_gid_filter"
  "test_parse_euid_filter"
  "test_parse_tty_filter"
  "test_parse_file_filter"
  "test_parse_file_glob_question_mark"
  "test_parse_negation_exact"
  "test_parse_negation_glob"
  "test_parse_negation_prefix"
  "test_parse_bang_alone_is_bare"
  "test_parse_bang_no_keyword"
  "test_parse_double_bang"
  "test_parse_user_numeric"
  "test_parse_numeric_field_invalid_warns"
  "test_parse_numeric_field_valid_no_warning"
  "test_parse_exit_invalid_warns"
  "test_parse_cmd_filter"
  "test_parse_cmd_glob"
  "test_parse_cmd_negated"
  by (simp_all add: parse_eval
      test_parse_user_filter_def test_parse_comm_filter_def test_parse_exit_filter_def
      test_parse_exit_filter_negative_def test_parse_session_filter_def test_parse_pid_filter_def
      test_parse_invalid_exit_ignored_def test_is_empty_with_no_criteria_def
      test_is_empty_false_with_criteria_def test_parse_ppid_filter_def test_parse_ppid_invalid_def
      test_parse_gid_filter_def test_parse_euid_filter_def test_parse_tty_filter_def
      test_parse_file_filter_def test_parse_file_glob_question_mark_def test_parse_negation_exact_def
      test_parse_negation_glob_def test_parse_negation_prefix_def test_parse_bang_alone_is_bare_def
      test_parse_bang_no_keyword_def test_parse_double_bang_def test_parse_user_numeric_def
      test_parse_numeric_field_invalid_warns_def test_parse_numeric_field_valid_no_warning_def
      test_parse_exit_invalid_warns_def test_parse_cmd_filter_def test_parse_cmd_glob_def
      test_parse_cmd_negated_def)

definition test_parse_unknown_key_treated_as_bare_word :: bool where
  "test_parse_unknown_key_treated_as_bare_word \<longleftrightarrow> (let f = event_filter_parse ''foo:bar'' in f_text f = Some ''foo:bar''
      \<and> length (f_warnings f) = 1
      \<and> str_contains (f_warnings f ! 0) ''foo'')"

definition test_parse_unknown_keyword_warns :: bool where
  "test_parse_unknown_keyword_warns \<longleftrightarrow> (let f = event_filter_parse ''foo:bar'' in length (f_warnings f) = 1
      \<and> str_contains (f_warnings f ! 0) ''foo'')"

definition test_parse_warnings_dont_affect_is_empty :: bool where
  "test_parse_warnings_dont_affect_is_empty \<longleftrightarrow> (let f = event_filter_parse ''foo:bar'' in \<not> event_filter_is_empty f)"

lemma parse_foo: "event_filter_parse ''foo:bar'' =
    (warn (unknown_warning ''foo'') (event_filter_default\<lparr>f_raw := Some ''foo:bar''\<rparr>))\<lparr>f_text := Some ''foo:bar''\<rparr>"
proof -
  have "single_token ''foo:bar''" by code_simp
  then show ?thesis
    by (simp add: parse_single_token parse_token_def parse_rest_def apply_keyword_def)
qed

lemma unknown_keyword_tests_pass:
  "test_parse_unknown_key_treated_as_bare_word"
  "test_parse_unknown_keyword_warns"
  "test_parse_warnings_dont_affect_is_empty"
  by (simp_all add: parse_foo warn_def unknown_warning_def quoted_def event_filter_default_def event_filter_is_empty_def
      test_parse_unknown_key_treated_as_bare_word_def test_parse_unknown_keyword_warns_def
      test_parse_warnings_dont_affect_is_empty_def)

section \<open>Suggestions\<close>

text \<open>The distances of a mistyped keyword, by the recurrence that the table computes.\<close>

lemma ascii_distance:
  "ascii s \<Longrightarrow> ascii t \<Longrightarrow>
    keyword_distance s t = dist (map (\<lambda>c. [c]) s) (map (\<lambda>c. [c]) t) (length s) (length t)"
  by (simp add: keyword_distance_def levenshtein_dist str_chars_ascii)

lemma distances_of_ppd:
  "keyword_distance ''ppd'' ''ppid'' = 1" "keyword_distance ''ppd'' ''pid'' = 1"
  "keyword_distance ''ppd'' ''user'' = 4" "keyword_distance ''ppd'' ''comm'' = 4"
  "keyword_distance ''ppd'' ''exit'' = 4" "keyword_distance ''ppd'' ''session'' = 7"
  "keyword_distance ''ppd'' ''gid'' = 2" "keyword_distance ''ppd'' ''euid'' = 3"
  "keyword_distance ''ppd'' ''tty'' = 3" "keyword_distance ''ppd'' ''file'' = 4"
  "keyword_distance ''ppd'' ''cmd'' = 2"
  by (simp_all add: ascii_distance ascii_def u8_of_char_def)

lemma distances_of_commm:
  "keyword_distance ''commm'' ''ppid'' = 5" "keyword_distance ''commm'' ''pid'' = 5"
  "keyword_distance ''commm'' ''user'' = 5" "keyword_distance ''commm'' ''comm'' = 1"
  "keyword_distance ''commm'' ''exit'' = 5" "keyword_distance ''commm'' ''session'' = 7"
  "keyword_distance ''commm'' ''gid'' = 5" "keyword_distance ''commm'' ''euid'' = 5"
  "keyword_distance ''commm'' ''tty'' = 5" "keyword_distance ''commm'' ''file'' = 5"
  "keyword_distance ''commm'' ''cmd'' = 3"
  by (simp_all add: ascii_distance ascii_def u8_of_char_def)

lemma suggestions:
  "suggest_keyword ''ppd'' = Some ''ppid''" "suggest_keyword ''commm'' = Some ''comm''"
  by (simp_all add: suggest_keyword_def KNOWN_KEYWORDS_def map_filter_simps distances_of_ppd distances_of_commm
      common_prefix_def str_chars_ascii ascii_def u8_of_char_def)

lemma parse_unknown:
  "event_filter_parse ''ppd:1'' =
    (warn (unknown_warning ''ppd'') (event_filter_default\<lparr>f_raw := Some ''ppd:1''\<rparr>))\<lparr>f_text := Some ''ppd:1''\<rparr>"
  "event_filter_parse ''commm:bash'' =
    (warn (unknown_warning ''commm'') (event_filter_default\<lparr>f_raw := Some ''commm:bash''\<rparr>))\<lparr>f_text := Some ''commm:bash''\<rparr>"
proof -
  have "single_token ''ppd:1''" "single_token ''commm:bash''" by code_simp+
  then show "event_filter_parse ''ppd:1'' =
      (warn (unknown_warning ''ppd'') (event_filter_default\<lparr>f_raw := Some ''ppd:1''\<rparr>))\<lparr>f_text := Some ''ppd:1''\<rparr>"
    "event_filter_parse ''commm:bash'' =
      (warn (unknown_warning ''commm'') (event_filter_default\<lparr>f_raw := Some ''commm:bash''\<rparr>))\<lparr>f_text := Some ''commm:bash''\<rparr>"
    by (simp_all add: parse_single_token parse_token_def parse_rest_def apply_keyword_def)
qed

definition test_parse_did_you_mean :: bool where
  "test_parse_did_you_mean \<longleftrightarrow> (let f = event_filter_parse ''ppd:1'' in length (f_warnings f) = 1
      \<and> str_contains (f_warnings f ! 0) (''Did you mean '' @ quoted ''ppid'' @ ''?''))"

definition test_parse_did_you_mean_comm :: bool where
  "test_parse_did_you_mean_comm \<longleftrightarrow> (let f = event_filter_parse ''commm:bash'' in length (f_warnings f) = 1
      \<and> str_contains (f_warnings f ! 0) (''Did you mean '' @ quoted ''comm'' @ ''?''))"

lemma suggestion_tests_pass:
  "test_parse_did_you_mean"
  "test_parse_did_you_mean_comm"
  by (simp_all add: parse_unknown warn_def unknown_warning_def suggestions quoted_def event_filter_default_def
      test_parse_did_you_mean_def test_parse_did_you_mean_comm_def)

section \<open>Pages\<close>

definition test_page_total_pages_basic :: bool where
  "test_page_total_pages_basic \<longleftrightarrow> (let page = \<lparr>pg_items = [], pg_page = 1, pg_page_size = 25, pg_total_items = 100\<rparr> :: unit page in total_pages page = 4)"

definition test_page_total_pages_partial :: bool where
  "test_page_total_pages_partial \<longleftrightarrow> (let page = \<lparr>pg_items = [], pg_page = 1, pg_page_size = 25, pg_total_items = 101\<rparr> :: unit page in total_pages page = 5)"

definition test_page_total_pages_zero_items :: bool where
  "test_page_total_pages_zero_items \<longleftrightarrow> (let page = \<lparr>pg_items = [], pg_page = 1, pg_page_size = 25, pg_total_items = 0\<rparr> :: unit page in total_pages page = 1)"

definition test_page_total_pages_exact :: bool where
  "test_page_total_pages_exact \<longleftrightarrow> (let page = \<lparr>pg_items = [], pg_page = 1, pg_page_size = 10, pg_total_items = 30\<rparr> :: unit page in total_pages page = 3)"

definition test_page_has_next :: bool where
  "test_page_has_next \<longleftrightarrow> (let page = \<lparr>pg_items = [], pg_page = 1, pg_page_size = 25, pg_total_items = 50\<rparr> :: unit page in page_has_next page)"

definition test_page_has_next_last_page :: bool where
  "test_page_has_next_last_page \<longleftrightarrow> (let page = \<lparr>pg_items = [], pg_page = 2, pg_page_size = 25, pg_total_items = 50\<rparr> :: unit page in \<not> page_has_next page)"

definition test_page_has_prev :: bool where
  "test_page_has_prev \<longleftrightarrow> (let page = \<lparr>pg_items = [], pg_page = 2, pg_page_size = 25, pg_total_items = 50\<rparr> :: unit page in page_has_prev page)"

definition test_page_has_prev_first_page :: bool where
  "test_page_has_prev_first_page \<longleftrightarrow> (let page = \<lparr>pg_items = [], pg_page = 1, pg_page_size = 25, pg_total_items = 50\<rparr> :: unit page in \<not> page_has_prev page)"

definition test_list_request_offset :: bool where
  "test_list_request_offset \<longleftrightarrow> (let req = list_request_default\<lparr>lr_page := 3, lr_page_size := 25\<rparr> in list_request_offset req = 50)"

definition test_list_request_offset_page_one :: bool where
  "test_list_request_offset_page_one \<longleftrightarrow> (let req = list_request_default in list_request_offset req = 0)"

definition test_list_request_offset_page_zero :: bool where
  "test_list_request_offset_page_zero \<longleftrightarrow> (let req = list_request_default\<lparr>lr_page := 0, lr_page_size := 25\<rparr> in list_request_offset req = 0)"

definition test_sort_direction_sql :: bool where
  "test_sort_direction_sql \<longleftrightarrow> direction_as_sql Asc = ''ASC'' \<and> direction_as_sql Desc = ''DESC''"

definition test_event_sort_key_sql_column :: bool where
  "test_event_sort_key_sql_column \<longleftrightarrow> sort_key_column Timestamp = ''timestamp'' \<and> sort_key_column Comm = ''comm''
      \<and> sort_key_column ExitCode = ''exit_code''"

definition test_sort_direction_display :: bool where
  "test_sort_direction_display \<longleftrightarrow> direction_display Asc = ''asc'' \<and> direction_display Desc = ''desc''"

definition test_event_sort_key_display :: bool where
  "test_event_sort_key_display \<longleftrightarrow> sort_key_display Timestamp = ''timestamp'' \<and> sort_key_display Comm = ''comm''
      \<and> sort_key_display ExitCode = ''exit_code''"

lemma listing_tests_pass:
  "test_page_total_pages_basic"
  "test_page_total_pages_partial"
  "test_page_total_pages_zero_items"
  "test_page_total_pages_exact"
  "test_page_has_next"
  "test_page_has_next_last_page"
  "test_page_has_prev"
  "test_page_has_prev_first_page"
  "test_list_request_offset"
  "test_list_request_offset_page_one"
  "test_list_request_offset_page_zero"
  "test_sort_direction_sql"
  "test_event_sort_key_sql_column"
  "test_sort_direction_display"
  "test_event_sort_key_display"
  by (simp_all add: total_pages_def div_ceil_def page_has_next_def page_has_prev_def list_request_offset_def
      list_request_default_def saturating_sub_u32_def sort_key_display_def
      test_page_total_pages_basic_def test_page_total_pages_partial_def
      test_page_total_pages_zero_items_def test_page_total_pages_exact_def test_page_has_next_def
      test_page_has_next_last_page_def test_page_has_prev_def test_page_has_prev_first_page_def
      test_list_request_offset_def test_list_request_offset_page_one_def
      test_list_request_offset_page_zero_def test_sort_direction_sql_def test_event_sort_key_sql_column_def
      test_sort_direction_display_def test_event_sort_key_display_def)

end
