(* ===== verification/ViewTests.thy ===== *)
theory ViewTests
  imports Presentation Username TestPrelude
begin

text \<open>
  The unit tests of \<open>shspectr-web/src/presentation/web/event.rs\<close> and \<open>username.rs\<close>, on the model. The
  JSON parser and the ANSI converter are libraries: \<open>test_env argv\<close> reads the text of the list \<open>argv\<close> and
  passes text without escape sequences through. (The three tests of the converter's own output are left
  out.)
\<close>

section \<open>Fixtures\<close>

definition json_of :: "string list \<Rightarrow> string" where
  "json_of argv = ''['' @ str_join '','' (map (\<lambda>a. CHR 0x22 # a @ [CHR 0x22]) argv) @ '']''"

definition test_env :: "string list \<Rightarrow> web_env" where
  "test_env argv =
     \<lparr>we_passwd = [(0, ''root'')], we_json = (\<lambda>t. if t = json_of argv then Some argv else None), we_ansi = Some\<rparr>"

definition make_summary :: event_summary where
  "make_summary =
     \<lparr>es_id = 1, es_timestamp = ''2026-05-10T14:32:01.123456'', es_session_id = ''ox_abc123def456'',
      es_event_type = Exec, es_execution_id = 1, es_pid = 1234, es_ppid = 1000, es_uid = 1000, es_euid = 1000,
      es_comm = Some ''cargo'', es_filename = Some ''/usr/bin/cargo'',
      es_argv = Some (json_of [''cargo'', ''build'', ''--release'']), es_exit_code = Some 0\<rparr>"

definition make_detail :: event_detail where
  "make_detail =
     \<lparr>ed_summary = \<lparr>es_id = 1, es_timestamp = ''2026-05-10T14:32:01'', es_session_id = ''ox_abc123'',
        es_event_type = Exec, es_execution_id = 1, es_pid = 4821, es_ppid = 4800, es_uid = 1000, es_euid = 1000,
        es_comm = Some ''cat'', es_filename = Some ''/usr/bin/cat'',
        es_argv = Some (json_of [''cat'', ''secret.txt'']), es_exit_code = Some 0\<rparr>,
      ed_gid = 1000, ed_tty_nr = Some 0x8803, ed_fd = None, ed_data = None, ed_data_len = None,
      ed_byte_count = None, ed_stdin_data = [],
      ed_stdout_data = [\<lparr>ic_timestamp = ''2026-05-10T14:32:02'', ic_data = ''TOP SECRET'' @ [CHR 0x0A],
        ic_byte_count = 11\<rparr>],
      ed_children = [], ed_parent = None\<rparr>"

text \<open>The assertions about the view of a summary; a view that panics fails.\<close>

definition summary_view :: "string list \<Rightarrow> event_summary \<Rightarrow> (event_summary_view \<Rightarrow> bool) \<Rightarrow> bool" where
  "summary_view argv s P \<longleftrightarrow> (case event_summary_view_from (test_env argv) s of None \<Rightarrow> False | Some view \<Rightarrow> P view)"

section \<open>Summaries\<close>

definition test_from_summary_formats_timestamp :: bool where
  "test_from_summary_formats_timestamp \<longleftrightarrow> summary_view [''cargo'', ''build'', ''--release''] make_summary (\<lambda>view. ev_timestamp view = ''2026-05-10T14:32:01'')"

definition test_from_summary_truncates_session_id :: bool where
  "test_from_summary_truncates_session_id \<longleftrightarrow> summary_view [''cargo'', ''build'', ''--release''] make_summary (\<lambda>view. ev_session_id_short view = ''ox_abc123d'' @ ELLIPSIS
      \<and> ev_session_id view = ''ox_abc123def456'')"

definition test_from_summary_builds_command_from_argv :: bool where
  "test_from_summary_builds_command_from_argv \<longleftrightarrow> summary_view [''cargo'', ''build'', ''--release''] make_summary (\<lambda>view. ev_command_name view = ''cargo''
      \<and> ev_command_dir view = ''/usr/bin/''
      \<and> ev_command_args view = ''build --release''
      \<and> ev_command_full view = ''cargo build --release'')"

definition test_from_summary_fallback_to_filename :: bool where
  "test_from_summary_fallback_to_filename \<longleftrightarrow> summary_view [''cargo'', ''build'', ''--release''] (make_summary\<lparr>es_argv := None\<rparr>) (\<lambda>view. ev_command_name view = ''cargo''
      \<and> ev_command_dir view = ''/usr/bin/''
      \<and> ev_command_args view = []
      \<and> ev_command_full view = ''cargo'')"

definition test_from_summary_fallback_to_comm :: bool where
  "test_from_summary_fallback_to_comm \<longleftrightarrow> summary_view [''cargo'', ''build'', ''--release''] (make_summary\<lparr>es_argv := None, es_filename := None\<rparr>) (\<lambda>view. ev_command_name view = ''cargo''
      \<and> ev_command_dir view = []
      \<and> ev_command_args view = []
      \<and> ev_command_full view = ''cargo'')"

definition test_from_summary_bare_command_no_dir :: bool where
  "test_from_summary_bare_command_no_dir \<longleftrightarrow> summary_view [''ps'', ''-ao'', ''ppid,args''] (make_summary\<lparr>es_filename := Some ''ps'', es_argv := Some (json_of [''ps'', ''-ao'', ''ppid,args''])\<rparr>) (\<lambda>view. ev_command_name view = ''ps''
      \<and> ev_command_dir view = []
      \<and> ev_command_args view = ''-ao ppid,args'')"

definition test_from_summary_snap_path :: bool where
  "test_from_summary_snap_path \<longleftrightarrow> summary_view [''/snap/mise/111/bin/mise'', ''hook-env'', ''-s'', ''fish''] (make_summary\<lparr>es_filename := Some ''/snap/mise/111/bin/mise'', es_argv := Some (json_of [''/snap/mise/111/bin/mise'', ''hook-env'', ''-s'', ''fish''])\<rparr>) (\<lambda>view. ev_command_name view = ''mise''
      \<and> ev_command_dir view = ''/snap/mise/111/bin/''
      \<and> ev_command_args view = ''hook-env -s fish'')"

definition test_from_summary_exit_code_zero_is_green :: bool where
  "test_from_summary_exit_code_zero_is_green \<longleftrightarrow> summary_view [''cargo'', ''build'', ''--release''] make_summary (\<lambda>view. ev_exit_code view = ''0''
      \<and> ev_exit_code_class view = ''text-green-400'')"

definition test_from_summary_exit_code_nonzero_is_red :: bool where
  "test_from_summary_exit_code_nonzero_is_red \<longleftrightarrow> summary_view [''cargo'', ''build'', ''--release''] (make_summary\<lparr>es_exit_code := Some 1\<rparr>) (\<lambda>view. ev_exit_code view = ''1''
      \<and> ev_exit_code_class view = ''text-red-400'')"

definition test_from_summary_exit_code_none_is_dash :: bool where
  "test_from_summary_exit_code_none_is_dash \<longleftrightarrow> summary_view [''cargo'', ''build'', ''--release''] (make_summary\<lparr>es_exit_code := None\<rparr>) (\<lambda>view. ev_exit_code view = EM_DASH
      \<and> ev_exit_code_class view = ''text-gray-500'')"

definition test_fd_path_proc_self_uses_argv0 :: bool where
  "test_fd_path_proc_self_uses_argv0 \<longleftrightarrow> summary_view [''systemd-executor'', ''--deserialize'', ''57''] (make_summary\<lparr>es_filename := Some ''/proc/self/fd/9'', es_argv := Some (json_of [''systemd-executor'', ''--deserialize'', ''57''])\<rparr>) (\<lambda>view. ev_command_name view = ''systemd-executor''
      \<and> ev_command_dir view = ''/proc/self/fd/9''
      \<and> ev_command_args view = ''--deserialize 57'')"

definition test_fd_path_dev_fd_uses_argv0 :: bool where
  "test_fd_path_dev_fd_uses_argv0 \<longleftrightarrow> summary_view [''my-program'', ''--flag''] (make_summary\<lparr>es_filename := Some ''/dev/fd/3'', es_argv := Some (json_of [''my-program'', ''--flag''])\<rparr>) (\<lambda>view. ev_command_name view = ''my-program''
      \<and> ev_command_dir view = ''/dev/fd/3'')"

definition test_fd_path_proc_pid_uses_argv0 :: bool where
  "test_fd_path_proc_pid_uses_argv0 \<longleftrightarrow> summary_view [''some-daemon''] (make_summary\<lparr>es_filename := Some ''/proc/12345/fd/9'', es_argv := Some (json_of [''some-daemon''])\<rparr>) (\<lambda>view. ev_command_name view = ''some-daemon''
      \<and> ev_command_dir view = ''/proc/12345/fd/9'')"

definition test_fd_path_empty_argv_falls_back_to_comm :: bool where
  "test_fd_path_empty_argv_falls_back_to_comm \<longleftrightarrow> summary_view [''cargo'', ''build'', ''--release''] (make_summary\<lparr>es_filename := Some ''/proc/self/fd/9'', es_argv := None, es_comm := Some ''systemd-exec''\<rparr>) (\<lambda>view. ev_command_name view = ''systemd-exec''
      \<and> ev_command_dir view = ''/proc/self/fd/9'')"

definition test_normal_path_unaffected_by_fd_logic :: bool where
  "test_normal_path_unaffected_by_fd_logic \<longleftrightarrow> summary_view [''cargo'', ''build'', ''--release''] make_summary (\<lambda>view. ev_command_name view = ''cargo''
      \<and> ev_command_dir view = ''/usr/bin/'')"

lemmas view_eval = summary_view_def event_summary_view_from_def make_summary_def test_env_def json_of_def
  command_parts_def nonempty_filename_def display_path_def is_fd_path_def strip_prefix_def all_digits_def
  is_digit_def u8_of_char_def parse_argv0_def parsed_argv_def parse_args_tail_def truncate_chars_def
  MAX_ARGS_DISPLAY_LEN_def exit_code_display_def dec_int_def unwrap_or_def slice_to_def is_char_boundary_def
  utf8_cont_def str_chars_ascii ascii_def Let_def dec_eval

lemma summary_tests_pass:
  "test_from_summary_formats_timestamp"
  "test_from_summary_truncates_session_id"
  "test_from_summary_builds_command_from_argv"
  "test_from_summary_fallback_to_filename"
  "test_from_summary_fallback_to_comm"
  "test_from_summary_bare_command_no_dir"
  "test_from_summary_snap_path"
  "test_from_summary_exit_code_zero_is_green"
  "test_from_summary_exit_code_nonzero_is_red"
  "test_from_summary_exit_code_none_is_dash"
  "test_fd_path_proc_self_uses_argv0"
  "test_fd_path_dev_fd_uses_argv0"
  "test_fd_path_proc_pid_uses_argv0"
  "test_fd_path_empty_argv_falls_back_to_comm"
  "test_normal_path_unaffected_by_fd_logic"
  by (simp_all add: view_eval
      test_from_summary_formats_timestamp_def test_from_summary_truncates_session_id_def
      test_from_summary_builds_command_from_argv_def test_from_summary_fallback_to_filename_def
      test_from_summary_fallback_to_comm_def test_from_summary_bare_command_no_dir_def
      test_from_summary_snap_path_def test_from_summary_exit_code_zero_is_green_def
      test_from_summary_exit_code_nonzero_is_red_def test_from_summary_exit_code_none_is_dash_def
      test_fd_path_proc_self_uses_argv0_def test_fd_path_dev_fd_uses_argv0_def
      test_fd_path_proc_pid_uses_argv0_def test_fd_path_empty_argv_falls_back_to_comm_def
      test_normal_path_unaffected_by_fd_logic_def)

section \<open>Details\<close>

definition test_truncate_long_string :: bool where
  "test_truncate_long_string \<longleftrightarrow> (let result = truncate_chars (replicate 50 (CHR ''a'')) 40 in length (str_chars result) = 40
      \<and> drop (length result - length ELLIPSIS) result = ELLIPSIS)"

definition test_truncate_short_string :: bool where
  "test_truncate_short_string \<longleftrightarrow> truncate_chars ''short'' 40 = ''short''"

lemma truncate_tests_pass:
  "test_truncate_long_string"
  "test_truncate_short_string"
proof -
  have a: "ascii (replicate n (CHR ''a''))" for n by (simp add: ascii_def list_all_iff u8_of_char_def)
  have "ascii ''short''" by (simp add: ascii_def u8_of_char_def)
  then show "test_truncate_short_string" by (simp add: test_truncate_short_string_def truncate_chars_def str_chars_ascii)
  have "concat (take 39 (map (\<lambda>c. [c]) (replicate 50 (CHR ''a'')))) = replicate 39 (CHR ''a'')" by (simp add: take_map)
  then show "test_truncate_long_string"
    using a [of 50] a [of 39]
    by (simp add: test_truncate_long_string_def truncate_chars_def str_chars_ascii str_chars_ascii_append ellipsis_char)
qed

definition test_tty_nr_to_pts :: bool where
  "test_tty_nr_to_pts \<longleftrightarrow> (let view = event_detail_view_from (test_env [''cat'', ''secret.txt'']) make_detail in dv_tty view = ''pts/3'')"

definition test_stdout_data_concatenated :: bool where
  "test_stdout_data_concatenated \<longleftrightarrow> (let view = event_detail_view_from (test_env [''cat'', ''secret.txt'']) make_detail in dv_stdout_html view = ''TOP SECRET'' @ [CHR 0x0A]
      \<and> dv_stdout_bytes view = 11
      \<and> dv_has_stdout view)"

definition test_no_stdin_data :: bool where
  "test_no_stdin_data \<longleftrightarrow> (let view = event_detail_view_from (test_env [''cat'', ''secret.txt'']) make_detail in \<not> dv_has_stdin view
      \<and> dv_stdin_html view = [])"

definition test_full_command_from_argv :: bool where
  "test_full_command_from_argv \<longleftrightarrow> (let view = event_detail_view_from (test_env [''cat'', ''secret.txt'']) make_detail in dv_full_command view = ''cat secret.txt'')"

definition test_tty_nr_zero_shows_dash :: bool where
  "test_tty_nr_zero_shows_dash \<longleftrightarrow> (let view = event_detail_view_from (test_env [''cat'', ''secret.txt'']) (make_detail\<lparr>ed_tty_nr := Some 0\<rparr>) in dv_tty view = EM_DASH)"

definition test_tty_nr_none_shows_dash :: bool where
  "test_tty_nr_none_shows_dash \<longleftrightarrow> (let view = event_detail_view_from (test_env [''cat'', ''secret.txt'']) (make_detail\<lparr>ed_tty_nr := None\<rparr>) in dv_tty view = EM_DASH)"

lemma detail_tests_pass:
  "test_tty_nr_to_pts"
  "test_stdout_data_concatenated"
  "test_no_stdin_data"
  "test_full_command_from_argv"
  "test_tty_nr_zero_shows_dash"
  "test_tty_nr_none_shows_dash"
  by (simp_all add: event_detail_view_from_def make_detail_def tty_display_def ansi_to_html_def chunks_text_def test_env_def
      build_command_string_def joined_argv_def parsed_argv_def json_of_def dec_eval
      test_tty_nr_to_pts_def test_stdout_data_concatenated_def test_no_stdin_data_def
      test_full_command_from_argv_def test_tty_nr_zero_shows_dash_def test_tty_nr_none_shows_dash_def)

section \<open>User names\<close>

text \<open>The passwd file of the machine that runs the tests has a line for root.\<close>

definition ROOT_LINE :: string where "ROOT_LINE = ''root:x:0:0:root:/root:/bin/bash''"

definition test_resolve_uid_root :: "passwd_cache \<Rightarrow> bool" where
  "test_resolve_uid_root cache = (resolve_uid cache 0 = ''root'')"

definition test_resolve_uid_unknown :: "passwd_cache \<Rightarrow> bool" where
  "test_resolve_uid_unknown cache = (resolve_uid cache 99999 = ''99999'')"

definition test_load_passwd_returns_map :: bool where
  "test_load_passwd_returns_map \<longleftrightarrow> load_passwd (Some ROOT_LINE) 0 \<noteq> None"

lemma root_passwd: "load_passwd (Some ROOT_LINE) = [0 \<mapsto> ''root'']"
proof -
  have "str_lines ROOT_LINE = [ROOT_LINE]" by (simp add: str_lines_def ROOT_LINE_def strip_cr_def)
  moreover have "str_splitn 4 (CHR '':'') ROOT_LINE = [''root'', ''x'', ''0'', ''0:root:/root:/bin/bash'']"
    by (simp add: ROOT_LINE_def numeral_eq_Suc)
  ultimately show ?thesis
    by (simp add: load_passwd_def passwd_entry_def parse_u32_def parse_unsigned_def parse_digits_def digit_val_def
        is_digit_def u8_of_char_def)
qed

lemma username_tests_pass:
  assumes "iterates cache (load_passwd (Some ROOT_LINE))"
  shows "test_resolve_uid_root cache" "test_resolve_uid_unknown cache" "test_load_passwd_returns_map"
  using assms
  by (simp_all add: test_resolve_uid_root_def test_resolve_uid_unknown_def test_load_passwd_returns_map_def
      iterates_def root_passwd resolve_uid_def dec_eval)

end
