(* ===== verification/SessionTests.thy ===== *)
theory SessionTests
  imports EventFilters TestPrelude "HOL-Library.Monad_Syntax"
begin

text \<open>
  The unit tests of \<open>shspectr/src/session.rs\<close> and \<open>filter.rs\<close>, on the model. A test of the correlator takes
  the random bytes of its calls as arguments and is \<open>Some True\<close> when its assertions hold (\<open>None\<close> would be a
  panic). The tests that compare different sessions assume that the bytes give different ids;
  \<open>session_ids_are_unique\<close> is a test of the random source and is left out.
\<close>

section \<open>Correlator\<close>

definition ei_named :: "u32 \<Rightarrow> u32 \<Rightarrow> u32 \<Rightarrow> string \<Rightarrow> event_info" where
  "ei_named pid ppid tty_nr comm =
     \<lparr>ei_pid = pid, ei_ppid = ppid, ei_tty_nr = tty_nr, ei_comm = comm, ei_execution_id = ucast pid\<rparr>"

definition ei :: "u32 \<Rightarrow> u32 \<Rightarrow> u32 \<Rightarrow> event_info" where
  "ei pid ppid tty_nr = ei_named pid ppid tty_nr ''test''"

abbreviation exec :: "u8 list \<Rightarrow> correlator \<Rightarrow> event_info \<Rightarrow> (correlator \<times> session_id) option" where
  "exec r c info \<equiv> corr_on_exec (Some r) c info"

text \<open>\<open>expect\<close> on the answer to an exit.\<close>

definition exit_of_tracked :: "correlator \<Rightarrow> u32 \<Rightarrow> (correlator \<times> exit_info) option" where
  "exit_of_tracked c pid = (case corr_on_exit c pid of (c, Some e) \<Rightarrow> Some (c, e) | (c, None) \<Rightarrow> None)"

abbreviation (input) tty_session_count :: "correlator \<Rightarrow> nat" where
  "tty_session_count c \<equiv> length (tty_sessions c)"

abbreviation (input) tracked_count :: "correlator \<Rightarrow> nat" where
  "tracked_count c \<equiv> length (pid_map c)"

definition test_session_id_format :: "u8 list \<Rightarrow> bool option" where
  "test_session_id_format r = do {
      s \<leftarrow> generate_session_id (Some r);
      Some (starts_with s ''ox_'' \<and> length s = 3 + SESSION_ID_SUFFIX_LEN
        \<and> list_all is_ascii_alphanumeric (str_chars (drop 3 s))) }"

definition test_pty_processes_share_session :: "u8 list \<Rightarrow> u8 list \<Rightarrow> bool option" where
  "test_pty_processes_share_session r1 r2 = do {
      (c, s1) \<leftarrow> exec r1 correlator_default (ei 100 1 42);
      (c, s2) \<leftarrow> exec r2 c (ei 200 1 42);
      Some (s1 = s2) }"

definition test_child_inherits_parent_session :: "u8 list \<Rightarrow> u8 list \<Rightarrow> bool option" where
  "test_child_inherits_parent_session r1 r2 = do {
      (c, parent_sid) \<leftarrow> exec r1 correlator_default (ei 100 1 0);
      (c, child_sid) \<leftarrow> exec r2 c (ei 200 100 0);
      Some (parent_sid = child_sid) }"

definition test_grandchild_inherits_session :: "u8 list \<Rightarrow> u8 list \<Rightarrow> u8 list \<Rightarrow> bool option" where
  "test_grandchild_inherits_session r1 r2 r3 = do {
      (c, s1) \<leftarrow> exec r1 correlator_default (ei 100 1 0);
      (c, s2) \<leftarrow> exec r2 c (ei 200 100 0);
      (c, s3) \<leftarrow> exec r3 c (ei 300 200 0);
      Some (s1 = s2 \<and> s2 = s3) }"

definition test_reexec_keeps_session :: "u8 list \<Rightarrow> u8 list \<Rightarrow> bool option" where
  "test_reexec_keeps_session r1 r2 = do {
      (c, s1) \<leftarrow> exec r1 correlator_default (ei 100 1 42);
      (c, s2) \<leftarrow> exec r2 c (ei 100 1 42);
      Some (s1 = s2) }"

definition test_reexec_refreshes_process_metadata_and_execution_id :: "u8 list \<Rightarrow> u8 list \<Rightarrow> bool option" where
  "test_reexec_refreshes_process_metadata_and_execution_id r1 r2 = do {
      (c, s1) \<leftarrow> exec r1 correlator_default (ei_named 100 1 42 ''bash'');
      (c, s2) \<leftarrow> exec r2 c (\<lparr>ei_pid = 100, ei_ppid = 55, ei_tty_nr = 99, ei_comm = ''python'', ei_execution_id = 1234\<rparr>);
      p \<leftarrow> tracked c 100;
      Some (p_execution_id p = 1234 \<and> p_ppid p = 55 \<and> p_tty_nr p = 99 \<and> p_comm p = ''python'') }"

definition test_on_exit_removes_process :: "u8 list \<Rightarrow> bool option" where
  "test_on_exit_removes_process r1 = do {
      (c, sid) \<leftarrow> exec r1 correlator_default (ei 100 1 0);
      let (c, removed) = corr_on_exit c 100;
      Some (removed = Some \<lparr>xi_session_id = sid, xi_session_complete = True\<rparr> \<and> tracked_count c = 0) }"

definition test_session_for_untracked_process_creates_entry :: "u8 list \<Rightarrow> bool option" where
  "test_session_for_untracked_process_creates_entry r1 = do {
      (c, sid) \<leftarrow> corr_session_for (Some r1) correlator_default (ei 100 1 0);
      Some (starts_with sid ''ox_'' \<and> tracked_count c = 1) }"

definition test_session_for_tracked_process_returns_existing :: "u8 list \<Rightarrow> u8 list \<Rightarrow> bool option" where
  "test_session_for_tracked_process_returns_existing r1 r2 = do {
      (c, s1) \<leftarrow> exec r1 correlator_default (ei 100 1 42);
      (c, s2) \<leftarrow> corr_session_for (Some r2) c (ei 100 1 42);
      Some (s1 = s2) }"

definition test_io_event_on_pty_process_inherits_session :: "u8 list \<Rightarrow> u8 list \<Rightarrow> bool option" where
  "test_io_event_on_pty_process_inherits_session r1 r2 = do {
      (c, shell_sid) \<leftarrow> exec r1 correlator_default (ei 100 1 42);
      (c, io_sid) \<leftarrow> corr_session_for (Some r2) c (ei 200 100 42);
      Some (shell_sid = io_sid) }"

definition test_ancestor_comms_walks_chain :: "u8 list \<Rightarrow> u8 list \<Rightarrow> u8 list \<Rightarrow> u8 list \<Rightarrow> bool option" where
  "test_ancestor_comms_walks_chain r1 r2 r3 r4 = do {
      (c, s1) \<leftarrow> exec r1 correlator_default (ei_named 1 0 0 ''systemd'');
      (c, s2) \<leftarrow> exec r2 c (ei_named 100 1 0 ''sshd'');
      (c, s3) \<leftarrow> exec r3 c (ei_named 200 100 0 ''bash'');
      (c, s4) \<leftarrow> exec r4 c (ei_named 300 200 0 ''ls'');
      Some (ancestor_comms c 300 = [''bash'', ''sshd'', ''systemd'']) }"

definition test_tty_session_entry_persists_after_last_process_exits :: "u8 list \<Rightarrow> bool option" where
  "test_tty_session_entry_persists_after_last_process_exits r1 = do {
      (c1, s1) \<leftarrow> exec r1 correlator_default (ei 100 1 5);
      (c2, exit) \<leftarrow> exit_of_tracked c1 100;
      Some (tty_session_count c1 = 1 \<and> \<not> xi_session_complete exit \<and> tty_session_count c2 = 1) }"

definition test_tty_session_entry_retained_while_processes_remain :: "u8 list \<Rightarrow> u8 list \<Rightarrow> bool option" where
  "test_tty_session_entry_retained_while_processes_remain r1 r2 = do {
      (c, s1) \<leftarrow> exec r1 correlator_default (ei 100 1 5);
      (c2, s2) \<leftarrow> exec r2 c (ei 101 1 5);
      (c3, e1) \<leftarrow> exit_of_tracked c2 100;
      (c4, exit) \<leftarrow> exit_of_tracked c3 101;
      Some (tty_session_count c2 = 1 \<and> tty_session_count c3 = 1 \<and> \<not> xi_session_complete exit \<and> tty_session_count c4 = 1) }"

definition test_tty_session_count_zero_for_tty_nr_zero :: "u8 list \<Rightarrow> bool option" where
  "test_tty_session_count_zero_for_tty_nr_zero r1 = do {
      (c1, s1) \<leftarrow> exec r1 correlator_default (ei 100 1 0);
      (c2, e) \<leftarrow> exit_of_tracked c1 100;
      Some (tty_session_count c1 = 0 \<and> tty_session_count c2 = 0) }"

definition test_pty_session_survives_gap_between_commands :: "u8 list \<Rightarrow> u8 list \<Rightarrow> bool option" where
  "test_pty_session_survives_gap_between_commands r1 r2 = do {
      (c, first) \<leftarrow> exec r1 correlator_default (ei_named 100 1 9 ''ls'');
      (c, exit) \<leftarrow> exit_of_tracked c 100;
      (c, second) \<leftarrow> exec r2 c (ei_named 200 1 9 ''whoami'');
      Some (xi_session_id exit = first \<and> \<not> xi_session_complete exit \<and> second = first) }"

definition test_non_pty_session_only_completes_when_last_process_exits :: "u8 list \<Rightarrow> u8 list \<Rightarrow> bool option" where
  "test_non_pty_session_only_completes_when_last_process_exits r1 r2 = do {
      (c, session_id) \<leftarrow> exec r1 correlator_default (ei 100 1 0);
      (c, child_session) \<leftarrow> exec r2 c (ei 200 100 0);
      (c, parent_exit) \<leftarrow> exit_of_tracked c 100;
      (c, child_exit) \<leftarrow> exit_of_tracked c 200;
      Some (child_session = session_id \<and> xi_session_id parent_exit = session_id \<and> \<not> xi_session_complete parent_exit \<and> xi_session_id child_exit = session_id \<and> xi_session_complete child_exit) }"

lemmas corr_eval = corr_on_exec_def corr_session_for_def corr_on_exit_def track_new_def
      resolve_session_def correlator_default_def generate_session_id_def ei_def ei_named_def process_of_def
      exit_of_tracked_def tracked_def Let_def starts_with_def SESSION_ID_PREFIX_def

lemma ancestor_walk_numeral: "ancestor_walk c (numeral k) current =
     (case map_of (pid_map c) current of
        None \<Rightarrow> []
      | Some info \<Rightarrow>
          if p_ppid info = current then []
          else (case map_of (pid_map c) (p_ppid info) of
                  None \<Rightarrow> []
                | Some parent \<Rightarrow> p_comm parent # ancestor_walk c (pred_numeral k) (p_ppid info)))"
  by (simp add: numeral_eq_Suc)

lemma test_session_id_format_passes:
  assumes "length r = SESSION_ID_SUFFIX_LEN"
  shows "test_session_id_format r = Some True"
proof -
  have "session_id_is_valid (SESSION_ID_PREFIX @ map (\<lambda>b. charset ! (unat b mod length charset)) r)"
    using assms by (intro generate_session_id_valid [of "Some r"]) (simp_all add: random_ok_def generate_session_id_def)
  then show ?thesis
    by (simp add: test_session_id_format_def generate_session_id_def session_id_is_valid_def starts_with_def SESSION_ID_PREFIX_def)
qed

lemma correlator_tests_pass:
  "test_pty_processes_share_session r1 r2 = Some True"
  "test_child_inherits_parent_session r1 r2 = Some True"
  "test_grandchild_inherits_session r1 r2 r3 = Some True"
  "test_reexec_keeps_session r1 r2 = Some True"
  "test_reexec_refreshes_process_metadata_and_execution_id r1 r2 = Some True"
  "test_on_exit_removes_process r1 = Some True"
  "test_session_for_untracked_process_creates_entry r1 = Some True"
  "test_session_for_tracked_process_returns_existing r1 r2 = Some True"
  "test_io_event_on_pty_process_inherits_session r1 r2 = Some True"
  "test_tty_session_entry_persists_after_last_process_exits r1 = Some True"
  "test_tty_session_entry_retained_while_processes_remain r1 r2 = Some True"
  "test_tty_session_count_zero_for_tty_nr_zero r1 = Some True"
  "test_pty_session_survives_gap_between_commands r1 r2 = Some True"
  "test_non_pty_session_only_completes_when_last_process_exits r1 r2 = Some True"
  by (simp_all add: corr_eval
      test_pty_processes_share_session_def test_child_inherits_parent_session_def
      test_grandchild_inherits_session_def test_reexec_keeps_session_def
      test_reexec_refreshes_process_metadata_and_execution_id_def test_on_exit_removes_process_def
      test_session_for_untracked_process_creates_entry_def
      test_session_for_tracked_process_returns_existing_def
      test_io_event_on_pty_process_inherits_session_def
      test_tty_session_entry_persists_after_last_process_exits_def
      test_tty_session_entry_retained_while_processes_remain_def
      test_tty_session_count_zero_for_tty_nr_zero_def test_pty_session_survives_gap_between_commands_def
      test_non_pty_session_only_completes_when_last_process_exits_def)

lemma ancestor_test_passes:
  "test_ancestor_comms_walks_chain r1 r2 r3 r4 = Some True"
  by (simp_all add: corr_eval ancestor_comms_def ancestor_walk_numeral
      test_ancestor_comms_walks_chain_def)

definition test_on_exit_unknown_pid_returns_none :: bool where
  "test_on_exit_unknown_pid_returns_none \<longleftrightarrow> snd (corr_on_exit correlator_default 999) = None"

definition test_ancestor_comms_empty_for_unknown :: bool where
  "test_ancestor_comms_empty_for_unknown \<longleftrightarrow> ancestor_comms correlator_default 999 = []"

lemma empty_correlator_tests_pass:
  "test_on_exit_unknown_pid_returns_none"
  "test_ancestor_comms_empty_for_unknown"
  by (simp_all add: corr_eval ancestor_comms_def ancestor_walk_numeral
      test_on_exit_unknown_pid_returns_none_def test_ancestor_comms_empty_for_unknown_def)

definition test_different_ptys_get_different_sessions :: "u8 list \<Rightarrow> u8 list \<Rightarrow> bool option" where
  "test_different_ptys_get_different_sessions r1 r2 = do {
      (c, s1) \<leftarrow> exec r1 correlator_default (ei 100 1 42);
      (c, s2) \<leftarrow> exec r2 c (ei 200 1 43);
      Some (s1 \<noteq> s2) }"

definition test_unknown_parent_gets_singleton :: "u8 list \<Rightarrow> u8 list \<Rightarrow> bool option" where
  "test_unknown_parent_gets_singleton r1 r2 = do {
      (c, s1) \<leftarrow> exec r1 correlator_default (ei 100 999 0);
      (c, s2) \<leftarrow> exec r2 c (ei 200 998 0);
      Some (s1 \<noteq> s2) }"

lemma separate_session_tests_pass:
  assumes "generate_session_id (Some r1) \<noteq> generate_session_id (Some r2)"
  shows "test_different_ptys_get_different_sessions r1 r2 = Some True" "test_unknown_parent_gets_singleton r1 r2 = Some True"
  using assms
  by (simp_all add: corr_eval
      test_different_ptys_get_different_sessions_def test_unknown_parent_gets_singleton_def)

section \<open>Filter\<close>

definition test_no_filters_passes_everything :: bool where
  "test_no_filters_passes_everything \<longleftrightarrow> passes_filter \<lparr>filter_pty = False, filter_ancestors = []\<rparr>
      \<lparr>fi_tty_nr = 0, fi_comm = ''cat'', fi_ancestor_comms = []\<rparr>"

definition test_pty_filter_passes_pty_process :: bool where
  "test_pty_filter_passes_pty_process \<longleftrightarrow> passes_filter \<lparr>filter_pty = True, filter_ancestors = []\<rparr>
      \<lparr>fi_tty_nr = 42, fi_comm = ''bash'', fi_ancestor_comms = []\<rparr>"

definition test_pty_filter_rejects_non_pty_process :: bool where
  "test_pty_filter_rejects_non_pty_process \<longleftrightarrow> (\<not> passes_filter \<lparr>filter_pty = True, filter_ancestors = []\<rparr>
      \<lparr>fi_tty_nr = 0, fi_comm = ''cron'', fi_ancestor_comms = []\<rparr>)"

definition test_ancestor_filter_passes_matching_ancestor :: bool where
  "test_ancestor_filter_passes_matching_ancestor \<longleftrightarrow> passes_filter \<lparr>filter_pty = False, filter_ancestors = [''sshd'']\<rparr>
      \<lparr>fi_tty_nr = 0, fi_comm = ''ls'', fi_ancestor_comms = [''bash'', ''sshd'']\<rparr>"

definition test_ancestor_filter_passes_matching_self_comm :: bool where
  "test_ancestor_filter_passes_matching_self_comm \<longleftrightarrow> passes_filter \<lparr>filter_pty = False, filter_ancestors = [''sshd'']\<rparr>
      \<lparr>fi_tty_nr = 0, fi_comm = ''sshd'', fi_ancestor_comms = []\<rparr>"

definition test_ancestor_filter_rejects_no_match :: bool where
  "test_ancestor_filter_rejects_no_match \<longleftrightarrow> (\<not> passes_filter \<lparr>filter_pty = False, filter_ancestors = [''sshd'']\<rparr>
      \<lparr>fi_tty_nr = 0, fi_comm = ''cron'', fi_ancestor_comms = [''crond'', ''systemd'']\<rparr>)"

definition test_or_composition_pty_matches :: bool where
  "test_or_composition_pty_matches \<longleftrightarrow> passes_filter \<lparr>filter_pty = True, filter_ancestors = [''sshd'']\<rparr>
      \<lparr>fi_tty_nr = 42, fi_comm = ''vim'', fi_ancestor_comms = [''bash'']\<rparr>"

definition test_or_composition_ancestor_matches :: bool where
  "test_or_composition_ancestor_matches \<longleftrightarrow> passes_filter \<lparr>filter_pty = True, filter_ancestors = [''sshd'']\<rparr>
      \<lparr>fi_tty_nr = 0, fi_comm = ''rsync'', fi_ancestor_comms = [''sshd'']\<rparr>"

definition test_or_composition_neither_matches :: bool where
  "test_or_composition_neither_matches \<longleftrightarrow> (\<not> passes_filter \<lparr>filter_pty = True, filter_ancestors = [''sshd'']\<rparr>
      \<lparr>fi_tty_nr = 0, fi_comm = ''cron'', fi_ancestor_comms = [''crond'']\<rparr>)"

definition test_multiple_ancestor_names :: bool where
  "test_multiple_ancestor_names \<longleftrightarrow> passes_filter \<lparr>filter_pty = False, filter_ancestors = [''sshd'', ''my-agent'']\<rparr>
      \<lparr>fi_tty_nr = 0, fi_comm = ''python'', fi_ancestor_comms = [''my-agent'']\<rparr>"

definition test_filter_config_is_empty :: bool where
  "test_filter_config_is_empty \<longleftrightarrow> filter_config_is_empty \<lparr>filter_pty = False, filter_ancestors = []\<rparr>
      \<and> \<not> filter_config_is_empty \<lparr>filter_pty = True, filter_ancestors = []\<rparr>
      \<and> \<not> filter_config_is_empty \<lparr>filter_pty = False, filter_ancestors = [''sshd'']\<rparr>"

lemma filter_tests_pass:
  "test_no_filters_passes_everything"
  "test_pty_filter_passes_pty_process"
  "test_pty_filter_rejects_non_pty_process"
  "test_ancestor_filter_passes_matching_ancestor"
  "test_ancestor_filter_passes_matching_self_comm"
  "test_ancestor_filter_rejects_no_match"
  "test_or_composition_pty_matches"
  "test_or_composition_ancestor_matches"
  "test_or_composition_neither_matches"
  "test_multiple_ancestor_names"
  "test_filter_config_is_empty"
  by (simp_all add: passes_filter_def filter_config_is_empty_def
      test_no_filters_passes_everything_def test_pty_filter_passes_pty_process_def
      test_pty_filter_rejects_non_pty_process_def test_ancestor_filter_passes_matching_ancestor_def
      test_ancestor_filter_passes_matching_self_comm_def test_ancestor_filter_rejects_no_match_def
      test_or_composition_pty_matches_def test_or_composition_ancestor_matches_def
      test_or_composition_neither_matches_def test_multiple_ancestor_names_def
      test_filter_config_is_empty_def)

end
