(* ===== verification/SqliteTests.thy ===== *)
theory SqliteTests
  imports Migration Loader TestPrelude "HOL-Library.Monad_Syntax"
begin

text \<open>
  The unit tests of \<open>shspectr/src/sqlite_sink.rs\<close> and \<open>ebpf.rs\<close>, on the model. A test of the sink starts with
  the empty database that \<open>open_in_memory\<close> gives and is \<open>Some True\<close> when its assertions hold; \<open>None\<close> is an
  error of a statement. They hold for every clock and every JSON encoder of the surroundings, as long
  as the statements are answered. A query is a filter on the rows.
\<close>

section \<open>Builders\<close>

definition session_builder :: "session_id \<Rightarrow> session_info" where
  "session_builder sid =
     \<lparr>si_session_id = sid, si_pid = 100, si_comm = ''bash'', si_uid = 1000, si_euid = 1000, si_tty_nr = 42,
      si_cgroup_id = 99\<rparr>"

definition exec_builder :: parsed_exec_event where
  "exec_builder =
     \<lparr>px_pid = 100, px_ppid = 1, px_uid = 1000, px_gid = 1000, px_euid = 1000, px_comm = ''ls'', px_tty_nr = 42,
      px_cgroup_id = 99, px_execution_id = 500, px_filename = ''/usr/bin/ls'', px_argv = [''ls'', ''-la''], px_retval = 0\<rparr>"

definition exit_builder :: parsed_exit_event where
  "exit_builder =
     \<lparr>pe_pid = 100, pe_ppid = 1, pe_uid = 1000, pe_gid = 1000, pe_euid = 1000, pe_comm = ''ls'', pe_tty_nr = 42,
      pe_cgroup_id = 99, pe_execution_id = 500, pe_exit_code = 0\<rparr>"

definition hello_io :: parsed_io_event where
  "hello_io =
     \<lparr>pio_pid = 100, pio_ppid = 1, pio_uid = 1000, pio_gid = 1000, pio_euid = 1000, pio_comm = ''echo'', pio_tty_nr = 42,
      pio_cgroup_id = 99, pio_execution_id = 500, pio_fd = 1,
      pio_data = bytes_of (''hello world'' @ [CHR 0x0A]), pio_count = 12\<rparr>"

definition test_sink :: database where
  "test_sink = empty_database True"

text \<open>The operator \<open>?\<close>.\<close>

definition must :: "database \<times> bool \<Rightarrow> database option" where
  "must r = (if snd r then Some (fst r) else None)"

text \<open>\<open>query_row\<close> reads the first row of the answer.\<close>

definition query_row :: "('r \<Rightarrow> bool) \<Rightarrow> 'r list \<Rightarrow> 'r option" where
  "query_row p rows = (case filter p rows of [] \<Rightarrow> None | r # _ \<Rightarrow> Some r)"

text \<open>The sink of a test: its tables are created empty.\<close>

definition open_in_memory :: "(statement \<Rightarrow> bool) \<Rightarrow> store \<times> bool" where
  "open_in_memory fails =
     and_then (execute_batch fails SCHEMA \<lparr>st_fk = True, st_tables = [], st_indexes = []\<rparr>) (ensure_schema_compat fails)"

section \<open>Sink\<close>

definition test_schema_creation :: bool where
  "test_schema_creation \<longleftrightarrow> (case open_in_memory (\<lambda>s. False) of (st, ok) \<Rightarrow> ok
      \<and> map_option (length \<circ> tb_rows) (map_of (st_tables st) ''sessions'') = Some 0
      \<and> map_option (length \<circ> tb_rows) (map_of (st_tables st) ''events'') = Some 0)"

definition test_ensure_session_creates_row :: "sql_env \<Rightarrow> bool option" where
  "test_ensure_session_creates_row env = do {
      let id = ''ox_test1234'';
      db \<leftarrow> must (ensure_session env (session_builder id) test_sink);
      r \<leftarrow> query_row (\<lambda>r. sr_id r = id) (db_sessions db);
      Some (sr_id r = ''ox_test1234'' \<and> sr_root_pid r = 100 \<and> sr_uid r = 1000) }"

definition test_ensure_session_idempotent :: "sql_env \<Rightarrow> bool option" where
  "test_ensure_session_idempotent env = do {
      let id = ''ox_test1234'';
      db \<leftarrow> must (ensure_session env (session_builder id) test_sink);
      db \<leftarrow> must (ensure_session env ((session_builder id)\<lparr>si_pid := 200, si_comm := ''zsh'', si_uid := 2000, si_euid := 2000, si_tty_nr := 0,
        si_cgroup_id := 0\<rparr>) db);
      r \<leftarrow> query_row (\<lambda>r. sr_id r = id) (db_sessions db);
      Some (sr_root_pid r = 100) }"

definition test_insert_exec_event :: "sql_env \<Rightarrow> bool option" where
  "test_insert_exec_event env = do {
      let id = ''ox_abc'';
      db \<leftarrow> must (ensure_session env (session_builder id) test_sink);
      db \<leftarrow> must (insert_exec env id exec_builder db);
      r \<leftarrow> query_row (\<lambda>r. er_session_id r = id) (db_events db);
      Some (er_event_type r = int_u32 (event_type_as_wire Exec) \<and> er_pid r = 100 \<and> er_execution_id r = 500 \<and> er_filename r = Some ''/usr/bin/ls'') }"

definition test_insert_exit_only_closes_session_when_requested :: "sql_env \<Rightarrow> bool option" where
  "test_insert_exit_only_closes_session_when_requested env = do {
      let id = ''ox_abc'';
      db \<leftarrow> must (ensure_session env (session_builder id) test_sink);
      db \<leftarrow> must (insert_exit env id (exit_builder\<lparr>pe_comm := ''bash'', pe_exit_code := 0\<rparr>) False db);
      r \<leftarrow> query_row (\<lambda>r. sr_id r = id) (db_sessions db);
      db \<leftarrow> must (insert_exit env id (exit_builder\<lparr>pe_pid := 101, pe_execution_id := 501, pe_exit_code := 0\<rparr>) True db);
      r2 \<leftarrow> query_row (\<lambda>r. sr_id r = id) (db_sessions db);
      Some (sr_ended_at r = None \<and> sr_ended_at r2 \<noteq> None) }"

definition test_insert_io_event :: "sql_env \<Rightarrow> bool option" where
  "test_insert_io_event env = do {
      let id = ''ox_abc'';
      db \<leftarrow> must (ensure_session env (session_builder id) test_sink);
      db \<leftarrow> must (insert_io env id hello_io Write db);
      r \<leftarrow> query_row (\<lambda>r. er_session_id r = id) (db_events db);
      Some (er_event_type r = int_u32 (event_type_as_wire Write) \<and> er_execution_id r = 500 \<and> er_fd r = Some 1 \<and> er_data r = Some (''hello world'' @ [CHR 0x0A])) }"

definition test_insert_exit_backfills_exit_code_on_exec_row :: "sql_env \<Rightarrow> bool option" where
  "test_insert_exit_backfills_exit_code_on_exec_row env = do {
      let id = ''ox_abc'';
      db \<leftarrow> must (ensure_session env (session_builder id) test_sink);
      db \<leftarrow> must (insert_exec env id exec_builder db);
      db \<leftarrow> must (insert_exit env id (exit_builder\<lparr>pe_exit_code := 42\<rparr>) True db);
      r \<leftarrow> query_row (\<lambda>r. er_session_id r = id \<and> er_event_type r = int_u32 (event_type_as_wire Exec) \<and> er_pid r = 100)
        (db_events db);
      Some (er_exit_code r = Some 42) }"

definition test_query_events_by_session_and_type :: "sql_env \<Rightarrow> bool option" where
  "test_query_events_by_session_and_type env = do {
      let id = ''ox_abc'';
      db \<leftarrow> must (ensure_session env (session_builder id) test_sink);
      db \<leftarrow> must (insert_exec env id exec_builder db);
      db \<leftarrow> must (insert_exit env id (exit_builder\<lparr>pe_exit_code := 0\<rparr>) True db);
      Some (length (filter (\<lambda>r. er_session_id r = id \<and> er_event_type r = int_u32 (event_type_as_wire Exec)) (db_events db)) = 1
        \<and> length (filter (\<lambda>r. er_session_id r = id) (db_events db)) = 2) }"

definition test_insert_exit_backfills_matching_execution_only :: "sql_env \<Rightarrow> bool option" where
  "test_insert_exit_backfills_matching_execution_only env = do {
      let id = ''ox_abc'';
      db \<leftarrow> must (ensure_session env (session_builder id) test_sink);
      db \<leftarrow> must (insert_exec env id (exec_builder\<lparr>px_pid := 100, px_execution_id := 10\<rparr>) db);
      db \<leftarrow> must (insert_exec env id (exec_builder\<lparr>px_pid := 100, px_execution_id := 11\<rparr>) db);
      db \<leftarrow> must (insert_exit env id (exit_builder\<lparr>pe_pid := 100, pe_execution_id := 10, pe_exit_code := 7\<rparr>) False db);
      Some (map (\<lambda>r. (er_execution_id r, er_exit_code r)) (sort_key er_execution_id
        (filter (\<lambda>r. er_session_id r = id \<and> er_event_type r = int_u32 (event_type_as_wire Exec)) (db_events db)))
        = [(10, Some 7), (11, None)]) }"

lemma hello_text: "lossy_string (bytes_of (''hello world'' @ [CHR 0x0A])) = ''hello world'' @ [CHR 0x0A]"
  by (rule lossy_ascii) (simp add: u8_of_char_def)

lemma sink_tests_pass:
  assumes "\<And>n. \<not> se_fails env n"
  shows "test_ensure_session_creates_row env = Some True"
    "test_ensure_session_idempotent env = Some True"
    "test_insert_exec_event env = Some True"
    "test_insert_exit_only_closes_session_when_requested env = Some True"
    "test_insert_io_event env = Some True"
    "test_insert_exit_backfills_exit_code_on_exec_row env = Some True"
    "test_query_events_by_session_and_type env = Some True"
    "test_insert_exit_backfills_matching_execution_only env = Some True"
  using assms
  by (simp_all add: test_ensure_session_creates_row_def test_ensure_session_idempotent_def test_insert_exec_event_def
      test_insert_exit_only_closes_session_when_requested_def test_insert_io_event_def
      test_insert_exit_backfills_exit_code_on_exec_row_def test_query_events_by_session_and_type_def
      test_insert_exit_backfills_matching_execution_only_def
      session_builder_def exec_builder_def exit_builder_def hello_io_def test_sink_def must_def query_row_def
      ensure_session_def insert_exec_def insert_exit_def insert_io_def sql_run_def insert_session_or_ignore_def
      insert_event_def session_exists_def empty_database_def session_row_of_def exec_row_def exit_row_def io_row_def
      backfill_exit_code_def newest_id_def exec_of_execution_def update_events_def update_sessions_def I64_MAX_def
      int_u32_def saturate_i64_def Let_def hello_text [simplified])

lemma schema_test_passes: "test_schema_creation"
  by code_simp

section \<open>The path of the programs\<close>

definition path_text :: "string \<Rightarrow> path" where
  "path_text s = Path True (tl (str_split (CHR ''/'') s))"

definition test_ebpf_path_prefers_environment_override :: "path \<Rightarrow> bool" where
  "test_ebpf_path_prefers_environment_override manifest_dir = (ebpf_artifact_path_from manifest_dir path_text (Some ''/tmp/custom-ebpf'') (path_text ''/ignored/bin/shspectr'')
      = path_text ''/tmp/custom-ebpf'')"

definition test_ebpf_path_falls_back_next_to_binary_tree :: "path \<Rightarrow> bool" where
  "test_ebpf_path_falls_back_next_to_binary_tree manifest_dir = (ebpf_artifact_path_from manifest_dir path_text None (path_text ''/opt/shspectr/bin/shspectr'')
      = path_text ''/opt/shspectr/shspectr-ebpf'')"

definition test_ebpf_path_uses_workspace_layout_for_target_debug_binary :: "path \<Rightarrow> bool" where
  "test_ebpf_path_uses_workspace_layout_for_target_debug_binary manifest_dir = (ebpf_artifact_path_from manifest_dir path_text None (path_text ''/home/jon/oxilog/target/debug/shspectr'')
      = path_text ''/home/jon/oxilog/shspectr-ebpf/target/bpfel-unknown-none/release/shspectr-ebpf'')"

lemma path_tests_pass:
  "test_ebpf_path_prefers_environment_override m"
  "test_ebpf_path_falls_back_next_to_binary_tree m"
  "test_ebpf_path_uses_workspace_layout_for_target_debug_binary m"
  by (simp_all add: ebpf_artifact_path_from_def ARTIFACT_def path_text_def
      test_ebpf_path_prefers_environment_override_def test_ebpf_path_falls_back_next_to_binary_tree_def
      test_ebpf_path_uses_workspace_layout_for_target_debug_binary_def)

end
