(* ===== verification/WireTests.thy ===== *)
theory WireTests
  imports Display Ebpf Btf TestPrelude
begin

text \<open>
  The unit tests of \<open>shspectr-common/src/event.rs\<close>, \<open>event_type.rs\<close>, \<open>offsets.rs\<close> and of \<open>shspectr/src/event.rs\<close>, on
  the model. \<open>offset_of!\<close> is where a field is found in the memory image of any struct.
\<close>

section \<open>Layout\<close>

definition test_event_header_offsets :: "event_header \<Rightarrow> bool" where
  "test_event_header_offsets h = (u32_at 0 (header_bytes h) = h_event_type h
      \<and> u64_at 8 (header_bytes h) = h_timestamp_ns h
      \<and> u32_at 16 (header_bytes h) = h_pid h
      \<and> u32_at 20 (header_bytes h) = h_ppid h
      \<and> u32_at 24 (header_bytes h) = h_tgid h
      \<and> u32_at 28 (header_bytes h) = h_tid h
      \<and> u32_at 32 (header_bytes h) = h_uid h
      \<and> u32_at 36 (header_bytes h) = h_gid h
      \<and> u32_at 40 (header_bytes h) = h_euid h
      \<and> field 44 COMM_LEN (header_bytes h) = h_comm h
      \<and> u32_at 60 (header_bytes h) = h_tty_nr h
      \<and> u64_at 64 (header_bytes h) = h_execution_id h
      \<and> u64_at 72 (header_bytes h) = h_cgroup_id h)"

definition test_exec_event_offsets :: "exec_event \<Rightarrow> bool" where
  "test_exec_event_offsets e = (field 0 80 (exec_event_bytes e) = header_bytes (x_header e)
      \<and> field 80 MAX_FILENAME_LEN (exec_event_bytes e) = x_filename e
      \<and> field (80 + MAX_FILENAME_LEN) (MAX_ARGV_COUNT * MAX_ARG_LEN) (exec_event_bytes e) = concat (x_argv e)
      \<and> u32_at (80 + MAX_FILENAME_LEN + MAX_ARGV_COUNT * MAX_ARG_LEN) (exec_event_bytes e) = x_argc e
      \<and> u64_at (80 + MAX_FILENAME_LEN + MAX_ARGV_COUNT * MAX_ARG_LEN + 8) (exec_event_bytes e) = x_retval e)"

definition test_exit_event_offsets :: "exit_event \<Rightarrow> bool" where
  "test_exit_event_offsets e = (u32_at 80 (exit_event_bytes e) = e_exit_code e \<and> length (exit_event_bytes e) = 88)"

definition test_io_event_offsets :: "io_event \<Rightarrow> bool" where
  "test_io_event_offsets e = (u32_at 80 (io_event_bytes e) = io_fd e
      \<and> u32_at 84 (io_event_bytes e) = io_data_len e
      \<and> u64_at 88 (io_event_bytes e) = io_count e
      \<and> field 96 MAX_DATA_LEN (io_event_bytes e) = io_data e)"

lemma offset_tests_pass:
  "wf_header h \<Longrightarrow> test_event_header_offsets h"
  "wf_exec_event x \<Longrightarrow> test_exec_event_offsets x"
  "wf_exit_event e \<Longrightarrow> test_exit_event_offsets e"
  "wf_io_event i \<Longrightarrow> test_io_event_offsets i"
proof -
  have h: "read_header (header_bytes h) = h" if "wf_header h" for h
    using read_header_bytes [OF that, of "[]"] by simp
  show "wf_header h \<Longrightarrow> test_event_header_offsets h"
    by (simp add: test_event_header_offsets_def header_bytes_def wf_header_def u32_at_append u64_at_append
        field_append_skip field_append_in field_all layout)
  show "wf_exec_event x \<Longrightarrow> test_exec_event_offsets x"
    using length_concat_argv [of x]
    by (simp add: test_exec_event_offsets_def exec_event_bytes_def wf_exec_event_def u32_at_append u64_at_append
        field_append_skip field_append_in field_all layout)
  show "wf_exit_event e \<Longrightarrow> test_exit_event_offsets e"
    by (simp add: test_exit_event_offsets_def exit_event_bytes_def wf_exit_event_def u32_at_append)
  show "wf_io_event i \<Longrightarrow> test_io_event_offsets i"
    by (simp add: test_io_event_offsets_def io_event_bytes_def wf_io_event_def u32_at_append u64_at_append
        field_append_skip field_append_in field_all layout)
qed

definition test_event_header_size :: bool where
  "test_event_header_size \<longleftrightarrow> header_size = 80"

definition test_io_event_size :: bool where
  "test_io_event_size \<longleftrightarrow> io_event_size = 96 + MAX_DATA_LEN"

definition test_small_events_fit_bpf_stack :: bool where
  "test_small_events_fit_bpf_stack \<longleftrightarrow> (let bpf_stack = 512 in exit_event_size \<le> bpf_stack \<and> header_size \<le> bpf_stack)"

definition test_exec_event_size :: bool where
  "test_exec_event_size \<longleftrightarrow> exec_event_size = 80 + MAX_FILENAME_LEN + MAX_ARGV_COUNT * MAX_ARG_LEN + 16"

lemma size_tests_pass:
  "test_event_header_size"
  "test_io_event_size"
  "test_small_events_fit_bpf_stack"
  "test_exec_event_size"
  by (simp_all add: layout
      test_event_header_size_def test_io_event_size_def test_small_events_fit_bpf_stack_def
      test_exec_event_size_def)

definition test_event_header_validates_wire_version_and_type :: bool where
  "test_event_header_validates_wire_version_and_type \<longleftrightarrow> (let header = event_header_new Exec 0 1 0 1 1 1000 1000 1000 (replicate COMM_LEN 0) 0 7 9
      in decoded_event_type header = Some Exec
         \<and> decoded_event_type (header\<lparr>h_wire_version := WIRE_VERSION + 1\<rparr>) = None
         \<and> decoded_event_type (header\<lparr>h_wire_version := WIRE_VERSION, h_event_type := 99\<rparr>) = None)"

definition test_exec_event_zeroed_fields :: bool where
  "test_exec_event_zeroed_fields \<longleftrightarrow> (let evt = exec_event_zeroed (event_header_new Exec 0 0 0 0 0 0 0 0 (replicate COMM_LEN 0) 0 0 0)
      in x_argc evt = 0 \<and> x_retval evt = 0 \<and> x_filename evt = replicate MAX_FILENAME_LEN 0)"

definition test_io_event_zeroed_fields :: bool where
  "test_io_event_zeroed_fields \<longleftrightarrow> (let evt = io_event_zeroed (event_header_new Read 0 0 0 0 0 0 0 0 (replicate COMM_LEN 0) 0 0 0)
      in io_fd evt = 0 \<and> io_data_len evt = 0 \<and> io_count evt = 0 \<and> io_data evt = replicate MAX_DATA_LEN 0)"

lemma struct_tests_pass:
  "test_event_header_validates_wire_version_and_type"
  "test_exec_event_zeroed_fields"
  "test_io_event_zeroed_fields"
  by (simp_all add: decoded_event_type_def event_header_new_def WIRE_VERSION_def event_type_from_wire_def
      exec_event_zeroed_def io_event_zeroed_def
      test_event_header_validates_wire_version_and_type_def test_exec_event_zeroed_fields_def
      test_io_event_zeroed_fields_def)

section \<open>Event types\<close>

definition test_event_type_discriminants :: bool where
  "test_event_type_discriminants \<longleftrightarrow> event_type_as_wire Exec = 0
      \<and> event_type_as_wire Read = 2
      \<and> event_type_as_wire Write = 3
      \<and> event_type_as_wire Exit = 4"

definition test_event_type_from_wire_rejects_unknown_values :: bool where
  "test_event_type_from_wire_rejects_unknown_values \<longleftrightarrow> event_type_from_wire 1 = None \<and> event_type_from_wire 99 = None"

definition test_event_type_display :: bool where
  "test_event_type_display \<longleftrightarrow> event_type_display Exec = ''exec''
      \<and> event_type_display Read = ''read''
      \<and> event_type_display Write = ''write''
      \<and> event_type_display Exit = ''exit''"

definition test_event_type_as_str :: bool where
  "test_event_type_as_str \<longleftrightarrow> event_type_as_str Exec = ''exec''
      \<and> event_type_as_str Read = ''read''
      \<and> event_type_as_str Write = ''write''
      \<and> event_type_as_str Exit = ''exit''"

definition test_event_type_from_str :: bool where
  "test_event_type_from_str \<longleftrightarrow> event_type_from_str ''exec'' = Inr Exec
      \<and> event_type_from_str ''read'' = Inr Read
      \<and> event_type_from_str ''write'' = Inr Write
      \<and> event_type_from_str ''exit'' = Inr Exit
      \<and> \<not> is_ok (event_type_from_str ''unknown'')
      \<and> \<not> is_ok (event_type_from_str ''EXEC'')"

definition test_event_type_display_roundtrips :: bool where
  "test_event_type_display_roundtrips \<longleftrightarrow> list_all (\<lambda>et. event_type_from_str (event_type_display et) = Inr et) [Exec, Read, Write, Exit]"

lemma event_type_tests_pass:
  "test_event_type_discriminants"
  "test_event_type_from_wire_rejects_unknown_values"
  "test_event_type_display"
  "test_event_type_as_str"
  "test_event_type_from_str"
  "test_event_type_display_roundtrips"
  by (simp_all add: event_type_from_wire_def event_type_display_def event_type_from_str_def
      test_event_type_discriminants_def test_event_type_from_wire_rejects_unknown_values_def
      test_event_type_display_def test_event_type_as_str_def test_event_type_from_str_def
      test_event_type_display_roundtrips_def)

section \<open>Parsers\<close>

definition make_exec_event :: "string \<Rightarrow> string list \<Rightarrow> i64 \<Rightarrow> u8 list" where
  "make_exec_event filename argv retval = exec_event_bytes (exec_image
     (event_header_new Exec 12345 100 1 100 100 1000 1000 1000 (null_padded COMM_LEN ''test'') 7 777 42) filename argv retval)"

definition make_exit_event :: "i32 \<Rightarrow> u8 list" where
  "make_exit_event exit_code = exit_event_bytes (exit_event_new
     (event_header_new Exit 99999 200 1 200 200 1000 1000 0 (null_padded COMM_LEN ''bash'') 7 888 42) exit_code)"

definition make_io_event :: "u32 \<Rightarrow> u8 list \<Rightarrow> u64 \<Rightarrow> u8 list" where
  "make_io_event fd payload count = io_event_bytes
     \<lparr>io_header = event_header_new (if fd = 0 then Read else Write) 55555 300 1 300 300 1000 1000 0
        (null_padded COMM_LEN ''cat'') 7 999 42,
      io_fd = fd, io_data_len = of_nat (length payload), io_count = count,
      io_data = payload @ replicate (MAX_DATA_LEN - length payload) 0\<rparr>"

definition overwrite :: "nat \<Rightarrow> u8 list \<Rightarrow> u8 list \<Rightarrow> u8 list" where
  "overwrite off bs data = take off data @ bs @ drop (off + length bs) data"

text \<open>\<open>expect\<close>, then the assertions.\<close>

definition parsed_as :: "parse_error + 'p \<Rightarrow> ('p \<Rightarrow> bool) \<Rightarrow> bool" where
  "parsed_as r P \<longleftrightarrow> (case r of Inl _ \<Rightarrow> False | Inr parsed \<Rightarrow> P parsed)"

definition test_cstr_from_bytes_normal_string :: bool where
  "test_cstr_from_bytes_normal_string \<longleftrightarrow> cstr_from_bytes (bytes_of ''hello'' @ 0 # bytes_of ''world'') = ''hello''"

definition test_cstr_from_bytes_no_null :: bool where
  "test_cstr_from_bytes_no_null \<longleftrightarrow> cstr_from_bytes (bytes_of ''hello'') = ''hello''"

definition test_cstr_from_bytes_empty :: bool where
  "test_cstr_from_bytes_empty \<longleftrightarrow> cstr_from_bytes [] = []"

definition test_cstr_from_bytes_leading_null :: bool where
  "test_cstr_from_bytes_leading_null \<longleftrightarrow> cstr_from_bytes (0 # bytes_of ''abc'') = []"

definition test_cstr_from_bytes_invalid_utf8 :: bool where
  "test_cstr_from_bytes_invalid_utf8 \<longleftrightarrow> cstr_from_bytes [0xFF, 0xFE, 0] = map char_of_u8 (utf8_replacement @ utf8_replacement)"

lemma hello_bytes: "lossy_string (bytes_of ''hello'') = ''hello''" "list_all (\<lambda>b. b \<noteq> 0) (bytes_of ''hello'')"
proof -
  show "lossy_string (bytes_of ''hello'') = ''hello''" by (rule lossy_ascii) (simp add: u8_of_char_def)
  show "list_all (\<lambda>b. b \<noteq> 0) (bytes_of ''hello'')" by (simp add: u8_of_char_def)
qed

lemma cstr_tests_pass:
  "test_cstr_from_bytes_normal_string"
  "test_cstr_from_bytes_no_null"
  "test_cstr_from_bytes_empty"
  "test_cstr_from_bytes_leading_null"
  "test_cstr_from_bytes_invalid_utf8"
  unfolding test_cstr_from_bytes_normal_string_def test_cstr_from_bytes_no_null_def
      test_cstr_from_bytes_empty_def test_cstr_from_bytes_leading_null_def
      test_cstr_from_bytes_invalid_utf8_def
      cstr_from_bytes_stop [OF hello_bytes(2)] cstr_from_bytes_no_null [OF hello_bytes(2)] hello_bytes(1)
  by (simp_all add: cstr_from_bytes_def lossy_string_def utf8_lossy.simps(2) utf8_head_def)

definition test_parse_exec_event_roundtrip :: bool where
  "test_parse_exec_event_roundtrip \<longleftrightarrow> parsed_as (parsed_exec_try_from (make_exec_event ''/usr/bin/ls'' [''ls'', ''-la'', ''/tmp''] 0)) (\<lambda>parsed. px_filename parsed = ''/usr/bin/ls''
      \<and> px_argv parsed = [''ls'', ''-la'', ''/tmp'']
      \<and> px_retval parsed = 0
      \<and> px_pid parsed = 100
      \<and> px_ppid parsed = 1
      \<and> px_uid parsed = 1000
      \<and> px_gid parsed = 1000
      \<and> px_euid parsed = 1000
      \<and> px_comm parsed = ''test''
      \<and> px_tty_nr parsed = 7
      \<and> px_cgroup_id parsed = 42
      \<and> px_execution_id parsed = 777)"

definition test_parse_exec_event_failed_exec :: bool where
  "test_parse_exec_event_failed_exec \<longleftrightarrow> parsed_as (parsed_exec_try_from (make_exec_event ''/usr/bin/nonexistent'' [''nonexistent''] (- 2))) (\<lambda>parsed. px_retval parsed = - 2)"

definition test_parse_exec_event_no_args :: bool where
  "test_parse_exec_event_no_args \<longleftrightarrow> parsed_as (parsed_exec_try_from (make_exec_event ''/bin/true'' [] 0)) (\<lambda>parsed. px_argv parsed = [])"

lemma ascii_fits: "ascii s \<Longrightarrow> list_all (\<lambda>c. u8_of_char c \<noteq> 0) s \<Longrightarrow> length s \<le> n \<Longrightarrow> fits n s"
  by (simp add: fits_def valid_ascii null_free_def)

lemma make_exec_parses:
  assumes "fits MAX_FILENAME_LEN filename" "length argv \<le> MAX_ARGV_COUNT" "\<forall>a \<in> set argv. fits MAX_ARG_LEN a"
  shows "parsed_exec_try_from (make_exec_event filename argv retval) = Inr
    \<lparr>px_pid = 100, px_ppid = 1, px_uid = 1000, px_gid = 1000, px_euid = 1000, px_comm = ''test'', px_tty_nr = 7,
     px_cgroup_id = 42, px_execution_id = 777, px_filename = filename, px_argv = argv, px_retval = retval\<rparr>"
proof -
  have "fits COMM_LEN ''test''" by (rule ascii_fits) (simp_all add: u8_of_char_def layout)
  moreover have "wf_header (event_header_new Exec 12345 100 1 100 100 1000 1000 1000 (null_padded COMM_LEN ''test'') 7 777 42)"
    by (simp add: wf layout)
  ultimately show ?thesis
    using parse_exec_fields [OF _ _ assms, of "event_header_new Exec 12345 100 1 100 100 1000 1000 1000
        (null_padded COMM_LEN ''test'') 7 777 42" retval]
    by (simp add: make_exec_event_def cstr_fits event_header_new_def decoded_event_type_def WIRE_VERSION_def
        event_type_from_wire_def)
qed

lemma exec_tests_pass:
  "test_parse_exec_event_roundtrip"
  "test_parse_exec_event_failed_exec"
  "test_parse_exec_event_no_args"
  by (simp_all add: parsed_as_def make_exec_parses ascii_fits u8_of_char_def layout
      test_parse_exec_event_roundtrip_def test_parse_exec_event_failed_exec_def
      test_parse_exec_event_no_args_def)

definition test_parse_exit_event_success :: bool where
  "test_parse_exit_event_success \<longleftrightarrow> parsed_as (parsed_exit_try_from (make_exit_event 0)) (\<lambda>parsed. pe_pid parsed = 200
      \<and> pe_ppid parsed = 1
      \<and> pe_exit_code parsed = 0
      \<and> pe_comm parsed = ''bash''
      \<and> pe_tty_nr parsed = 7
      \<and> pe_cgroup_id parsed = 42
      \<and> pe_execution_id parsed = 888)"

definition test_parse_exit_event_nonzero_code :: bool where
  "test_parse_exit_event_nonzero_code \<longleftrightarrow> parsed_as (parsed_exit_try_from (make_exit_event 1)) (\<lambda>parsed. pe_exit_code parsed = 1)"

definition test_parse_exit_event_signal_death :: bool where
  "test_parse_exit_event_signal_death \<longleftrightarrow> parsed_as (parsed_exit_try_from (make_exit_event 137)) (\<lambda>parsed. pe_exit_code parsed = 137)"

lemma make_exit_parses: "parsed_exit_try_from (make_exit_event code) = Inr
    \<lparr>pe_pid = 200, pe_ppid = 1, pe_uid = 1000, pe_gid = 1000, pe_euid = 0, pe_comm = ''bash'', pe_tty_nr = 7,
     pe_cgroup_id = 42, pe_execution_id = 888, pe_exit_code = code\<rparr>"
proof -
  have "fits COMM_LEN ''bash''" by (rule ascii_fits) (simp_all add: u8_of_char_def layout)
  then show ?thesis
    unfolding make_exit_event_def
    by (subst parse_exit_image) (simp_all add: wf layout exit_event_new_def exit_of_struct_def event_header_new_def
        cstr_fits wf_exit_event_def wf_header_def decoded_event_type_def WIRE_VERSION_def event_type_from_wire_def)
qed

lemma exit_tests_pass:
  "test_parse_exit_event_success"
  "test_parse_exit_event_nonzero_code"
  "test_parse_exit_event_signal_death"
  by (simp_all add: parsed_as_def make_exit_parses
      test_parse_exit_event_success_def test_parse_exit_event_nonzero_code_def
      test_parse_exit_event_signal_death_def)

definition test_parse_io_event_write_stdout :: bool where
  "test_parse_io_event_write_stdout \<longleftrightarrow> parsed_as (parsed_io_try_from (make_io_event 1 (bytes_of (''hello world'' @ [CHR 0x0A])) 12)) (\<lambda>parsed. pio_pid parsed = 300
      \<and> pio_fd parsed = 1
      \<and> pio_data parsed = bytes_of (''hello world'' @ [CHR 0x0A])
      \<and> pio_count parsed = 12
      \<and> pio_comm parsed = ''cat''
      \<and> pio_execution_id parsed = 999)"

definition test_parse_io_event_read_stdin :: bool where
  "test_parse_io_event_read_stdin \<longleftrightarrow> parsed_as (parsed_io_try_from (make_io_event 0 (bytes_of (''input'' @ [CHR 0x0A])) 6)) (\<lambda>parsed. pio_fd parsed = 0
      \<and> pio_data parsed = bytes_of (''input'' @ [CHR 0x0A])
      \<and> pio_count parsed = 6)"

definition test_parse_io_event_empty_data :: bool where
  "test_parse_io_event_empty_data \<longleftrightarrow> parsed_as (parsed_io_try_from (make_io_event 2 [] 0)) (\<lambda>parsed. pio_fd parsed = 2
      \<and> pio_data parsed = [])"

lemma make_io_parses:
  assumes "length payload \<le> MAX_DATA_LEN"
  shows "parsed_io_try_from (make_io_event fd payload count) = Inr
    \<lparr>pio_pid = 300, pio_ppid = 1, pio_uid = 1000, pio_gid = 1000, pio_euid = 0, pio_comm = ''cat'', pio_tty_nr = 7,
     pio_cgroup_id = 42, pio_execution_id = 999, pio_fd = fd, pio_data = payload, pio_count = count\<rparr>"
proof -
  have "fits COMM_LEN ''cat''" by (rule ascii_fits) (simp_all add: u8_of_char_def layout)
  moreover have "unat (of_nat (length payload) :: u32) = length payload"
    using assms by (simp add: unat_of_nat take_bit_nat_def layout)
  ultimately show ?thesis
    using assms unfolding make_io_event_def
    by (subst parse_io_image [where ty = "if fd = 0 then Read else Write"])
      (simp_all add: wf_io_event_def wf_header_def event_header_new_def io_of_struct_def cstr_fits
        decoded_event_type_def WIRE_VERSION_def event_type_from_wire_def layout)
qed

lemma io_tests_pass:
  "test_parse_io_event_write_stdout"
  "test_parse_io_event_read_stdin"
  "test_parse_io_event_empty_data"
  by (simp_all add: parsed_as_def make_io_parses layout
      test_parse_io_event_write_stdout_def test_parse_io_event_read_stdin_def
      test_parse_io_event_empty_data_def)

definition test_parse_exec_event_too_short :: bool where
  "test_parse_exec_event_too_short \<longleftrightarrow> \<not> is_ok (parsed_exec_try_from (replicate 10 0))"

definition test_parse_header_too_short :: bool where
  "test_parse_header_too_short \<longleftrightarrow> \<not> is_ok (event_header_try_from (replicate 10 0))"

definition test_parse_exit_event_too_short :: bool where
  "test_parse_exit_event_too_short \<longleftrightarrow> \<not> is_ok (parsed_exit_try_from (replicate 10 0))"

definition test_parse_io_event_too_short :: bool where
  "test_parse_io_event_too_short \<longleftrightarrow> \<not> is_ok (parsed_io_try_from (replicate 10 0))"

lemma short_tests_pass:
  "test_parse_exec_event_too_short"
  "test_parse_header_too_short"
  "test_parse_exit_event_too_short"
  "test_parse_io_event_too_short"
  by (simp_all add: event_header_try_from_def parsed_exec_try_from_def parsed_exit_try_from_def parsed_io_try_from_def layout
      test_parse_exec_event_too_short_def test_parse_header_too_short_def
      test_parse_exit_event_too_short_def test_parse_io_event_too_short_def)

definition test_parse_header_rejects_unknown_event_type :: bool where
  "test_parse_header_rejects_unknown_event_type \<longleftrightarrow> (let data = overwrite 0 (u32_bytes 99) (make_exec_event ''/bin/true'' [''true''] 0)
      in \<not> is_ok (event_header_try_from data) \<and> \<not> is_ok (parsed_exec_try_from data))"

definition test_parse_header_rejects_unknown_wire_version :: bool where
  "test_parse_header_rejects_unknown_wire_version \<longleftrightarrow> (let data = overwrite 4 (u32_bytes 99) (make_exec_event ''/bin/true'' [''true''] 0)
      in \<not> is_ok (event_header_try_from data) \<and> \<not> is_ok (parsed_exec_try_from data))"

definition test_parse_exec_event_rejects_mismatched_header_type :: bool where
  "test_parse_exec_event_rejects_mismatched_header_type \<longleftrightarrow> (let data = overwrite 0 (u32_bytes (event_type_as_wire Exit)) (make_exec_event ''/bin/true'' [''true''] 0)
      in \<not> is_ok (parsed_exec_try_from data))"

lemma overwrite_header:
  "overwrite 0 (u32_bytes w) (header_bytes h @ rest) = header_bytes (h\<lparr>h_event_type := w\<rparr>) @ rest"
  "overwrite 4 (u32_bytes w) (header_bytes h @ rest) = header_bytes (h\<lparr>h_wire_version := w\<rparr>) @ rest"
  by (simp_all add: overwrite_def header_bytes_def)

lemma rejected_header:
  assumes "wf_header h" "decoded_event_type h \<noteq> Some Exec"
  shows "\<not> is_ok (parsed_exec_try_from (header_bytes h @ rest))"
    "decoded_event_type h = None \<Longrightarrow> \<not> is_ok (event_header_try_from (header_bytes h @ rest))"
proof -
  show "\<not> is_ok (parsed_exec_try_from (header_bytes h @ rest))"
    using assms by (cases "parsed_exec_try_from (header_bytes h @ rest)") (auto simp: parsed_exec_Inr_iff)
  show "\<not> is_ok (event_header_try_from (header_bytes h @ rest))" if "decoded_event_type h = None"
    using that assms(1) by (cases "event_header_try_from (header_bytes h @ rest)") (auto simp: event_header_try_from_Inr_iff)
qed

lemma rejection_tests_pass:
  "test_parse_header_rejects_unknown_event_type"
  "test_parse_header_rejects_unknown_wire_version"
  "test_parse_exec_event_rejects_mismatched_header_type"
proof -
  define h where "h = event_header_new Exec 12345 100 1 100 100 1000 1000 1000 (null_padded COMM_LEN ''test'') 7 777 42"
  obtain rest where data: "make_exec_event ''/bin/true'' [''true''] 0 = header_bytes h @ rest"
    by (simp add: make_exec_event_def exec_event_bytes_def exec_image_def exec_event_zeroed_def h_def)
  have wf: "wf_header (h\<lparr>h_event_type := w\<rparr>)" "wf_header (h\<lparr>h_wire_version := w\<rparr>)" for w
    by (simp_all add: h_def wf_header_def event_header_new_def layout)
  have bad: "decoded_event_type (h\<lparr>h_event_type := 99\<rparr>) = None" "decoded_event_type (h\<lparr>h_wire_version := 99\<rparr>) = None"
    "decoded_event_type (h\<lparr>h_event_type := event_type_as_wire Exit\<rparr>) = Some Exit"
    by (simp_all add: h_def decoded_event_type_def event_header_new_def WIRE_VERSION_def event_type_from_wire_def)
  show "test_parse_header_rejects_unknown_event_type" "test_parse_header_rejects_unknown_wire_version" "test_parse_exec_event_rejects_mismatched_header_type"
    using bad by (simp_all add: test_parse_header_rejects_unknown_event_type_def test_parse_header_rejects_unknown_wire_version_def
      test_parse_exec_event_rejects_mismatched_header_type_def data overwrite_header rejected_header wf)
qed

definition test_parse_io_event_data_len_clamped_to_max :: bool where
  "test_parse_io_event_data_len_clamped_to_max \<longleftrightarrow> (let header = event_header_new Write 0 100 1 100 100 1000 1000 0 (null_padded COMM_LEN ''test'') 0 0 0;
      event = (io_event_zeroed header)\<lparr>io_data_len := of_nat MAX_DATA_LEN + 500, io_fd := 1\<rparr>;
      event = event\<lparr>io_data := (io_data event)[0 := u8_of_char (CHR ''A''), MAX_DATA_LEN - 1 := u8_of_char (CHR ''Z'')]\<rparr>
      in parsed_as (parsed_io_try_from (io_event_bytes event)) (\<lambda>parsed. length (pio_data parsed) = MAX_DATA_LEN))"

lemma clamp_test_passes: "test_parse_io_event_data_len_clamped_to_max"
  unfolding test_parse_io_event_data_len_clamped_to_max_def Let_def
  by (subst parse_io_image [where ty = Write])
    (simp_all add: parsed_as_def wf_io_event_def io_event_zeroed_def wf layout io_of_struct_def Let_def)

section \<open>Offsets\<close>

definition test_task_field_offsets_array_length_matches_count :: bool where
  "test_task_field_offsets_array_length_matches_count \<longleftrightarrow> (let arr = offsets_as_array \<lparr>task_real_parent = 10, task_tgid = 20, task_cred = 30, cred_euid = 40, task_signal = 50, signal_tty = 60, tty_index = 70, task_files = 80, files_fdt = 90, fdt_fd = 100, file_inode = 110, inode_rdev = 120\<rparr>
      in length arr = OFFSET_COUNT
      \<and> arr ! TASK_REAL_PARENT = 10
      \<and> arr ! TASK_TGID = 20
      \<and> arr ! TASK_CRED = 30
      \<and> arr ! CRED_EUID = 40
      \<and> arr ! TASK_SIGNAL = 50
      \<and> arr ! SIGNAL_TTY = 60
      \<and> arr ! TTY_INDEX = 70
      \<and> arr ! TASK_FILES = 80
      \<and> arr ! FILES_FDT = 90
      \<and> arr ! FDT_FD = 100
      \<and> arr ! FILE_INODE = 110
      \<and> arr ! INODE_RDEV = 120)"

lemma offset_array_test_passes:
  "test_task_field_offsets_array_length_matches_count"
  by (simp_all add: offsets_as_array_def OFFSET_COUNT_def TASK_REAL_PARENT_def TASK_TGID_def TASK_CRED_def CRED_EUID_def TASK_SIGNAL_def SIGNAL_TTY_def TTY_INDEX_def TASK_FILES_def FILES_FDT_def FDT_FD_def FILE_INODE_def INODE_RDEV_def
      test_task_field_offsets_array_length_matches_count_def)

end
