(* ===== verification/BtfTests.thy ===== *)
theory BtfTests
  imports WireTests
begin

text \<open>
  The unit tests of \<open>shspectr/src/btf.rs\<close>, on the model. The tests look for words in the message of an error;
  here the error is the value with that message.
\<close>

definition make_strings :: "string \<Rightarrow> string list \<Rightarrow> string" where
  "make_strings struct_name names = CHR 0x00 # concat (map (\<lambda>s. s @ [CHR 0x00]) (struct_name # names))"

fun field_name_offs :: "nat \<Rightarrow> string list \<Rightarrow> u32 list" where
  "field_name_offs off [] = []"
| "field_name_offs off (f # fs) = of_nat off # field_name_offs (off + length f + 1) fs"

definition make_entry :: "string \<Rightarrow> string list \<Rightarrow> btf_entry" where
  "make_entry struct_name names =
     BtfStruct 1 (push_bit 24 BTF_KIND_STRUCT OR of_nat (length names)) (of_nat (length names * 8))
       (map (\<lambda>(i, name_off). (name_off, 0, of_nat i * 64))
         (enumerate 0 (field_name_offs (length struct_name + 2) names)))"

definition make_btf :: "string \<Rightarrow> string list \<Rightarrow> u8 list" where
  "make_btf struct_name names = btf_blob [make_entry struct_name names] (make_strings struct_name names)"

definition opened :: "u8 list \<Rightarrow> (btf \<Rightarrow> bool) \<Rightarrow> bool" where
  "opened data P \<longleftrightarrow> (case btf_from_bytes data of Inl _ \<Rightarrow> False | Inr btf \<Rightarrow> P btf)"

definition two_structs :: "u8 list" where
  "two_structs = btf_blob
     [BtfStruct 1 (push_bit 24 BTF_KIND_STRUCT OR 1) 8 [(14, 0, 0)],
      BtfStruct 16 (push_bit 24 BTF_KIND_STRUCT OR 1) 24 [(30, 0, 128)]]
     (CHR 0x00 # concat (map (\<lambda>s. s @ [CHR 0x00]) [''other_struct'', ''x'', ''target_struct'', ''y'']))"

definition test_struct_field_offset_finds_first_field :: bool where
  "test_struct_field_offset_finds_first_field \<longleftrightarrow> opened (make_btf ''my_struct'' [''alpha'', ''beta'', ''gamma''])
      (\<lambda>btf. struct_field_offset btf ''my_struct'' ''alpha'' = Inr 0)"

definition test_struct_field_offset_finds_later_field :: bool where
  "test_struct_field_offset_finds_later_field \<longleftrightarrow> opened (make_btf ''my_struct'' [''alpha'', ''beta'', ''gamma''])
      (\<lambda>btf. struct_field_offset btf ''my_struct'' ''beta'' = Inr 8
      \<and> struct_field_offset btf ''my_struct'' ''gamma'' = Inr 16)"

definition test_struct_field_offset_missing_field :: bool where
  "test_struct_field_offset_missing_field \<longleftrightarrow> opened (make_btf ''my_struct'' [''alpha''])
      (\<lambda>btf. struct_field_offset btf ''my_struct'' ''missing'' = Inl (FieldNotFound ''missing'' ''my_struct''))"

definition test_struct_field_offset_missing_struct :: bool where
  "test_struct_field_offset_missing_struct \<longleftrightarrow> opened (make_btf ''my_struct'' [''alpha''])
      (\<lambda>btf. struct_field_offset btf ''other_struct'' ''alpha'' = Inl (StructNotFound ''other_struct''))"

definition test_struct_field_offset_with_multiple_structs :: bool where
  "test_struct_field_offset_with_multiple_structs \<longleftrightarrow> opened two_structs
      (\<lambda>btf. struct_field_offset btf ''target_struct'' ''y'' = Inr 16
      \<and> struct_field_offset btf ''other_struct'' ''x'' = Inr 0)"

definition test_struct_field_offset_rejects_bad_string_offset :: bool where
  "test_struct_field_offset_rejects_bad_string_offset \<longleftrightarrow> opened (overwrite 24 (u32_bytes 999) (make_btf ''my_struct'' [''alpha'']))
      (\<lambda>btf. struct_field_offset btf ''my_struct'' ''alpha'' = Inl (StringOutside 999))"

lemma opened_blob:
  assumes "length (concat (map entry_bytes es)) < 2 ^ 31" "length strings < 2 ^ 31" "list_all wf_entry es"
  shows "opened (btf_blob es strings) P \<longleftrightarrow> P (btf_table es strings)"
    "struct_field_offset (btf_table es strings) s f = find_field (btf_string (btf_table es strings)) s f es"
  using btf_open_blob [OF assms(1,2)] lookup_searches_entries [OF btf_open_blob [OF assms(1,2)] btf_table_types assms(3)]
  by (simp_all add: opened_def)

lemma overwrite_name:
  "overwrite 24 (u32_bytes w) (btf_blob (BtfStruct n i s ms # es) strings) = btf_blob (BtfStruct w i s ms # es) strings"
  by (simp add: overwrite_def btf_blob_def Let_def)

lemmas btf_eval = make_btf_def make_entry_def make_strings_def two_structs_def opened_blob overwrite_name
  info_kind_def info_vlen_def BTF_KIND_STRUCT_def btf_table_string u8_of_char_def Let_def valid_ascii

lemma offset_lookup_tests_pass:
  "test_struct_field_offset_finds_first_field"
  "test_struct_field_offset_finds_later_field"
  "test_struct_field_offset_missing_field"
  "test_struct_field_offset_missing_struct"
  "test_struct_field_offset_with_multiple_structs"
  "test_struct_field_offset_rejects_bad_string_offset"
  unfolding test_struct_field_offset_finds_first_field_def test_struct_field_offset_finds_later_field_def
      test_struct_field_offset_missing_field_def test_struct_field_offset_missing_struct_def
      test_struct_field_offset_with_multiple_structs_def
      test_struct_field_offset_rejects_bad_string_offset_def
  by (simp_all add: btf_eval)

definition test_from_bytes_rejects_short_data :: bool where
  "test_from_bytes_rejects_short_data \<longleftrightarrow> \<not> is_ok (btf_from_bytes (replicate 10 0))"

definition test_extra_bytes_struct_members :: bool where
  "test_extra_bytes_struct_members \<longleftrightarrow> extra_bytes 4 3 = 36 \<and> extra_bytes 4 0 = 0"

definition test_extra_bytes_other_kinds :: bool where
  "test_extra_bytes_other_kinds \<longleftrightarrow> extra_bytes 1 0 = 4 \<and> extra_bytes 3 0 = 12 \<and> extra_bytes 2 0 = 0 \<and> extra_bytes 6 2 = 16"

lemma open_tests_pass:
  "test_from_bytes_rejects_short_data"
  "test_extra_bytes_struct_members"
  "test_extra_bytes_other_kinds"
  by (simp_all add: btf_from_bytes_def extra_bytes_def Let_def
      test_from_bytes_rejects_short_data_def test_extra_bytes_struct_members_def
      test_extra_bytes_other_kinds_def)

definition test_from_bytes_rejects_bad_magic :: bool where
  "test_from_bytes_rejects_bad_magic \<longleftrightarrow> btf_from_bytes ((replicate 24 0)[0 := 0xFF, 1 := 0xFF]) = Inl (BadMagic 0xFFFF)"

lemma magic_test_passes: "test_from_bytes_rejects_bad_magic"
proof -
  have "field 0 2 ((replicate 24 0)[0 := 0xFF, 1 := 0xFF]) = [0xFF, 0xFF :: u8]"
    by (simp add: field_def numeral_eq_Suc)
  then show ?thesis by (simp add: test_from_bytes_rejects_bad_magic_def btf_from_bytes_def BTF_MAGIC_def)
qed

definition test_from_bytes_rejects_truncated_sections :: bool where
  "test_from_bytes_rejects_truncated_sections \<longleftrightarrow> btf_from_bytes (overwrite 12 (u32_bytes (- 1)) (make_btf ''my_struct'' [''alpha''])) = Inl SectionsBeyondBuffer"

lemma truncated_test_passes: "test_from_bytes_rejects_truncated_sections"
proof -
  let ?data = "overwrite 12 (u32_bytes (- 1)) (make_btf ''my_struct'' [''alpha''])"
  have data: "?data = [0x9F, 0xEB, 1, 0] @ u32_bytes 24 @ u32_bytes 0 @ u32_bytes (- 1) @ u32_bytes 24 @ u32_bytes 17
      @ entry_bytes (make_entry ''my_struct'' [''alpha'']) @ bytes_of (make_strings ''my_struct'' [''alpha''])"
    by (simp add: overwrite_def make_btf_def btf_blob_def make_entry_def make_strings_def member_bytes_def Let_def)
  have "field 0 2 ?data = [0x9F, 0xEB]" unfolding data by (simp add: field_def numeral_2_eq_2)
  moreover have "u32_at 4 ?data = 24" "u32_at 8 ?data = 0" "u32_at 12 ?data = - 1" "u32_at 16 ?data = 24" "u32_at 20 ?data = 17"
    unfolding data by (simp_all add: u32_at_append del: append_Cons)
  moreover have "length ?data = 65" unfolding data by (simp add: make_entry_def make_strings_def)
  moreover have "unat (- 1 :: u32) = 4294967295" by (simp add: unsigned_minus_1_eq_mask mask_eq_exp_minus_1)
  ultimately show ?thesis
    unfolding test_from_bytes_rejects_truncated_sections_def btf_from_bytes_def Let_def
    by (simp add: BTF_MAGIC_def checked_add_usize_def ok_or_def)
qed

end
