(* ===== verification/RouteTests.thy ===== *)
theory RouteTests
  imports Routes TestPrelude
begin

text \<open>
  The unit tests of \<open>shspectr-web/src/application/routes/middleware.rs\<close> and \<open>app.rs\<close>, on the model. The
  application under test is a handler that answers \<open>ok\<close>, behind the header middleware.
\<close>

definition dummy_handler :: response where
  "dummy_handler = text_response OK [(''content-type'', ''text/plain; charset=utf-8'')] ''ok''"

definition header_of :: "string \<Rightarrow> response \<Rightarrow> string option" where
  "header_of name r = map_of (rs_headers r) name"

definition test_adds_csp_header :: bool where
  "test_adds_csp_header \<longleftrightarrow> (let resp = security_headers dummy_handler in
      rs_status resp = OK
      \<and> (case header_of ''content-security-policy'' resp of None \<Rightarrow> False | Some csp \<Rightarrow>
            str_contains csp ''unsafe-eval'' \<and> str_contains csp ''cdn.jsdelivr.net''))"

definition test_adds_x_frame_options :: bool where
  "test_adds_x_frame_options \<longleftrightarrow>
     header_of ''x-frame-options'' (security_headers dummy_handler) = Some ''DENY''"

definition test_adds_x_content_type_options :: bool where
  "test_adds_x_content_type_options \<longleftrightarrow>
     header_of ''x-content-type-options'' (security_headers dummy_handler) = Some ''nosniff''"

lemma middleware_tests_pass:
  "test_adds_csp_header"
  "test_adds_x_frame_options"
  "test_adds_x_content_type_options"
  unfolding test_adds_csp_header_def test_adds_x_frame_options_def test_adds_x_content_type_options_def
  by (simp_all add: security_headers_def header_of_def header_insert_def dummy_handler_def text_response_def
      CSP_VALUE_def sq_def)

definition test_not_found_returns_styled_404 :: "front \<Rightarrow> bool" where
  "test_not_found_returns_styled_404 fr \<longleftrightarrow> rs_status (not_found fr) = NOT_FOUND"

lemma not_found_test_passes: "test_not_found_returns_styled_404 fr"
  by (simp add: test_not_found_returns_styled_404_def not_found_def error_page_def html_or_error_def
      text_response_def status_response_def split: option.splits)

end
