(* ===== verification/RepositoryTests.thy ===== *)
theory RepositoryTests
  imports FilterTests Tail
begin

text \<open>
  The tests of \<open>shspectr-web/src/infrastructure/repositories/event_tests.rs\<close> with the row builders of
  \<open>test_fixtures.rs\<close>, on the model: they compare the meaning that the model gives to the clauses, the
  orders and the joins of the repository with what its authors expect of SQLite. A test builds its rows on
  the empty database of its pool at one time \<open>now\<close> of the clock, and holds for every such time.
\<close>

section \<open>Fixtures\<close>

definition session_fixture :: "string \<Rightarrow> string \<Rightarrow> session_row" where
  "session_fixture now sid =
     \<lparr>sr_id = sid, sr_started_at = now, sr_ended_at = None, sr_root_pid = 100, sr_root_comm = None, sr_uid = 1000,
      sr_euid = 1000, sr_tty_nr = None, sr_cgroup_id = None\<rparr>"

definition exec_fixture :: "string \<Rightarrow> string \<Rightarrow> event_row" where
  "exec_fixture now sid =
     \<lparr>er_id = 0, er_session_id = sid, er_event_type = int_u32 (event_type_as_wire Exec), er_timestamp = now,
      er_pid = 100, er_ppid = 1, er_uid = 1000, er_gid = 1000, er_euid = 1000, er_comm = Some ''cmd'', er_tty_nr = None,
      er_execution_id = 100, er_filename = Some ''/usr/bin/cmd'', er_argv = Some ''[]'', er_fd = None, er_data = None,
      er_data_len = None, er_byte_count = None, er_exit_code = Some 0\<rparr>"

definition io_fixture :: "string \<Rightarrow> string \<Rightarrow> event_type \<Rightarrow> int \<Rightarrow> string \<Rightarrow> event_row" where
  "io_fixture now sid event_type fd data =
     \<lparr>er_id = 0, er_session_id = sid, er_event_type = int_u32 (event_type_as_wire event_type), er_timestamp = now,
      er_pid = 100, er_ppid = 1, er_uid = 1000, er_gid = 1000, er_euid = 1000, er_comm = None, er_tty_nr = None,
      er_execution_id = 100, er_filename = None, er_argv = None, er_fd = Some fd, er_data = Some data,
      er_data_len = Some (int (length data)), er_byte_count = Some (int (length data)), er_exit_code = None\<rparr>"

text \<open>The rows are inserted one by one; a statement that fails is a panic of the test.\<close>

definition insert_rows :: "event_row list \<Rightarrow> database \<Rightarrow> database option" where
  "insert_rows rows db = foldl (\<lambda>db r. Option.bind db (insert_event r)) (Some db) rows"

definition fresh_database :: "string \<Rightarrow> string list \<Rightarrow> database" where
  "fresh_database now sids =
     foldl (\<lambda>db sid. insert_session_or_ignore (session_fixture now sid) db) (empty_database True) sids"

definition on_rows :: "string \<Rightarrow> string list \<Rightarrow> event_row list \<Rightarrow> (database \<Rightarrow> bool) \<Rightarrow> bool" where
  "on_rows now sids rows P \<longleftrightarrow>
     (case insert_rows rows (fresh_database now sids) of None \<Rightarrow> False | Some db \<Rightarrow> P db)"

text \<open>The inserted rows are numbered from 1.\<close>

fun number_from :: "int \<Rightarrow> event_row list \<Rightarrow> event_row list" where
  "number_from i [] = []"
| "number_from i (r # rs) = r\<lparr>er_id := i\<rparr> # number_from (i + 1) rs"

lemma number_from_append: "number_from i (xs @ ys) = number_from i xs @ number_from (i + int (length xs)) ys"
  by (induction xs arbitrary: i) (simp_all add: algebra_simps)

lemma length_number_from: "length (number_from i rows) = length rows"
  by (induction rows arbitrary: i) simp_all

lemma set_number_from: "r \<in> set (number_from i rows) \<Longrightarrow> \<exists>r0 \<in> set rows. \<exists>n \<ge> i. r = r0\<lparr>er_id := n\<rparr>"
proof (induction rows arbitrary: i)
  case (Cons r0 rows)
  show ?case
  proof (cases "r = r0\<lparr>er_id := i\<rparr>")
    case False
    with Cons.prems have "r \<in> set (number_from (i + 1) rows)" by simp
    from Cons.IH [OF this] show ?thesis
      by (meson list.set_intros(2) order.trans less_add_one order.strict_implies_order)
  qed auto
qed simp

lemma sorted_number_from: "sorted (map er_id (number_from i rows))"
  by (induction rows arbitrary: i) (auto dest!: set_number_from)

lemma fresh_sessions: "sid \<in> set sids \<Longrightarrow> session_exists sid (fresh_database now sids)"
  "db_events (fresh_database now sids) = []" "db_seq (fresh_database now sids) = 0"
proof -
  have "(sid \<in> set sids \<longrightarrow> session_exists sid (fresh_database now sids))
      \<and> db_events (fresh_database now sids) = [] \<and> db_seq (fresh_database now sids) = 0"
    unfolding fresh_database_def
    by (induction sids rule: rev_induct)
      (auto simp: empty_database_def insert_session_or_ignore_def session_exists_def session_fixture_def)
  then show "sid \<in> set sids \<Longrightarrow> session_exists sid (fresh_database now sids)"
    "db_events (fresh_database now sids) = []" "db_seq (fresh_database now sids) = 0" by blast+
qed

definition test_database :: "string \<Rightarrow> string list \<Rightarrow> event_row list \<Rightarrow> database" where
  "test_database now sids rows =
     (fresh_database now sids)\<lparr>db_events := number_from 1 rows, db_seq := int (length rows)\<rparr>"

lemma test_rows [simp]: "db_events (test_database now sids rows) = number_from 1 rows"
  by (simp add: test_database_def)

lemma rows_inserted:
  assumes "int (length rows) \<le> I64_MAX" "list_all (\<lambda>r. er_session_id r \<in> set sids) rows"
  shows "on_rows now sids rows P \<longleftrightarrow> P (test_database now sids rows)"
proof -
  have "insert_rows rows (fresh_database now sids) = Some (test_database now sids rows)"
    using assms
  proof (induction rows rule: rev_induct)
    case Nil
    show ?case using fresh_sessions(2,3) [of now sids] by (simp add: insert_rows_def test_database_def)
  next
    case (snoc r rows)
    then have "session_exists (er_session_id r) (test_database now sids rows)"
      using fresh_sessions(1) [of "er_session_id r" sids now] by (simp add: test_database_def session_exists_def)
    with snoc show ?case
      by (simp add: insert_rows_def insert_event_def Let_def) (simp add: test_database_def number_from_append)
  qed
  then show ?thesis by (simp add: on_rows_def)
qed

section \<open>What the queries give on the rows of a test\<close>

text \<open>The first page, newest first: a test has fewer rows than a page.\<close>

definition summary_of :: "event_row \<Rightarrow> event_summary" where
  "summary_of r = (case row_to_summary r of Inr s \<Rightarrow> s)"

definition shown :: "passwd_cache \<Rightarrow> event_filter \<Rightarrow> event_row list \<Rightarrow> event_row list" where
  "shown cache f rows = rev (filter (filter_accepts cache f) (number_from 1 rows))"

definition lists :: "passwd_cache \<Rightarrow> database \<Rightarrow> list_request \<Rightarrow> event_filter \<Rightarrow> (event_summary page \<Rightarrow> bool) \<Rightarrow> bool" where
  "lists cache db req f P \<longleftrightarrow> (case repo_list cache (Some (steady db)) req f of Inl _ \<Rightarrow> False | Inr page \<Rightarrow> P page)"

lemma same_time_order:
  assumes "\<forall>r \<in> set rows. er_timestamp r = now" "sorted (map er_id rows)"
  shows "order_rows Timestamp Desc rows = rev rows"
proof -
  have "sorted (map (\<lambda>r. (col_value r ''timestamp'', er_id r)) rows)"
    using assms by (induction rows) (auto simp: col_value_def)
  then show ?thesis by (simp add: order_rows_def sort_key_id_if_sorted)
qed

lemma summary_of_row: "readable_row r \<Longrightarrow> row_to_summary r = Inr (summary_of r)"
  using readable_summary [of r] by (auto simp: summary_of_def elim: is_okE)

lemma numbered_rows:
  assumes "list_all (\<lambda>r. readable_row r \<and> er_timestamp r = now) rows" "r \<in> set (number_from i rows)"
  shows "readable_row r" "er_timestamp r = now"
  using assms by (auto simp: list_all_iff dest!: set_number_from)

lemma lists_page:
  assumes "valid_filter f" "list_all (\<lambda>r. readable_row r \<and> er_timestamp r = now) rows"
    and "1 \<le> n" "n < 2 ^ 32" "(n - 1) * unat s < 2 ^ 32"
  shows "lists cache (test_database now sids rows) \<lparr>lr_page = of_nat n, lr_page_size = s, lr_sort = Timestamp, lr_direction = Desc\<rparr> f P \<longleftrightarrow>
    P \<lparr>pg_items = take (unat s) (drop ((n - 1) * unat s) (map summary_of (shown cache f rows))), pg_page = of_nat n,
       pg_page_size = s, pg_total_items = of_nat (length (shown cache f rows))\<rparr>"
proof -
  let ?db = "test_database now sids rows"
  have order: "ordered_matches cache ?db f Timestamp Desc = shown cache f rows"
    unfolding ordered_matches_def shown_def test_rows
    using numbered_rows(2) [OF assms(2)] sorted_number_from [of 1 rows]
    by (intro same_time_order [where now = now]) (auto intro: sorted_filter)
  have "map row_to_summary (shown cache f rows) = map Inr (map summary_of (shown cache f rows))"
    using numbered_rows(1) [OF assms(2)] by (auto simp: shown_def summary_of_row)
  from repo_list_page [OF assms(1) this [folded order] assms(3-5)] show ?thesis
    by (simp add: lists_def page_request_def order)
qed

lemma lists_first_page:
  assumes "valid_filter f" "list_all (\<lambda>r. readable_row r \<and> er_timestamp r = now) rows" "length rows \<le> 25"
  shows "lists cache (test_database now sids rows) list_request_default f P \<longleftrightarrow>
    P \<lparr>pg_items = map summary_of (shown cache f rows), pg_page = 1, pg_page_size = 25,
       pg_total_items = of_nat (length (shown cache f rows))\<rparr>"
proof -
  have "length (shown cache f rows) \<le> 25"
    using assms(3) length_filter_le [of "filter_accepts cache f" "number_from 1 rows"] by (simp add: shown_def length_number_from)
  then show ?thesis using lists_page [OF assms(1,2), of 1 25] by (simp add: list_request_default_def)
qed

text \<open>The events after an id, oldest first.\<close>

definition lists_since :: "passwd_cache \<Rightarrow> database \<Rightarrow> int \<Rightarrow> event_filter \<Rightarrow> (event_summary list \<Rightarrow> bool) \<Rightarrow> bool" where
  "lists_since cache db a f P \<longleftrightarrow> (case repo_list_since cache (Some (steady db)) a f of Inl _ \<Rightarrow> False | Inr ss \<Rightarrow> P ss)"

lemma lists_since_rows:
  assumes "valid_filter f" "list_all (\<lambda>r. readable_row r \<and> er_timestamp r = now) rows" "length rows \<le> 25"
  shows "lists_since cache (test_database now sids rows) a f P \<longleftrightarrow>
    P (map summary_of (filter (\<lambda>r. a < er_id r \<and> filter_accepts cache f r) (number_from 1 rows)))"
proof -
  let ?rows = "filter (\<lambda>r. a < er_id r \<and> filter_accepts cache f r) (number_from 1 rows)"
  have "sort_key er_id ?rows = ?rows"
    using sorted_filter [OF sorted_number_from] by (intro sort_key_id_if_sorted)
  moreover have "length ?rows \<le> length (number_from 1 rows)" by (rule length_filter_le)
  then have "length ?rows \<le> LIVE_LIMIT" using assms(3) by (simp only: LIVE_LIMIT_def length_number_from)
  moreover have "map row_to_summary ?rows = map Inr (map summary_of ?rows)"
    using numbered_rows(1) [OF assms(2)] by (auto simp: summary_of_row)
  ultimately have "repo_list_since cache (Some (steady (test_database now sids rows))) a f = Inr (map summary_of ?rows)"
    by (simp add: repo_list_since_def Let_def since_selects [OF assms(1)] collect_results_Inr
        cong: filter_cong)
  then show ?thesis by (simp add: lists_since_def)
qed

text \<open>The detail of the first row with a property; the test takes its id from a query of its own.\<close>

definition detail_of :: "database \<Rightarrow> (event_row \<Rightarrow> bool) \<Rightarrow> (event_detail \<Rightarrow> bool) \<Rightarrow> bool" where
  "detail_of db p P \<longleftrightarrow>
     (case filter p (db_events db) of
        [] \<Rightarrow> False
      | r # _ \<Rightarrow> (case repo_get_detail (Some (steady db)) (er_id r) of Inr (Some d) \<Rightarrow> P d | _ \<Rightarrow> False))"

text \<open>Rules to evaluate all this.\<close>

lemmas row_eval = exec_fixture_def io_fixture_def readable_row_def get_event_type_def get_u32_def get_i32_def get_u64_def
  get_opt_def opt_in_def u32_range_def i32_range_def I64_MAX_def int_u32_def event_type_from_wire_def

lemmas accept_eval = shown_def filter_accepts_def event_filter_default_def negatable_def has_text_def any_alternative_def
  glob_match_def glob.simps(2) str_chars_ascii u8_of_char_def fold_char_def after_slash_def tails_def upt_rec
  session_matches_def starts_folded_def folded_def contains_folded_def user_uid_def resolve_username_def

lemmas summary_eval = summary_of_def row_to_summary_def

lemmas detail_eval = detail_of_def test_database_def repo_get_detail_def row_to_detail_def fetch_io_chunks_def belongs_to_def
  is_io_row_def io_values_def add_chunk_def fetch_children_def row_to_child_def has_io_def fetch_parent_def Let_def

lemma valid_default: "valid_filter event_filter_default"
  by (simp add: valid_filter_def event_filter_default_def)

lemma valid_query: "ascii q \<Longrightarrow> valid_filter (event_filter_parse q)"
  by (intro parsed_filter_valid valid_ascii)

lemma parsed:
  "event_filter_parse ''comm:bash'' = event_filter_default\<lparr>f_raw := Some ''comm:bash'', f_comm := Some \<lparr>fv_value = ''bash'', fv_negated = False\<rparr>\<rparr>"
  "event_filter_parse ''comm:*sh'' = event_filter_default\<lparr>f_raw := Some ''comm:*sh'', f_comm := Some \<lparr>fv_value = ''*sh'', fv_negated = False\<rparr>\<rparr>"
  "event_filter_parse ''exit:1'' = event_filter_default\<lparr>f_raw := Some ''exit:1'', f_exit_code := Some \<lparr>fv_value = 1, fv_negated = False\<rparr>\<rparr>"
  "event_filter_parse ''session:ox_abc'' = event_filter_default\<lparr>f_raw := Some ''session:ox_abc'', f_session_id := Some \<lparr>fv_value = ''ox_abc'', fv_negated = False\<rparr>\<rparr>"
  "event_filter_parse ''pid:200'' = event_filter_default\<lparr>f_raw := Some ''pid:200'', f_pid := Some \<lparr>fv_value = 200, fv_negated = False\<rparr>\<rparr>"
  "event_filter_parse ''build'' = event_filter_default\<lparr>f_raw := Some ''build'', f_text := Some (''build'')\<rparr>"
  "event_filter_parse ''ppid:1'' = event_filter_default\<lparr>f_raw := Some ''ppid:1'', f_ppid := Some \<lparr>fv_value = 1, fv_negated = False\<rparr>\<rparr>"
  "event_filter_parse ''gid:2000'' = event_filter_default\<lparr>f_raw := Some ''gid:2000'', f_gid := Some \<lparr>fv_value = 2000, fv_negated = False\<rparr>\<rparr>"
  "event_filter_parse ''tty:34816'' = event_filter_default\<lparr>f_raw := Some ''tty:34816'', f_tty := Some \<lparr>fv_value = 34816, fv_negated = False\<rparr>\<rparr>"
  "event_filter_parse ''file:/usr/bin/*'' = event_filter_default\<lparr>f_raw := Some ''file:/usr/bin/*'', f_file := Some \<lparr>fv_value = ''/usr/bin/*'', fv_negated = False\<rparr>\<rparr>"
  "event_filter_parse ''file:/tmp/a_b'' = event_filter_default\<lparr>f_raw := Some ''file:/tmp/a_b'', f_file := Some \<lparr>fv_value = ''/tmp/a_b'', fv_negated = False\<rparr>\<rparr>"
  "event_filter_parse ''file:/tmp/100%'' = event_filter_default\<lparr>f_raw := Some ''file:/tmp/100%'', f_file := Some \<lparr>fv_value = ''/tmp/100%'', fv_negated = False\<rparr>\<rparr>"
  "event_filter_parse ''!exit:0'' = event_filter_default\<lparr>f_raw := Some ''!exit:0'', f_exit_code := Some \<lparr>fv_value = 0, fv_negated = True\<rparr>\<rparr>"
  "event_filter_parse ''!comm:bash'' = event_filter_default\<lparr>f_raw := Some ''!comm:bash'', f_comm := Some \<lparr>fv_value = ''bash'', fv_negated = True\<rparr>\<rparr>"
  "event_filter_parse ''user:root'' = event_filter_default\<lparr>f_raw := Some ''user:root'', f_user := Some \<lparr>fv_value = ''root'', fv_negated = False\<rparr>\<rparr>"
  "event_filter_parse ''cmd:ps'' = event_filter_default\<lparr>f_raw := Some ''cmd:ps'', f_cmd := Some \<lparr>fv_value = ''ps'', fv_negated = False\<rparr>\<rparr>"
  "event_filter_parse ''cmd:git*'' = event_filter_default\<lparr>f_raw := Some ''cmd:git*'', f_cmd := Some \<lparr>fv_value = ''git*'', fv_negated = False\<rparr>\<rparr>"
  "event_filter_parse ''!cmd:git'' = event_filter_default\<lparr>f_raw := Some ''!cmd:git'', f_cmd := Some \<lparr>fv_value = ''git'', fv_negated = True\<rparr>\<rparr>"
  "event_filter_parse ''cmd:git|ps'' = event_filter_default\<lparr>f_raw := Some ''cmd:git|ps'', f_cmd := Some \<lparr>fv_value = ''git|ps'', fv_negated = False\<rparr>\<rparr>"
  "event_filter_parse ''!cmd:git|ps'' = event_filter_default\<lparr>f_raw := Some ''!cmd:git|ps'', f_cmd := Some \<lparr>fv_value = ''git|ps'', fv_negated = True\<rparr>\<rparr>"
  by (simp_all add: parse_eval)

section \<open>Lists\<close>

definition test_list_returns_exec_events_only :: "string \<Rightarrow> bool" where
  "test_list_returns_exec_events_only now \<longleftrightarrow> on_rows now [''s1'']
        [(exec_fixture now ''s1'')\<lparr>er_comm := Some ''ls'', er_filename := Some ''/usr/bin/ls'', er_argv := Some (''['' @ quoted ''ls'' @ '']'')\<rparr>,
         io_fixture now ''s1'' Write 1 ''hello'']
      (\<lambda>db. lists [] db list_request_default (event_filter_default)
        (\<lambda>page. length (pg_items page) = 1 \<and> es_event_type (pg_items page ! 0) = Exec \<and> pg_total_items page = 1))"

definition test_list_filter_by_comm :: "string \<Rightarrow> bool" where
  "test_list_filter_by_comm now \<longleftrightarrow> on_rows now [''s1'']
        [(exec_fixture now ''s1'')\<lparr>er_comm := Some ''bash'', er_filename := Some ''/usr/bin/bash''\<rparr>,
         (exec_fixture now ''s1'')\<lparr>er_pid := 101, er_comm := Some ''ls'', er_filename := Some ''/usr/bin/ls''\<rparr>,
         (exec_fixture now ''s1'')\<lparr>er_pid := 102, er_comm := Some ''cat'', er_filename := Some ''/usr/bin/cat''\<rparr>]
      (\<lambda>db. lists [] db list_request_default (event_filter_parse ''comm:bash'')
        (\<lambda>page. length (pg_items page) = 1 \<and> es_comm (pg_items page ! 0) = Some ''bash''))"

definition test_list_filter_by_comm_glob :: "string \<Rightarrow> bool" where
  "test_list_filter_by_comm_glob now \<longleftrightarrow> on_rows now [''s1'']
        [(exec_fixture now ''s1'')\<lparr>er_comm := Some ''bash'', er_filename := Some ''/usr/bin/bash''\<rparr>,
         (exec_fixture now ''s1'')\<lparr>er_pid := 101, er_comm := Some ''sh'', er_filename := Some ''/usr/bin/sh''\<rparr>]
      (\<lambda>db. lists [] db list_request_default (event_filter_parse ''comm:*sh'')
        (\<lambda>page. length (pg_items page) = 2))"

definition test_list_filter_by_exit_code :: "string \<Rightarrow> bool" where
  "test_list_filter_by_exit_code now \<longleftrightarrow> on_rows now [''s1'']
        [(exec_fixture now ''s1'')\<lparr>er_comm := Some ''cmd1'', er_filename := Some ''/cmd1'', er_exit_code := Some 0\<rparr>,
         (exec_fixture now ''s1'')\<lparr>er_pid := 101, er_comm := Some ''cmd2'', er_filename := Some ''/cmd2'', er_exit_code := Some 1\<rparr>]
      (\<lambda>db. lists [] db list_request_default (event_filter_parse ''exit:1'')
        (\<lambda>page. length (pg_items page) = 1 \<and> es_exit_code (pg_items page ! 0) = Some 1))"

definition test_list_filter_by_session_prefix :: "string \<Rightarrow> bool" where
  "test_list_filter_by_session_prefix now \<longleftrightarrow> on_rows now [''ox_abc123'', ''ox_def456'']
        [(exec_fixture now ''ox_abc123'')\<lparr>er_comm := Some ''ls'', er_filename := Some ''/ls''\<rparr>,
         (exec_fixture now ''ox_def456'')\<lparr>er_pid := 101, er_comm := Some ''cat'', er_filename := Some ''/cat''\<rparr>]
      (\<lambda>db. lists [] db list_request_default (event_filter_parse ''session:ox_abc'')
        (\<lambda>page. length (pg_items page) = 1 \<and> es_session_id (pg_items page ! 0) = ''ox_abc123''))"

definition test_list_filter_by_pid :: "string \<Rightarrow> bool" where
  "test_list_filter_by_pid now \<longleftrightarrow> on_rows now [''s1'']
        [(exec_fixture now ''s1'')\<lparr>er_comm := Some ''ls'', er_filename := Some ''/ls''\<rparr>,
         (exec_fixture now ''s1'')\<lparr>er_pid := 200, er_comm := Some ''cat'', er_filename := Some ''/cat''\<rparr>]
      (\<lambda>db. lists [] db list_request_default (event_filter_parse ''pid:200'')
        (\<lambda>page. length (pg_items page) = 1 \<and> es_pid (pg_items page ! 0) = 200))"

definition test_list_filter_bare_text :: "string \<Rightarrow> bool" where
  "test_list_filter_bare_text now \<longleftrightarrow> on_rows now [''s1'']
        [(exec_fixture now ''s1'')\<lparr>er_comm := Some ''cargo'', er_filename := Some ''/usr/bin/cargo'', er_argv := Some (''['' @ quoted ''cargo'' @ '','' @ quoted ''build'' @ '']'')\<rparr>,
         (exec_fixture now ''s1'')\<lparr>er_pid := 101, er_comm := Some ''ls'', er_filename := Some ''/usr/bin/ls'', er_argv := Some (''['' @ quoted ''ls'' @ '']'')\<rparr>]
      (\<lambda>db. lists [] db list_request_default (event_filter_parse ''build'')
        (\<lambda>page. length (pg_items page) = 1 \<and> es_comm (pg_items page ! 0) = Some ''cargo''))"

definition test_list_empty_result :: "string \<Rightarrow> bool" where
  "test_list_empty_result now \<longleftrightarrow> on_rows now []
        []
      (\<lambda>db. lists [] db list_request_default (event_filter_default)
        (\<lambda>page. pg_items page = [] \<and> pg_total_items page = 0))"

lemma list_tests_pass:
  "test_list_returns_exec_events_only now"
  "test_list_filter_by_comm now"
  "test_list_filter_by_comm_glob now"
  "test_list_filter_by_exit_code now"
  "test_list_filter_by_session_prefix now"
  "test_list_filter_by_pid now"
  "test_list_filter_bare_text now"
  "test_list_empty_result now"
  by (simp_all add: rows_inserted lists_first_page lists_since_rows valid_default valid_query ascii_def u8_of_char_def row_eval
      test_list_returns_exec_events_only_def test_list_filter_by_comm_def test_list_filter_by_comm_glob_def
      test_list_filter_by_exit_code_def test_list_filter_by_session_prefix_def test_list_filter_by_pid_def
      test_list_filter_bare_text_def test_list_empty_result_def)
    (simp_all add: parsed accept_eval summary_eval row_eval quoted_def number_eval)

definition test_list_since_returns_new_events :: "string \<Rightarrow> bool" where
  "test_list_since_returns_new_events now \<longleftrightarrow> on_rows now [''s1'']
        [(exec_fixture now ''s1'')\<lparr>er_comm := Some ''ls'', er_filename := Some ''/ls''\<rparr>,
         (exec_fixture now ''s1'')\<lparr>er_pid := 101, er_comm := Some ''cat'', er_filename := Some ''/cat''\<rparr>,
         (exec_fixture now ''s1'')\<lparr>er_pid := 102, er_comm := Some ''pwd'', er_filename := Some ''/pwd''\<rparr>]
      (\<lambda>db. lists [] db list_request_default event_filter_default (\<lambda>all. length (pg_items all) = 3
        \<and> (let first_id = es_id (last (pg_items all)) in lists_since [] db first_id event_filter_default
          (\<lambda>since. length since = 2 \<and> first_id < es_id (since ! 0) \<and> es_id (since ! 0) < es_id (since ! 1)))))"

definition test_list_since_respects_filter :: "string \<Rightarrow> bool" where
  "test_list_since_respects_filter now \<longleftrightarrow> on_rows now [''s1'']
        [(exec_fixture now ''s1'')\<lparr>er_comm := Some ''ls'', er_filename := Some ''/ls''\<rparr>,
         (exec_fixture now ''s1'')\<lparr>er_pid := 101, er_comm := Some ''bash'', er_filename := Some ''/bash''\<rparr>]
      (\<lambda>db. lists_since [] db 0 (event_filter_parse ''comm:bash'')
        (\<lambda>since. length since = 1 \<and> es_comm (since ! 0) = Some ''bash''))"

definition test_list_since_empty_when_no_new :: "string \<Rightarrow> bool" where
  "test_list_since_empty_when_no_new now \<longleftrightarrow> on_rows now [''s1'']
        [(exec_fixture now ''s1'')\<lparr>er_comm := Some ''ls'', er_filename := Some ''/ls''\<rparr>]
      (\<lambda>db. case repo_max_event_id (Some (steady db)) of Inl _ \<Rightarrow> False
        | Inr m \<Rightarrow> lists_since [] db m event_filter_default (\<lambda>since. since = []))"

definition test_max_event_id_empty_db :: "string \<Rightarrow> bool" where
  "test_max_event_id_empty_db now \<longleftrightarrow> on_rows now []
        []
      (\<lambda>db. repo_max_event_id (Some (steady db)) = Inr 0)"

definition test_max_event_id_with_data :: "string \<Rightarrow> bool" where
  "test_max_event_id_with_data now \<longleftrightarrow> on_rows now [''s1'']
        [(exec_fixture now ''s1'')\<lparr>er_comm := Some ''ls'', er_filename := Some ''/ls''\<rparr>,
         (exec_fixture now ''s1'')\<lparr>er_pid := 101, er_comm := Some ''cat'', er_filename := Some ''/cat''\<rparr>]
      (\<lambda>db. case repo_max_event_id (Some (steady db)) of Inl _ \<Rightarrow> False | Inr m \<Rightarrow> 0 < m)"

lemma since_tests_pass:
  "test_list_since_returns_new_events now"
  "test_list_since_respects_filter now"
  "test_list_since_empty_when_no_new now"
  "test_max_event_id_empty_db now"
  "test_max_event_id_with_data now"
  by (simp_all add: rows_inserted lists_first_page lists_since_rows valid_default valid_query ascii_def u8_of_char_def row_eval
      repo_max_event_id_def Let_def test_list_since_returns_new_events_def test_list_since_respects_filter_def
      test_list_since_empty_when_no_new_def test_max_event_id_empty_db_def test_max_event_id_with_data_def)
    (simp_all add: parsed accept_eval summary_eval row_eval test_database_def fresh_sessions Let_def lists_since_rows valid_default)

definition test_filter_by_ppid :: "string \<Rightarrow> bool" where
  "test_filter_by_ppid now \<longleftrightarrow> on_rows now [''s1'']
        [(exec_fixture now ''s1'')\<lparr>er_ppid := 1, er_comm := Some ''ls'', er_filename := Some ''/ls''\<rparr>,
         (exec_fixture now ''s1'')\<lparr>er_pid := 101, er_ppid := 2, er_comm := Some ''cat'', er_filename := Some ''/cat''\<rparr>]
      (\<lambda>db. lists [] db list_request_default (event_filter_parse ''ppid:1'')
        (\<lambda>page. length (pg_items page) = 1 \<and> es_ppid (pg_items page ! 0) = 1))"

definition test_filter_by_gid :: "string \<Rightarrow> bool" where
  "test_filter_by_gid now \<longleftrightarrow> on_rows now [''s1'']
        [(exec_fixture now ''s1'')\<lparr>er_gid := 1000, er_comm := Some ''ls'', er_filename := Some ''/ls''\<rparr>,
         (exec_fixture now ''s1'')\<lparr>er_pid := 101, er_gid := 2000, er_comm := Some ''cat'', er_filename := Some ''/cat''\<rparr>]
      (\<lambda>db. lists [] db list_request_default (event_filter_parse ''gid:2000'')
        (\<lambda>page. length (pg_items page) = 1 \<and> es_comm (pg_items page ! 0) = Some ''cat''))"

definition test_filter_by_tty :: "string \<Rightarrow> bool" where
  "test_filter_by_tty now \<longleftrightarrow> on_rows now [''s1'']
        [(exec_fixture now ''s1'')\<lparr>er_tty_nr := Some 34816, er_comm := Some ''ls'', er_filename := Some ''/ls''\<rparr>,
         (exec_fixture now ''s1'')\<lparr>er_pid := 101, er_comm := Some ''cat'', er_filename := Some ''/cat''\<rparr>]
      (\<lambda>db. lists [] db list_request_default (event_filter_parse ''tty:34816'')
        (\<lambda>page. length (pg_items page) = 1 \<and> es_comm (pg_items page ! 0) = Some ''ls''))"

definition test_filter_by_file_glob :: "string \<Rightarrow> bool" where
  "test_filter_by_file_glob now \<longleftrightarrow> on_rows now [''s1'']
        [(exec_fixture now ''s1'')\<lparr>er_comm := Some ''ls'', er_filename := Some ''/usr/bin/ls''\<rparr>,
         (exec_fixture now ''s1'')\<lparr>er_pid := 101, er_comm := Some ''cat'', er_filename := Some ''/usr/sbin/cat''\<rparr>]
      (\<lambda>db. lists [] db list_request_default (event_filter_parse ''file:/usr/bin/*'')
        (\<lambda>page. length (pg_items page) = 1 \<and> es_comm (pg_items page ! 0) = Some ''ls''))"

definition test_filter_file_treats_percent_and_underscore_as_literals :: "string \<Rightarrow> bool" where
  "test_filter_file_treats_percent_and_underscore_as_literals now \<longleftrightarrow> on_rows now [''s1'']
        [(exec_fixture now ''s1'')\<lparr>er_filename := Some ''/tmp/a_b'', er_comm := Some ''under''\<rparr>,
         (exec_fixture now ''s1'')\<lparr>er_pid := 101, er_filename := Some ''/tmp/acb'', er_comm := Some ''wild''\<rparr>,
         (exec_fixture now ''s1'')\<lparr>er_pid := 102, er_filename := Some ''/tmp/100%'', er_comm := Some ''percent''\<rparr>]
      (\<lambda>db. lists [] db list_request_default (event_filter_parse ''file:/tmp/a_b'')
          (\<lambda>page. length (pg_items page) = 1 \<and> es_comm (pg_items page ! 0) = Some ''under'')
        \<and> lists [] db list_request_default (event_filter_parse ''file:/tmp/100%'')
          (\<lambda>page. length (pg_items page) = 1 \<and> es_comm (pg_items page ! 0) = Some ''percent''))"

definition test_filter_negation_exit :: "string \<Rightarrow> bool" where
  "test_filter_negation_exit now \<longleftrightarrow> on_rows now [''s1'']
        [(exec_fixture now ''s1'')\<lparr>er_comm := Some ''ok'', er_filename := Some ''/ok'', er_exit_code := Some 0\<rparr>,
         (exec_fixture now ''s1'')\<lparr>er_pid := 101, er_comm := Some ''fail'', er_filename := Some ''/fail'', er_exit_code := Some 1\<rparr>]
      (\<lambda>db. lists [] db list_request_default (event_filter_parse ''!exit:0'')
        (\<lambda>page. length (pg_items page) = 1 \<and> es_exit_code (pg_items page ! 0) = Some 1))"

definition test_filter_negation_comm :: "string \<Rightarrow> bool" where
  "test_filter_negation_comm now \<longleftrightarrow> on_rows now [''s1'']
        [(exec_fixture now ''s1'')\<lparr>er_comm := Some ''bash'', er_filename := Some ''/bash''\<rparr>,
         (exec_fixture now ''s1'')\<lparr>er_pid := 101, er_comm := Some ''ls'', er_filename := Some ''/ls''\<rparr>]
      (\<lambda>db. lists [] db list_request_default (event_filter_parse ''!comm:bash'')
        (\<lambda>page. length (pg_items page) = 1 \<and> es_comm (pg_items page ! 0) = Some ''ls''))"

definition test_filter_by_user_name :: "string \<Rightarrow> bool" where
  "test_filter_by_user_name now \<longleftrightarrow> on_rows now [''s1'']
        [(exec_fixture now ''s1'')\<lparr>er_uid := 0, er_gid := 0, er_euid := 0, er_comm := Some ''ls'', er_filename := Some ''/ls''\<rparr>,
         (exec_fixture now ''s1'')\<lparr>er_pid := 101, er_uid := 1000, er_gid := 1000, er_euid := 1000, er_comm := Some ''cat'', er_filename := Some ''/cat''\<rparr>]
      (\<lambda>db. lists [(0, ''root'')] db list_request_default (event_filter_parse ''user:root'')
        (\<lambda>page. length (pg_items page) = 1 \<and> es_uid (pg_items page ! 0) = 0))"

lemma repository_filter_tests_pass:
  "test_filter_by_ppid now"
  "test_filter_by_gid now"
  "test_filter_by_tty now"
  "test_filter_by_file_glob now"
  "test_filter_file_treats_percent_and_underscore_as_literals now"
  "test_filter_negation_exit now"
  "test_filter_negation_comm now"
  "test_filter_by_user_name now"
  by (simp_all add: rows_inserted lists_first_page lists_since_rows valid_default valid_query ascii_def u8_of_char_def row_eval
      test_filter_by_ppid_def test_filter_by_gid_def test_filter_by_tty_def test_filter_by_file_glob_def
      test_filter_file_treats_percent_and_underscore_as_literals_def test_filter_negation_exit_def
      test_filter_negation_comm_def test_filter_by_user_name_def)
    (simp_all add: parsed accept_eval summary_eval row_eval quoted_def number_eval)

definition test_filter_cmd_exact :: "string \<Rightarrow> bool" where
  "test_filter_cmd_exact now \<longleftrightarrow> on_rows now [''s1'']
        [(exec_fixture now ''s1'')\<lparr>er_comm := Some ''bash'', er_filename := Some ''/usr/bin/ps''\<rparr>,
         (exec_fixture now ''s1'')\<lparr>er_pid := 101, er_comm := Some ''opencode'', er_filename := Some ''/usr/lib/git-core/git''\<rparr>,
         (exec_fixture now ''s1'')\<lparr>er_pid := 102, er_comm := Some ''fish'', er_filename := Some ''/usr/bin/ls''\<rparr>]
      (\<lambda>db. lists [] db list_request_default (event_filter_parse ''cmd:ps'')
        (\<lambda>page. length (pg_items page) = 1 \<and> es_filename (pg_items page ! 0) = Some ''/usr/bin/ps''))"

definition test_filter_cmd_glob :: "string \<Rightarrow> bool" where
  "test_filter_cmd_glob now \<longleftrightarrow> on_rows now [''s1'']
        [(exec_fixture now ''s1'')\<lparr>er_comm := Some ''bash'', er_filename := Some ''/usr/bin/git''\<rparr>,
         (exec_fixture now ''s1'')\<lparr>er_pid := 101, er_comm := Some ''bash'', er_filename := Some ''/usr/bin/gitk''\<rparr>,
         (exec_fixture now ''s1'')\<lparr>er_pid := 102, er_comm := Some ''bash'', er_filename := Some ''/usr/bin/ls''\<rparr>]
      (\<lambda>db. lists [] db list_request_default (event_filter_parse ''cmd:git*'')
        (\<lambda>page. length (pg_items page) = 2))"

definition test_filter_cmd_negated :: "string \<Rightarrow> bool" where
  "test_filter_cmd_negated now \<longleftrightarrow> on_rows now [''s1'']
        [(exec_fixture now ''s1'')\<lparr>er_comm := Some ''bash'', er_filename := Some ''/usr/lib/git-core/git''\<rparr>,
         (exec_fixture now ''s1'')\<lparr>er_pid := 101, er_comm := Some ''bash'', er_filename := Some ''/usr/bin/ps''\<rparr>,
         (exec_fixture now ''s1'')\<lparr>er_pid := 102, er_comm := Some ''bash'', er_filename := Some ''/usr/bin/ls''\<rparr>]
      (\<lambda>db. lists [] db list_request_default (event_filter_parse ''!cmd:git'')
        (\<lambda>page. length (pg_items page) = 2 \<and> Some ''/usr/lib/git-core/git'' \<notin> set (map es_filename (pg_items page))))"

definition test_filter_cmd_pipe_or :: "string \<Rightarrow> bool" where
  "test_filter_cmd_pipe_or now \<longleftrightarrow> on_rows now [''s1'']
        [(exec_fixture now ''s1'')\<lparr>er_comm := Some ''bash'', er_filename := Some ''/usr/bin/git''\<rparr>,
         (exec_fixture now ''s1'')\<lparr>er_pid := 101, er_comm := Some ''bash'', er_filename := Some ''/usr/bin/ps''\<rparr>,
         (exec_fixture now ''s1'')\<lparr>er_pid := 102, er_comm := Some ''bash'', er_filename := Some ''/usr/bin/ls''\<rparr>]
      (\<lambda>db. lists [] db list_request_default (event_filter_parse ''cmd:git|ps'') (\<lambda>page. length (pg_items page) = 2)
        \<and> lists [] db list_request_default (event_filter_parse ''!cmd:git|ps'')
          (\<lambda>page. length (pg_items page) = 1 \<and> es_filename (pg_items page ! 0) = Some ''/usr/bin/ls''))"

lemma command_tests_pass:
  "test_filter_cmd_exact now"
  "test_filter_cmd_glob now"
  "test_filter_cmd_negated now"
  "test_filter_cmd_pipe_or now"
  by (simp_all add: rows_inserted lists_first_page lists_since_rows valid_default valid_query ascii_def u8_of_char_def row_eval
      test_filter_cmd_exact_def test_filter_cmd_glob_def test_filter_cmd_negated_def
      test_filter_cmd_pipe_or_def)
    (simp_all add: parsed accept_eval summary_eval row_eval quoted_def number_eval)

definition test_list_pagination :: "string \<Rightarrow> bool" where
  "test_list_pagination now \<longleftrightarrow> on_rows now [''s1'']
        [(exec_fixture now ''s1'')\<lparr>er_pid := 100, er_comm := Some ''cmd0'', er_filename := Some ''/usr/bin/cmd''\<rparr>,
         (exec_fixture now ''s1'')\<lparr>er_pid := 101, er_comm := Some ''cmd1'', er_filename := Some ''/usr/bin/cmd''\<rparr>,
         (exec_fixture now ''s1'')\<lparr>er_pid := 102, er_comm := Some ''cmd2'', er_filename := Some ''/usr/bin/cmd''\<rparr>,
         (exec_fixture now ''s1'')\<lparr>er_pid := 103, er_comm := Some ''cmd3'', er_filename := Some ''/usr/bin/cmd''\<rparr>,
         (exec_fixture now ''s1'')\<lparr>er_pid := 104, er_comm := Some ''cmd4'', er_filename := Some ''/usr/bin/cmd''\<rparr>,
         (exec_fixture now ''s1'')\<lparr>er_pid := 105, er_comm := Some ''cmd5'', er_filename := Some ''/usr/bin/cmd''\<rparr>,
         (exec_fixture now ''s1'')\<lparr>er_pid := 106, er_comm := Some ''cmd6'', er_filename := Some ''/usr/bin/cmd''\<rparr>,
         (exec_fixture now ''s1'')\<lparr>er_pid := 107, er_comm := Some ''cmd7'', er_filename := Some ''/usr/bin/cmd''\<rparr>,
         (exec_fixture now ''s1'')\<lparr>er_pid := 108, er_comm := Some ''cmd8'', er_filename := Some ''/usr/bin/cmd''\<rparr>,
         (exec_fixture now ''s1'')\<lparr>er_pid := 109, er_comm := Some ''cmd9'', er_filename := Some ''/usr/bin/cmd''\<rparr>]
      (\<lambda>db. lists [] db \<lparr>lr_page = 1, lr_page_size = 3, lr_sort = Timestamp, lr_direction = Desc\<rparr> event_filter_default
          (\<lambda>page. length (pg_items page) = 3 \<and> pg_total_items page = 10 \<and> total_pages page = 4)
        \<and> lists [] db \<lparr>lr_page = 4, lr_page_size = 3, lr_sort = Timestamp, lr_direction = Desc\<rparr> event_filter_default (\<lambda>page. length (pg_items page) = 1))"

lemma pages_of_three:
  assumes "valid_filter f" "list_all (\<lambda>r. readable_row r \<and> er_timestamp r = now) rows"
  shows "lists cache (test_database now sids rows) \<lparr>lr_page = 1, lr_page_size = 3, lr_sort = Timestamp, lr_direction = Desc\<rparr> f P \<longleftrightarrow>
      P \<lparr>pg_items = take 3 (map summary_of (shown cache f rows)), pg_page = 1, pg_page_size = 3,
         pg_total_items = of_nat (length (shown cache f rows))\<rparr>"
    and "lists cache (test_database now sids rows) \<lparr>lr_page = 4, lr_page_size = 3, lr_sort = Timestamp, lr_direction = Desc\<rparr> f P \<longleftrightarrow>
      P \<lparr>pg_items = take 3 (drop 9 (map summary_of (shown cache f rows))), pg_page = 4, pg_page_size = 3,
         pg_total_items = of_nat (length (shown cache f rows))\<rparr>"
  using lists_page [OF assms, where n = 1 and s = 3] lists_page [OF assms, where n = 4 and s = 3] by simp_all

lemma unfiltered_rows: "length (shown cache event_filter_default rows) = length (filter (\<lambda>r. er_event_type r = 0) rows)"
proof -
  have "length (filter (filter_accepts cache event_filter_default) (number_from i rows)) = length (filter (\<lambda>r. er_event_type r = 0) rows)" for i
    by (induction rows arbitrary: i) (simp_all add: filter_accepts_def event_filter_default_def negatable_def int_u32_def)
  then show ?thesis by (simp add: shown_def)
qed

lemma pagination_test_passes:
  "test_list_pagination now"
  by (simp add: test_list_pagination_def rows_inserted valid_default row_eval)
    (simp add: pages_of_three valid_default row_eval unfiltered_rows total_pages_def div_ceil_def)

section \<open>Details\<close>

definition test_get_detail_found :: "string \<Rightarrow> bool" where
  "test_get_detail_found now \<longleftrightarrow> on_rows now [''s1'']
        [(exec_fixture now ''s1'')\<lparr>er_comm := Some ''cat'', er_filename := Some ''/usr/bin/cat'', er_argv := Some (''['' @ quoted ''cat'' @ '','' @ quoted ''file.txt'' @ '']'')\<rparr>]
      (\<lambda>db. detail_of db (\<lambda>r. True)
        (\<lambda>detail. es_comm (ed_summary detail) = Some ''cat'' \<and> es_execution_id (ed_summary detail) = 100 \<and> ed_gid detail = 1000))"

definition test_get_detail_not_found :: "string \<Rightarrow> bool" where
  "test_get_detail_not_found now \<longleftrightarrow> on_rows now []
        []
      (\<lambda>db. repo_get_detail (Some (steady db)) 99999 = Inr None)"

definition test_get_detail_includes_io_data :: "string \<Rightarrow> bool" where
  "test_get_detail_includes_io_data now \<longleftrightarrow> on_rows now [''s1'']
        [(exec_fixture now ''s1'')\<lparr>er_comm := Some ''cat'', er_filename := Some ''/cat''\<rparr>,
         io_fixture now ''s1'' Read 0 ''input data'',
         io_fixture now ''s1'' Write 1 (''output line 1'' @ NEWLINE),
         io_fixture now ''s1'' Write 2 (''error output'' @ NEWLINE),
         (io_fixture now ''s1'' Write 1 ''other process'')\<lparr>er_pid := 200\<rparr>]
      (\<lambda>db. detail_of db (\<lambda>r. er_event_type r = 0)
        (\<lambda>detail. length (ed_stdin_data detail) = 1 \<and> ic_data (ed_stdin_data detail ! 0) = ''input data'' \<and> length (ed_stdout_data detail) = 2))"

definition test_get_detail_scopes_io_to_matching_execution_id :: "string \<Rightarrow> bool" where
  "test_get_detail_scopes_io_to_matching_execution_id now \<longleftrightarrow> on_rows now [''s1'']
        [(exec_fixture now ''s1'')\<lparr>er_pid := 100, er_execution_id := 10, er_comm := Some ''bash''\<rparr>,
         (exec_fixture now ''s1'')\<lparr>er_pid := 100, er_execution_id := 11, er_comm := Some ''python''\<rparr>,
         (io_fixture now ''s1'' Write 1 ''first exec'')\<lparr>er_pid := 100, er_execution_id := 10\<rparr>,
         (io_fixture now ''s1'' Write 1 ''second exec'')\<lparr>er_pid := 100, er_execution_id := 11\<rparr>]
      (\<lambda>db. detail_of db (\<lambda>r. er_event_type r = 0 \<and> er_execution_id r = 11)
        (\<lambda>detail. length (ed_stdout_data detail) = 1 \<and> ic_data (ed_stdout_data detail ! 0) = ''second exec''))"

definition test_get_detail_includes_children :: "string \<Rightarrow> bool" where
  "test_get_detail_includes_children now \<longleftrightarrow> on_rows now [''s1'']
        [(exec_fixture now ''s1'')\<lparr>er_pid := 100, er_comm := Some ''bash'', er_filename := Some ''/usr/bin/bash''\<rparr>,
         (exec_fixture now ''s1'')\<lparr>er_pid := 200, er_ppid := 100, er_execution_id := 200, er_comm := Some ''ls'', er_filename := Some ''/usr/bin/ls'', er_exit_code := Some 0\<rparr>,
         (exec_fixture now ''s1'')\<lparr>er_pid := 201, er_ppid := 100, er_execution_id := 201, er_comm := Some ''cat'', er_filename := Some ''/usr/bin/cat'', er_exit_code := Some 1\<rparr>,
         (exec_fixture now ''s1'')\<lparr>er_pid := 300, er_ppid := 999, er_execution_id := 300, er_comm := Some ''unrelated'', er_filename := Some ''/unrelated''\<rparr>]
      (\<lambda>db. detail_of db (\<lambda>r. er_pid r = 100 \<and> er_event_type r = 0)
        (\<lambda>detail. length (ed_children detail) = 2 \<and> cp_comm (ed_children detail ! 0) = Some ''ls'' \<and> cp_comm (ed_children detail ! 1) = Some ''cat''))"

definition test_get_detail_includes_parent :: "string \<Rightarrow> bool" where
  "test_get_detail_includes_parent now \<longleftrightarrow> on_rows now [''s1'']
        [(exec_fixture now ''s1'')\<lparr>er_pid := 100, er_comm := Some ''bash'', er_filename := Some ''/usr/bin/bash'', er_argv := Some (''['' @ quoted ''bash'' @ '']'')\<rparr>,
         (exec_fixture now ''s1'')\<lparr>er_pid := 200, er_ppid := 100, er_execution_id := 200, er_comm := Some ''ls'', er_filename := Some ''/usr/bin/ls''\<rparr>]
      (\<lambda>db. detail_of db (\<lambda>r. er_pid r = 200 \<and> er_event_type r = 0)
        (\<lambda>detail. (case ed_parent detail of None \<Rightarrow> False
          | Some parent \<Rightarrow> pp_comm parent = Some ''bash'' \<and> pp_filename parent = Some ''/usr/bin/bash'')))"

definition test_get_detail_child_has_io_flag :: "string \<Rightarrow> bool" where
  "test_get_detail_child_has_io_flag now \<longleftrightarrow> on_rows now [''s1'']
        [(exec_fixture now ''s1'')\<lparr>er_pid := 100, er_comm := Some ''bash'', er_filename := Some ''/bash''\<rparr>,
         (exec_fixture now ''s1'')\<lparr>er_pid := 200, er_ppid := 100, er_execution_id := 200, er_comm := Some ''cat'', er_filename := Some ''/cat''\<rparr>,
         (io_fixture now ''s1'' Write 1 ''output'')\<lparr>er_pid := 200, er_execution_id := 200\<rparr>,
         (exec_fixture now ''s1'')\<lparr>er_pid := 201, er_ppid := 100, er_execution_id := 201, er_comm := Some ''true'', er_filename := Some ''/true''\<rparr>]
      (\<lambda>db. detail_of db (\<lambda>r. er_pid r = 100 \<and> er_event_type r = 0)
        (\<lambda>detail. length (ed_children detail) = 2
        \<and> (case find (\<lambda>c. cp_comm c = Some ''cat'') (ed_children detail) of None \<Rightarrow> False | Some c \<Rightarrow> cp_has_io c)
        \<and> (case find (\<lambda>c. cp_comm c = Some ''true'') (ed_children detail) of None \<Rightarrow> False | Some c \<Rightarrow> \<not> cp_has_io c)))"

definition test_get_detail_no_parent_when_not_in_session :: "string \<Rightarrow> bool" where
  "test_get_detail_no_parent_when_not_in_session now \<longleftrightarrow> on_rows now [''s1'']
        [(exec_fixture now ''s1'')\<lparr>er_pid := 100, er_ppid := 999, er_comm := Some ''orphan'', er_filename := Some ''/orphan''\<rparr>]
      (\<lambda>db. detail_of db (\<lambda>r. er_pid r = 100)
        (\<lambda>detail. ed_parent detail = None \<and> ed_children detail = []))"

lemma repository_detail_tests_pass:
  "test_get_detail_found now"
  "test_get_detail_not_found now"
  "test_get_detail_includes_io_data now"
  "test_get_detail_scopes_io_to_matching_execution_id now"
  "test_get_detail_includes_children now"
  "test_get_detail_includes_parent now"
  "test_get_detail_child_has_io_flag now"
  "test_get_detail_no_parent_when_not_in_session now"
  by (simp_all add: rows_inserted row_eval NEWLINE_def
      test_get_detail_found_def test_get_detail_not_found_def test_get_detail_includes_io_data_def
      test_get_detail_scopes_io_to_matching_execution_id_def test_get_detail_includes_children_def
      test_get_detail_includes_parent_def test_get_detail_child_has_io_flag_def
      test_get_detail_no_parent_when_not_in_session_def)
    (simp_all add: detail_eval row_eval)

end
