(* ===== verification/Spec2Isabelle.thy ===== *)
theory Spec2Isabelle
  imports EventParse EbpfInv Btf Display Handler Recording Routes Migration Loader Answered BuildScript
    Documented SinkContract
    FilterTests ViewTests SessionTests SqliteTests BtfTests RouteTests
    RepositoryTests
begin

text \<open>
  Shellspectre, a session recorder for Linux: kernel programs observe the exec, read, write and exit
  system calls, a collector turns what they report into sessions and stores it, and a web server
  shows the stored sessions. This theory imports the whole development, holds the properties that
  span several parts, and describes here what is modelled and what is proved.

  \<^bold>\<open>How the parts work together.\<close> The loader (\<open>shspectr/src/ebpf.rs\<close>) reads the field offsets of the
  running kernel from its type information (\<open>btf.rs\<close>), stores them and its own process id in maps of
  the kernel programs (\<open>shspectr-ebpf/src/main.rs\<close>) and attaches these. A program writes a fixed-size
  struct (\<open>shspectr-common/src/event.rs\<close>) into a ring buffer. The event loop parses every entry
  (\<open>event.rs\<close>), asks the correlator for its session (\<open>session.rs\<close>), drops it or not by the filter
  (\<open>filter.rs\<close>), and calls one of three sinks (\<open>handler.rs\<close>, \<open>sink.rs\<close>). The SQLite sink
  (\<open>sqlite_sink.rs\<close>) writes the two tables of \<open>schema.rs\<close>, and only it does. The web server reads them
  through a repository (\<open>shspectr-web/src/infrastructure/repositories/event.rs\<close>) whose WHERE clause
  comes from a small query language (\<open>domain/filter.rs\<close>), and shows them as pages, as details and as a
  live tail (\<open>application/routes/\<close>, \<open>presentation/web/\<close>).

  \<^bold>\<open>Conventions.\<close> A struct is a record, an enum a datatype, an integer of w bits a word (its \<open>+\<close> wraps;
  where a debug build would panic instead, the text says so), \<open>Result\<close> is a sum with the error on the
  left, a panic is \<open>None\<close>. A Rust string is the list of its bytes, and \<open>valid_string\<close> says that they are
  UTF-8; characters are \<open>str_chars\<close>. State is passed explicitly. What the code asks the outside for
  (kernel reads, random bytes, the clock, failing statements, JSON, templates, \<open>/etc/passwd\<close>) is an
  argument, in the records \<open>kenv\<close>, \<open>sql_env\<close>, \<open>web_env\<close>, \<open>front\<close>, \<open>load_env\<close>, \<open>host\<close>, \<open>pool_host\<close> and
  \<open>surroundings\<close>; no law is assumed of it beyond the hypotheses that a theorem names.

  \<^bold>\<open>The collector's side.\<close>
  \<^item> \<open>Prelude\<close>, \<open>Utf8\<close>: words, bytes, \<open>Result\<close>, little-endian encoding; UTF-8 checking and lossy decoding.
  \<^item> \<open>Wire\<close> (\<open>event.rs\<close>, \<open>event_type.rs\<close> of shspectr-common): the structs, their memory image and back,
    the header checks. \<open>EventParse\<close> (\<open>shspectr/src/event.rs\<close>): the three parsers; what a parser reads
    from an image, and which parser accepts which buffer. \<open>Display\<close>: the texts of errors, types and ids.
  \<^item> \<open>Ebpf\<close> (\<open>shspectr-ebpf/src/main.rs\<close>): the maps as one state, the seven programs as functions on it.
    \<open>ebpf_step\<close> fires one program with any answers of the kernel. \<open>EbpfInv\<close>: an invariant of every
    reachable state, by rule induction, from which follow that I/O is only reported after a traced
    exec, never for the collector itself, and with the right length. The read and the write programs
    are two interpretations of one locale, \<open>io_capture\<close>.
  \<^item> \<open>Btf\<close> (\<open>btf.rs\<close>, \<open>offsets.rs\<close>): opening a blob with its bounds checks and the walk over its bytes,
    which refines a search in the list of abstract entries that the bytes encode.
  \<^item> \<open>Loader\<close> (\<open>ebpf.rs\<close>, \<open>main.rs\<close>): the checks, the path of the programs, the start as a list of steps that
    may each fail, with the states in between; nothing is attached before it is configured, and a
    start that succeeds ends in the state \<open>ebpf_init\<close> that \<open>ebpf_reachable\<close> starts from. The command line.
  \<^item> \<open>Correlator\<close> (\<open>session.rs\<close> of both crates): process and terminal tables, the choice of a session, exit
    and completion, the bounded walk to the ancestors (32 levels, the bound of the code).
    \<open>EventFilters\<close> (\<open>filter.rs\<close>): the decision of the filter.
  \<^item> \<open>Sinks\<close> (\<open>sink.rs\<close>, \<open>stdout_sink.rs\<close>, \<open>otel_sink.rs\<close>): the trait as a record of operations, its contract as
    the locales \<open>event_sink\<close> (a call adds at most one entry) and \<open>exact_sink\<close> (exactly one), interpreted
    by the stdout and the OpenTelemetry sinks. \<open>Database\<close>, \<open>SqliteSink\<close> (\<open>schema.rs\<close>, \<open>sqlite_sink.rs\<close>):
    typed tables and the statements on them, any of which may fail; consistency of the database, the
    backfill of exit codes; the SQLite sink interprets \<open>event_sink\<close>. \<open>SinkContract\<close>: what one call may change
    in the two tables and what it has done when its statements are answered. \<open>Migration\<close>: opening a database,
    over tables with declared columns, and the migration of older ones.
  \<^item> \<open>Handler\<close> (\<open>handler.rs\<close>): one entry from the ring buffer through parser, correlator and filter to the
    sink, and a sequence of them.

  \<^bold>\<open>The web server's side.\<close>
  \<^item> \<open>Text\<close>: the string functions of the standard library. \<open>Levenshtein\<close>, \<open>Query\<close> (\<open>domain/filter.rs\<close>,
    \<open>filter.rs\<close> of shspectr-common): the query language, its warnings and suggestions; the table of the
    edit distance computes the recursive definition.
  \<^item> \<open>Like\<close>, \<open>Sql\<close>, \<open>Where\<close>: glob patterns as LIKE patterns, conditions as trees with the SQL text they
    render to and their three-valued meaning, and the clause of a filter, which selects exactly the
    rows that \<open>filter_accepts\<close> describes, a meaning that follows the code; \<open>Documented\<close>: the meaning that the
    documentation of the query language gives (a session by prefix, a command by base name, and so on), the
    limits within which the clause has it, and where it has not. \<open>Placeholders\<close>: the text of the clause
    carries no value of the query. \<open>parsed_filter_valid\<close> (in \<open>ListView\<close>) shows that every parsed query meets
    the hypothesis of these theorems.
  \<^item> \<open>Username\<close>, \<open>Listing\<close> (\<open>domain/listing.rs\<close>), \<open>Repository\<close>: user names, paging, and the queries of the
    repository: lists, details, new events. A query is its text with its parameters (\<open>sql_query\<close>); a
    \<open>connection\<close> answers each from the database as it is then, or fails it, so the queries of one request may
    see different states and any of them may be refused; \<open>steady\<close> is a connection that answers all from one.
  \<^item> \<open>Presentation\<close>, \<open>ListView\<close> (\<open>presentation/web/\<close>): the views of events and lists, and their links.
  \<^item> \<open>Live\<close>, \<open>Routes\<close> (\<open>application/routes/\<close>): the trait of the repository, the live stream, the handlers, the
    header middleware and the router. The locale \<open>live_source\<close> is what a live tail relies on; the SQL
    repository interprets it.
  \<^item> \<open>Server\<close> (\<open>infrastructure/database.rs\<close>, \<open>lib.rs\<close>, \<open>application/state.rs\<close>): the connection pool with its
    checks, the start of the server and its wait for a signal, one request against the stored rows.
    \<open>BuildScript\<close> (\<open>build.rs\<close>): the download of the style sheet compiler and its run.

  \<^bold>\<open>Both sides together.\<close>
  \<^item> \<open>Tail\<close>: between the ticks of a live tail the sink runs any calls with any failures; the tail delivers
    every matching event once and in order. \<open>Recording\<close>: the detail view of an exec shows exactly what the
    sink was given for its execution. \<open>Pipeline\<close>: the same from the ring buffer on; the handlers turn the
    entries of an execution into exactly the sink calls of that execution.
  \<^item> \<open>Running\<close>: the whole program as one transition system. Kernel programs, event loop (\<open>run\<close> and
    \<open>consume_events\<close> of \<open>ebpf.rs\<close>), the task of the web server, signals and the cancellation token take steps
    in any order (\<open>running_step\<close>); its invariant says that the kernel state is reachable and that the loop
    has handled a prefix of the ring buffer in order. \<open>Shutdown\<close>: the loop ends when it is told to, nothing
    is recorded afterwards, and it only stops for a reason. \<open>Served\<close>: at every reachable state, without a
    filter and with all statements answered, the detail panel is rendered from exactly the text that the
    kernel programs captured. \<open>Answered\<close>: it answers every request, whatever SQLite refuses, and with a
    server error only if it has no connection, a query fails or a template does not render; the locale \<open>answering_source\<close> is what the
    handlers rely on, and the SQL repository interprets it.

  \<^bold>\<open>The repository's unit tests.\<close> \<open>FilterTests\<close>, \<open>ViewTests\<close>, \<open>SessionTests\<close>, \<open>SqliteTests\<close>, \<open>WireTests\<close>, \<open>BtfTests\<close>,
  \<open>RouteTests\<close> (over \<open>TestPrelude\<close>) and \<open>RepositoryTests\<close> translate the \<open>#[test]\<close> functions of the modules: a test
  is the conjunction of its assertions, over the model's definitions in place of the code's, and the lemmas
  named \<open>_tests_pass\<close> say that the model passes them. So the model agrees with the code on the inputs its
  authors chose; \<open>RepositoryTests\<close> in particular compares what the model gives as the meaning of the clauses,
  orders and joins with what the authors expect of SQLite. Left out: the test that random ids differ, the tests of the escape sequence converter, a
  library, and the size of the offsets struct; the tests of the whole server,
  which compare with rendered templates.

  \<^bold>\<open>Bounds and fuel.\<close> No definition runs on invented fuel. The loops with a bound have the code's own
  (32 ancestors, 20 arguments, 12 offsets, 100 rows of a tick); the walk over the type section and the
  splitting of words are functions with a measure. \<open>ebpf_run\<close>, \<open>consume_ring\<close> and \<open>live_stream\<close> run along the
  list of the inputs they get, because the code's loops run as long as the process does; the event loop
  is a relation (\<open>running_step\<close>), and \<open>loop_turns\<close> takes as many turns of it as its argument says: two more
  than there are entries are enough once the token is cancelled.

  \<^bold>\<open>Not modelled.\<close> SQLite other than by the documented meaning of the statements, its limits (of the
  depth of an expression, the length of a pattern) other than by a query that is not answered; the kernel,
  the BPF verifier and map capacities other than by a failing operation of \<open>kenv\<close>; the text of the HTML templates, the JSON encoding of the API, the style sheet; the
  scheduler of the async runtime other than as any order of steps, signals, listener and connection pool
  other than by what they answer, the compression and tracing layers; argument parsing and the
  demo set-up. Log output is left out.
\<close>

section \<open>From the kernel to the parser\<close>

text \<open>The three parsers as the consumer of the ring buffer applies them to an entry.\<close>

definition parses :: "ring_event \<Rightarrow> bool" where
  "parses e \<longleftrightarrow> (case e of
      RExec x \<Rightarrow> parsed_exec_try_from (ring_bytes e) = Inr (exec_of_struct x)
    | RIo x \<Rightarrow> parsed_io_try_from (ring_bytes e) = Inr (io_of_struct x)
    | RExit x \<Rightarrow> parsed_exit_try_from (ring_bytes e) = Inr (exit_of_struct x))"

lemma ring_event_ok_parses: "ring_event_ok self pre e \<Longrightarrow> parses e"
  by (cases e) (auto simp: parses_def parse_exec_image parse_exit_image parse_io_image)

text \<open>
  C4: Every entry that the kernel programs ever submit is accepted by the userspace parser of its
  event type and decodes to the values of the struct that was submitted; the collector never sees a
  malformed record.
\<close>

theorem ring_entries_parse:
  assumes "ebpf_reachable self offsets s" "e \<in> set (s_events s)"
  shows "case e of
      RExec x \<Rightarrow> parsed_exec_try_from (exec_event_bytes x) = Inr (exec_of_struct x)
    | RIo x \<Rightarrow> parsed_io_try_from (io_event_bytes x) = Inr (io_of_struct x)
    | RExit x \<Rightarrow> parsed_exit_try_from (exit_event_bytes x) = Inr (exit_of_struct x)"
proof -
  obtain pre post where "s_events s = pre @ e # post"
    using split_list [OF assms(2)] by blast
  moreover have "ring_ok self (s_events s)"
    using ebpf_reachable_inv [OF assms(1)] by (simp add: ebpf_inv_def)
  ultimately have "parses e" by (auto intro: ring_event_ok_parses ring_ok_split)
  then show ?thesis by (cases e) (simp_all add: parses_def)
qed

theorem ring_entries_parse_witness:
  "\<exists>x. RIo x \<in> set (s_events (ebpf_run sample_trace (ebpf_init 1 [])))
     \<and> parsed_io_try_from (io_event_bytes x) = Inr (io_of_struct x)"
proof -
  obtain x where "RIo x \<in> set (s_events (ebpf_run sample_trace (ebpf_init 1 [])))"
    using sample_events by auto
  with ring_entries_parse [OF sample_reachable this] show ?thesis by auto
qed


section \<open>From BTF to the kernel programs\<close>

lemma get_offset_init:
  "i < length offsets \<Longrightarrow> get_offset (ebpf_init self offsets) i = offsets ! i"
  by (simp add: get_offset_def ebpf_init_def)

text \<open>
  C27: When the offsets resolve, every index under which the kernel programs look an offset up holds
  the BTF offset of the field of that name: the order of the offset table, of the map indices and of
  the twelve lookups agree.
\<close>

theorem kernel_uses_btf_offsets:
  assumes "resolve_task_field_offsets sysfs = Inr t"
  shows "\<exists>b. btf_from_sys_fs sysfs = Inr b
    \<and> (let off = (\<lambda>i. Inr (get_offset (ebpf_init self (offsets_as_array t)) i))
       in struct_field_offset b ''task_struct'' ''real_parent'' = off TASK_REAL_PARENT
        \<and> struct_field_offset b ''task_struct'' ''tgid'' = off TASK_TGID
        \<and> struct_field_offset b ''task_struct'' ''cred'' = off TASK_CRED
        \<and> struct_field_offset b ''cred'' ''euid'' = off CRED_EUID
        \<and> struct_field_offset b ''task_struct'' ''signal'' = off TASK_SIGNAL
        \<and> struct_field_offset b ''signal_struct'' ''tty'' = off SIGNAL_TTY
        \<and> struct_field_offset b ''tty_struct'' ''index'' = off TTY_INDEX
        \<and> struct_field_offset b ''task_struct'' ''files'' = off TASK_FILES
        \<and> struct_field_offset b ''files_struct'' ''fdt'' = off FILES_FDT
        \<and> struct_field_offset b ''fdtable'' ''fd'' = off FDT_FD
        \<and> struct_field_offset b ''file'' ''f_inode'' = off FILE_INODE
        \<and> struct_field_offset b ''inode'' ''i_rdev'' = off INODE_RDEV)"
proof -
  obtain data b where "sysfs = Some data" "btf_from_bytes data = Inr b"
    and *: "map (\<lambda>(s, f). struct_field_offset b s f) resolved_fields = map Inr (offsets_as_array t)"
    using resolve_Inr [OF assms] by blast
  then have "btf_from_sys_fs sysfs = Inr b" by (simp add: btf_from_sys_fs_def)
  moreover have len: "length (offsets_as_array t) = 12" by (simp add: offsets_as_array_def)
  ultimately show ?thesis
    using * unfolding Let_def
    by (intro exI [of _ b])
      (simp add: get_offset_init resolved_fields_def offsets_as_array_def TASK_REAL_PARENT_def
        TASK_TGID_def TASK_CRED_def CRED_EUID_def TASK_SIGNAL_def SIGNAL_TTY_def TTY_INDEX_def
        TASK_FILES_def FILES_FDT_def FDT_FD_def FILE_INODE_def INODE_RDEV_def)
qed

theorem kernel_uses_btf_offsets_witness:
  "\<exists>t b. offsets_as_array t = [10, 20, 30, 11, 40, 12, 13, 50, 14, 15, 16, 17]
     \<and> struct_field_offset b ''tty_struct'' ''index''
         = Inr (get_offset (ebpf_init 1 (offsets_as_array t)) TTY_INDEX)"
proof -
  obtain t where t: "resolve_task_field_offsets (Some (btf_blob kernel_entries kernel_strings)) = Inr t"
    and a: "offsets_as_array t = [10, 20, 30, 11, 40, 12, 13, 50, 14, 15, 16, 17]"
    using kernel_resolves by blast
  from kernel_uses_btf_offsets [OF t, of 1] a show ?thesis unfolding Let_def by blast
qed


section \<open>From the ring buffer to the sink\<close>

lemma parses_accepted: "parses e \<Longrightarrow> accepted (ring_bytes e)"
  by (cases e) (simp_all add: parses_def accepted_def)

text \<open>
  C10: End to end: without a filter, and while the random source works, the collector turns the ring
  buffer of any reachable kernel state into exactly one stdout record per entry, in a run that does
  not panic.
\<close>

theorem pipeline_is_lossless:
  assumes "ebpf_reachable self offsets s" "filter_config_is_empty config"
  shows "\<exists>c out. consume_ring config
        (map (\<lambda>e. (Some (rnd e), stdout_sink, ring_bytes e)) (s_events s)) (correlator_default, []) = Some (c, out)
      \<and> length out = length (s_events s)"
proof -
  have ok: "ring_ok self (s_events s)"
    using ebpf_reachable_inv [OF assms(1)] by (simp add: ebpf_inv_def)
  have "accepted (ring_bytes e)" if e: "e \<in> set (s_events s)" for e
  proof -
    obtain pre post where "s_events s = pre @ e # post" using split_list [OF e] by blast
    with ok show ?thesis by (auto intro: parses_accepted ring_event_ok_parses ring_ok_split)
  qed
  then have "\<forall>(r, sink, data) \<in> set (map (\<lambda>e. (Some (rnd e), stdout_sink, ring_bytes e)) (s_events s)).
      r \<noteq> None \<and> sink = stdout_sink \<and> accepted data" by auto
  from stdout.consume_all [OF assms(2) this, of correlator_default "[]"] show ?thesis by auto
qed

theorem pipeline_is_lossless_witness:
  "\<exists>c r1 r2. consume_ring \<lparr>filter_pty = False, filter_ancestors = []\<rparr>
        (map (\<lambda>e. (Some [1, 2, 3, 4, 5, 6, 7, 8], stdout_sink, ring_bytes e))
          (s_events (ebpf_run sample_trace (ebpf_init 1 [])))) (correlator_default, []) = Some (c, [r1, r2])"
  using pipeline_is_lossless [OF sample_reachable,
      of "\<lparr>filter_pty = False, filter_ancestors = []\<rparr>" "\<lambda>_. [1, 2, 3, 4, 5, 6, 7, 8]"] sample_events
  by (auto simp: filter_config_is_empty_def length_Suc_conv)

text \<open>
  C36: With the SQLite sink on a consistent database, whichever statements fail and whatever is filtered or
  malformed, one ring buffer entry leaves every stored event row in place and as it was, except that an
  exit entry may set the exit code of an exec row of its own process and execution id to the code it
  carries. After the stored rows comes at most one new row: the row of what the entry parses to, under the
  next id. An entry that no parser accepts therefore changes no event row at all.
\<close>

theorem sqlite_one_row_per_entry:
  assumes "wf_database db" "handle_event rnd config (sqlite_sink env) data (c, db) = Some (c', db')"
  shows "\<exists>olds new. db_events db' = olds @ new
    \<and> list_all2 (\<lambda>r r'. r' = r \<or> (\<exists>e. parsed_exit_try_from data = Inr e
          \<and> er_event_type r = int_u32 (event_type_as_wire Exec) \<and> er_pid r = int_u32 (pe_pid e)
          \<and> er_execution_id r = saturate_i64 (pe_execution_id e)
          \<and> r' = r\<lparr>er_exit_code := Some (sint (pe_exit_code e))\<rparr>)) (db_events db) olds
    \<and> (new = [] \<or> (\<exists>call. reports data call \<and> new = [(call_row env call)\<lparr>er_id := db_seq db + 1\<rparr>]))"
    (is "\<exists>olds new. _ \<and> list_all2 ?kept _ olds \<and> ?one new")
  using assms(2)
proof (cases rule: handle_event_cases)
  case quiet
  then show ?thesis by (intro exI [of _ "db_events db"] exI [of _ "[]"]) (simp add: list_all2_refl)
next
  case (call call)
  obtain olds new where new: "db_events db' = olds @ new"
      "list_all2 (event_kept call (db_events db)) (db_events db) olds"
      "new \<in> {[], [(call_row env call)\<lparr>er_id := db_seq db + 1\<rparr>]}"
    using call_extends(1) [OF assms(1), of env call] call(1) unfolding events_extended_def by blast
  have "list_all2 ?kept (db_events db) olds"
    using new(2) by (rule list_all2_mono)
      (use call(3) in \<open>auto simp: event_kept_def newest_exec_def exec_of_execution_def\<close>)
  with new(1,3) call(3) show ?thesis by blast
qed

text \<open>The exit of another process leaves the exec row of the sample database first and as it was.\<close>

theorem sqlite_one_row_per_entry_witness:
  "\<exists>c' db' r rows. handle_event sample_bytes \<lparr>filter_pty = False, filter_ancestors = []\<rparr> (sqlite_sink sample_sql_env)
       (exit_event_bytes sample_exit_entry) (correlator_default, sample_db) = Some (c', db')
     \<and> db_events sample_db = [r] \<and> db_events db' = r # rows \<and> length rows \<le> 1"
proof -
  let ?h = "handle_event sample_bytes \<lparr>filter_pty = False, filter_ancestors = []\<rparr> (sqlite_sink sample_sql_env)
      (exit_event_bytes sample_exit_entry) (correlator_default, sample_db)"
  let ?r = "(exec_row ''2024-01-01 00:00:00'' ''ls'' ''ox_k7m3qx9p'' sample_exec)\<lparr>er_id := 1\<rparr>"
  have "?h \<noteq> None" by (rule handle_event_total) (simp add: sample_bytes_def)
  then obtain c' db' where h: "?h = Some (c', db')" by auto
  have db: "db_events sample_db = [?r]" by (simp add: sample_run Let_def)
  have "pe_pid (exit_of_struct sample_exit_entry) = 100"
    by (simp add: exit_of_struct_def sample_exit_entry_def exit_event_new_def event_header_new_def Let_def)
  moreover have "er_pid ?r = 7" by (simp add: exec_row_def sample_exec_def int_u32_def)
  ultimately have "er_pid ?r \<noteq> int_u32 (pe_pid (exit_of_struct sample_exit_entry))" by (simp add: int_u32_def)
  then obtain new where "db_events db' = ?r # new" "length new \<le> 1"
    using sqlite_one_row_per_entry [OF wf_sample_db h] by (auto simp: db list_all2_Cons1 sample_exit_parses)
  with h db show ?thesis by blast
qed

end
